theory Spec2Isabelle
  imports Main "HOL-Library.AList" "HOL-Library.Sublist" "HOL-Library.Word"
begin

section \<open>JavaScript built-ins used by the build script\<close>

text \<open>
  Strings are lists of code units. Paths use the POSIX separator, so
  \<^verbatim>\<open>path.join(a, b)\<close> of two normalised segments is \<open>a / b\<close>.
\<close>

type_synonym path = string

definition pathJoin :: "path \<Rightarrow> string \<Rightarrow> path" where
  "pathJoin dir name = dir @ ''/'' @ name"

text \<open>\<^verbatim>\<open>Array.prototype.join\<close> on an array of strings.\<close>

fun joinWith :: "string \<Rightarrow> string list \<Rightarrow> string" where
  "joinWith sep [] = []"
| "joinWith sep [x] = x"
| "joinWith sep (x # y # ys) = x @ sep @ joinWith sep (y # ys)"

fun startsWith :: "string \<Rightarrow> string \<Rightarrow> bool" where
  "startsWith s [] = True"
| "startsWith [] (p # ps) = False"
| "startsWith (c # cs) (p # ps) = (c = p \<and> startsWith cs ps)"

text \<open>
  \<^verbatim>\<open>String.prototype.indexOf\<close>, returning the text before and after the first
  occurrence of the pattern.
\<close>

fun findFirst :: "string \<Rightarrow> string \<Rightarrow> string \<Rightarrow> (string \<times> string) option" where
  "findFirst pat pre [] = (if pat = [] then Some (pre, []) else None)"
| "findFirst pat pre (c # cs) =
     (if startsWith (c # cs) pat then Some (pre, drop (length pat) (c # cs))
      else findFirst pat (pre @ [c]) cs)"

text \<open>
  The abstract operation GetSubstitution for a string pattern (no capture groups):
  \<^verbatim>\<open>$$\<close> is a dollar sign, \<^verbatim>\<open>$&\<close> the matched text, \<^verbatim>\<open>$`\<close> the text before the
  match, \<^verbatim>\<open>$'\<close> the text after it; any other dollar sign stands for itself.
\<close>

fun getSubstitution :: "string \<Rightarrow> string \<Rightarrow> string \<Rightarrow> string \<Rightarrow> string" where
  "getSubstitution matched pre post [] = []"
| "getSubstitution matched pre post [c] = [c]"
| "getSubstitution matched pre post (c # d # r) =
     (if c = CHR ''$'' \<and> d = CHR ''$'' then CHR ''$'' # getSubstitution matched pre post r
      else if c = CHR ''$'' \<and> d = CHR ''&'' then matched @ getSubstitution matched pre post r
      else if c = CHR ''$'' \<and> d = CHR 0x60 then pre @ getSubstitution matched pre post r
      else if c = CHR ''$'' \<and> d = CHR 0x27 then post @ getSubstitution matched pre post r
      else c # getSubstitution matched pre post (d # r))"

text \<open>\<^verbatim>\<open>s.replace(pat, replacement)\<close> with a string pattern and a string replacement.\<close>

definition replaceStr :: "string \<Rightarrow> string \<Rightarrow> string \<Rightarrow> string" where
  "replaceStr s pat replacement =
     (case findFirst pat [] s of
        None \<Rightarrow> s
      | Some (pre, post) \<Rightarrow> pre @ getSubstitution pat pre post replacement @ post)"

text \<open>
  \<^verbatim>\<open>s.replace(pat, () => text)\<close>: the result of a replacer function is inserted as it is.
\<close>

definition replaceFn :: "string \<Rightarrow> string \<Rightarrow> string \<Rightarrow> string" where
  "replaceFn s pat text =
     (case findFirst pat [] s of
        None \<Rightarrow> s
      | Some (pre, post) \<Rightarrow> pre @ text @ post)"

text \<open>
  \<^verbatim>\<open>s.replaceAll(pat, replacement)\<close>: every occurrence, left to right, without overlaps;
  after an empty match the scan advances by one code unit.
\<close>

function replaceAllFrom :: "string \<Rightarrow> string \<Rightarrow> string \<Rightarrow> string \<Rightarrow> string" where
  "replaceAllFrom pat replacement pre [] =
     (if pat = [] then getSubstitution pat pre [] replacement else [])"
| "replaceAllFrom pat replacement pre (c # cs) =
     (if pat \<noteq> [] \<and> startsWith (c # cs) pat then
        getSubstitution pat pre (drop (length pat) (c # cs)) replacement
          @ replaceAllFrom pat replacement (pre @ pat) (drop (length pat) (c # cs))
      else
        (if pat = [] then getSubstitution pat pre (c # cs) replacement else [])
          @ c # replaceAllFrom pat replacement (pre @ [c]) cs)"
  by pat_completeness auto
termination
  by (relation "measure (\<lambda>(pat, replacement, pre, rest). length rest)")
     (auto simp: neq_Nil_conv)

definition replaceAll :: "string \<Rightarrow> string \<Rightarrow> string \<Rightarrow> string" where
  "replaceAll s pat replacement = replaceAllFrom pat replacement [] s"

text \<open>Decimal rendering of numbers, as a template literal or \<^verbatim>\<open>toString()\<close> does.\<close>

definition digitChar :: "nat \<Rightarrow> char" where
  "digitChar n = ''0123456789'' ! (n mod 10)"

function showNat :: "nat \<Rightarrow> string" where
  "showNat n = (if n < 10 then [digitChar n] else showNat (n div 10) @ [digitChar (n mod 10)])"
  by pat_completeness auto
termination
  by (relation "measure id") auto

declare showNat.simps [simp del]

definition showInt :: "int \<Rightarrow> string" where
  "showInt i = (if i < 0 then CHR ''-'' # showNat (nat (- i)) else showNat (nat i))"

text \<open>\<^verbatim>\<open>n.toLocaleString("en")\<close> for a count: groups of three digits, separated by commas.\<close>

function groupThousands :: "string \<Rightarrow> string" where
  "groupThousands ds =
     (if length ds \<le> 3 then ds
      else groupThousands (take (length ds - 3) ds) @ '','' @ drop (length ds - 3) ds)"
  by pat_completeness auto
termination
  by (relation "measure length") auto

declare groupThousands.simps [simp del]

definition toLocaleString :: "nat \<Rightarrow> string" where
  "toLocaleString n = groupThousands (showNat n)"

text \<open>White space as \<^verbatim>\<open>trim\<close> and \<^verbatim>\<open>parseInt\<close> skip it (code units below 256).\<close>

definition isWhiteSpace :: "char \<Rightarrow> bool" where
  "isWhiteSpace c \<longleftrightarrow> of_char c \<in> {9, 10, 11, 12, 13, 32, 160 :: nat}"

definition trim :: "string \<Rightarrow> string" where
  "trim s = rev (dropWhile isWhiteSpace (rev (dropWhile isWhiteSpace s)))"

definition isDigit :: "char \<Rightarrow> bool" where
  "isDigit c \<longleftrightarrow> 48 \<le> (of_char c :: nat) \<and> (of_char c :: nat) \<le> 57"

definition digitValue :: "char \<Rightarrow> nat" where
  "digitValue c = of_char c - 48"

definition digitsValue :: "string \<Rightarrow> nat" where
  "digitsValue ds = foldl (\<lambda>acc c. 10 * acc + digitValue c) 0 ds"

text \<open>
  Number values as far as the script meets them: \<^verbatim>\<open>NaN\<close>, the infinities, and the
  integers. \<^verbatim>\<open>parseInt(s, 10)\<close> skips leading white space, reads an optional sign and the
  longest run of decimal digits, and is \<^verbatim>\<open>NaN\<close> when there is no digit. An integer at or
  beyond \<open>2^1024 - 2^970\<close> rounds to an infinity.
\<close>

datatype number = NaN | Infinity bool | Num int

definition toNumber :: "int \<Rightarrow> number" where
  "toNumber i =
     (if 2 ^ 1024 - 2 ^ 970 \<le> i then Infinity True
      else if i \<le> - (2 ^ 1024 - 2 ^ 970) then Infinity False
      else Num i)"

definition parseInt10 :: "string \<Rightarrow> number" where
  "parseInt10 s =
     (let t = dropWhile isWhiteSpace s;
          negative = (t \<noteq> [] \<and> hd t = CHR ''-'');
          u = (if t \<noteq> [] \<and> (hd t = CHR ''-'' \<or> hd t = CHR ''+'') then tl t else t);
          ds = takeWhile isDigit u
      in if ds = [] then NaN
         else toNumber ((if negative then - 1 else 1) * int (digitsValue ds)))"

fun numberIsInteger :: "number \<Rightarrow> bool" where
  "numberIsInteger (Num i) = True"
| "numberIsInteger NaN = False"
| "numberIsInteger (Infinity positive) = False"

text \<open>\<^verbatim>\<open>s.split("-")[0]\<close>: the text before the first hyphen.\<close>

definition splitHead :: "string \<Rightarrow> string" where
  "splitHead s = takeWhile (\<lambda>c. c \<noteq> CHR ''-'') s"

text \<open>
  \<^verbatim>\<open>Array.prototype.sort\<close> with a comparator is a stable sort. For a consistent
  comparator its result is the one stable insertion computes.
\<close>

fun insertBy :: "('a \<Rightarrow> 'a \<Rightarrow> int) \<Rightarrow> 'a \<Rightarrow> 'a list \<Rightarrow> 'a list" where
  "insertBy cmp x [] = [x]"
| "insertBy cmp x (y # ys) = (if cmp x y \<le> 0 then x # y # ys else y # insertBy cmp x ys)"

definition sortBy :: "('a \<Rightarrow> 'a \<Rightarrow> int) \<Rightarrow> 'a list \<Rightarrow> 'a list" where
  "sortBy cmp xs = foldr (insertBy cmp) xs []"

text \<open>
  A comparator is consistent when it orders its arguments as a total preorder, as
  \<^verbatim>\<open>localeCompare\<close> does.
\<close>

definition consistentComparator :: "('a \<Rightarrow> 'a \<Rightarrow> int) \<Rightarrow> bool" where
  "consistentComparator cmp \<longleftrightarrow>
     (\<forall>a b. (cmp a b < 0) = (0 < cmp b a)) \<and>
     (\<forall>a b c. cmp a b \<le> 0 \<and> cmp b c \<le> 0 \<longrightarrow> cmp a c \<le> 0)"

fun sortedBy :: "('a \<Rightarrow> 'a \<Rightarrow> int) \<Rightarrow> 'a list \<Rightarrow> bool" where
  "sortedBy cmp [] = True"
| "sortedBy cmp (x # xs) = ((\<forall>y \<in> set xs. cmp x y \<le> 0) \<and> sortedBy cmp xs)"

text \<open>
  Comparison by code units. On strings of digits, lower-case letters and hyphens it
  agrees with \<^verbatim>\<open>localeCompare\<close>; it is the comparator of the worked examples.
\<close>

fun codeUnitCompare :: "string \<Rightarrow> string \<Rightarrow> int" where
  "codeUnitCompare [] [] = 0"
| "codeUnitCompare [] (y # ys) = - 1"
| "codeUnitCompare (x # xs) [] = 1"
| "codeUnitCompare (x # xs) (y # ys) =
     (if (of_char x :: nat) < of_char y then - 1
      else if (of_char y :: nat) < of_char x then 1
      else codeUnitCompare xs ys)"

subsection \<open>Plain objects with string keys\<close>

text \<open>
  An object is the list of its own properties in creation order. Assignment to an
  existing key keeps its place (\<open>AList.update\<close>). Enumeration
  (\<^verbatim>\<open>Object.entries\<close>, \<^verbatim>\<open>JSON.stringify\<close>) lists the keys that are array indices
  first, in ascending numeric order, then the other keys in creation order. A lookup
  reads an own property; the keys the script looks up are paths, which no prototype
  defines.
\<close>

type_synonym 'v object = "(string \<times> 'v) list"

definition isArrayIndex :: "string \<Rightarrow> bool" where
  "isArrayIndex k \<longleftrightarrow>
     k \<noteq> [] \<and> list_all isDigit k \<and> (hd k \<noteq> CHR ''0'' \<or> length k = 1) \<and>
     digitsValue k < 2 ^ 32 - 1"

definition keys :: "'v object \<Rightarrow> string set" where
  "keys obj = fst ` set obj"

definition getProperty :: "'v object \<Rightarrow> string \<Rightarrow> 'v option" where
  "getProperty obj k = map_of obj k"

definition setProperty :: "'v object \<Rightarrow> string \<Rightarrow> 'v \<Rightarrow> 'v object" where
  "setProperty obj k v = AList.update k v obj"

definition entries :: "'v object \<Rightarrow> (string \<times> 'v) list" where
  "entries obj =
     sort_key (\<lambda>(k, v). digitsValue k) (filter (\<lambda>(k, v). isArrayIndex k) obj)
       @ filter (\<lambda>(k, v). \<not> isArrayIndex k) obj"

definition fromEntries :: "(string \<times> 'v) list \<Rightarrow> 'v object" where
  "fromEntries kvs = foldl (\<lambda>obj (k, v). setProperty obj k v) [] kvs"

section \<open>The checksum helper (utils/checksum.ts)\<close>

text \<open>
  \<^verbatim>\<open>fileChecksum\<close> hashes the bytes of a file and renders each byte of the digest with
  \<^verbatim>\<open>toString(16).padStart(2, '0')\<close>. The hash function itself is a parameter.
\<close>

definition hexDigit :: "nat \<Rightarrow> char" where
  "hexDigit n = ''0123456789abcdef'' ! (n mod 16)"

definition toString16 :: "8 word \<Rightarrow> string" where
  "toString16 byte =
     (if unat byte < 16 then [hexDigit (unat byte)]
      else [hexDigit (unat byte div 16), hexDigit (unat byte mod 16)])"

definition padStart :: "nat \<Rightarrow> char \<Rightarrow> string \<Rightarrow> string" where
  "padStart n c s = replicate (n - length s) c @ s"

definition hashHex :: "8 word list \<Rightarrow> string" where
  "hashHex hashArray = concat (map (\<lambda>byte. padStart 2 CHR ''0'' (toString16 byte)) hashArray)"

section \<open>Data of the build script (build.ts, tsc.ts)\<close>

datatype error = Error string | NotFound path | PermissionDenied path

text \<open>
  The fields of a draft definition the script reads: \<^verbatim>\<open>$draft\<close>, \<^verbatim>\<open>$copyright\<close> and
  \<^verbatim>\<open>$license\<close>; the schema content is kept as it is. The year is a Number with an
  integer value.
\<close>

record copyright =
  year :: int
  credits :: "string list"

record 'b draft_definition =
  def_draft :: string
  def_copyright :: copyright
  def_license :: string
  def_schema :: 'b

text \<open>An element of \<^verbatim>\<open>licenseCopyrights\<close>: the copyright fields and the draft.\<close>

record license_copyright = copyright +
  draft :: string

text \<open>Diagnostics of the TypeScript compiler, with the message text already flattened.\<close>

datatype diagnostic_category = CategoryWarning | CategoryError | CategorySuggestion | CategoryMessage

record source_file =
  fileName :: string
  getLineAndCharacterOfPosition :: "nat \<Rightarrow> nat \<times> nat"

record diagnostic =
  category :: diagnostic_category
  diagnosticFile :: "source_file option"
  start :: nat
  messageText :: string

record emit_result =
  emitSkipped :: bool
  diagnostics :: "diagnostic list"

text \<open>
  What \<^verbatim>\<open>ts.createProgram\<close> and \<^verbatim>\<open>program.emit()\<close> yield for one source file: the
  diagnostics found before emission, the emit result, and the files the compiler
  wrote while emitting, in the order written, each as its name inside the output
  directory and its text. Which files are written, also when emission is reported
  as skipped, is the compiler's business and is not fixed here.
\<close>

record program =
  preEmitDiagnostics :: "diagnostic list"
  emitResult :: emit_result
  emittedFiles :: "(string \<times> string) list"

record export_target =
  target_types :: string
  target_default :: string

record 'p package_json =
  pkg_version :: string
  pkg_main :: string
  pkg_types :: string
  pkg_exports :: "export_target object"
  pkg_other :: 'p

text \<open>
  Everything the script takes from outside: the command line, the working directory,
  the glob result, the collaborators whose source is elsewhere (formatter, expander,
  module loader, compiler, \<^verbatim>\<open>deno fmt\<close>), the imported constants and the clock.
  \<open>importDefinition\<close> is the dynamic import of a definition module, by path;
  \<open>denied\<close> holds of the paths at which a write throws; \<open>largeNumberToString\<close> is the
  text \<^verbatim>\<open>Number::toString\<close> gives for an integer beyond the safe range.
\<close>

record ('b, 'p) env =
  FORCE_REFRESH :: bool
  CWD :: path
  expandGlob :: "string list"
  localeCompare :: "string \<Rightarrow> string \<Rightarrow> int"
  digest :: "string \<Rightarrow> 8 word list"
  importDefinition :: "path \<Rightarrow> error + 'b draft_definition"
  formatDefinitionDescriptions :: "'b draft_definition \<Rightarrow> nat \<Rightarrow> error + 'b draft_definition"
  formatMarkdown :: "string \<Rightarrow> nat option \<Rightarrow> error + string"
  expandSourcePlaceholders :: "path \<Rightarrow> string \<Rightarrow> 'b draft_definition \<Rightarrow> error + string"
  stringifyDefinition :: "'b draft_definition \<Rightarrow> string"
  denoFmt :: "path \<Rightarrow> string \<Rightarrow> string"
  createProgram :: "path \<Rightarrow> path \<Rightarrow> string option \<Rightarrow> program"
  denied :: "path \<Rightarrow> bool"
  VERSION :: string
  packageJson :: "'p package_json"
  stringifyPackage :: "'p package_json \<Rightarrow> string"
  getFullYear :: int
  largeNumberToString :: "int \<Rightarrow> string"

text \<open>
  The state of a run: the files on disk, the document stored in
  \<^verbatim>\<open>.src/checksums.json\<close> (its members in document order; \<open>None\<close> when the file is
  missing), the imported \<^verbatim>\<open>checksums\<close> object, the \<^verbatim>\<open>licenseCopyrights\<close> array and
  the console. A throw ends the run; the state it carries is the state at the throw.
\<close>

record state =
  files :: "path \<rightharpoonup> string"
  ledgerDoc :: "(string \<times> string) list option"
  checksums :: "string object"
  licenseCopyrights :: "license_copyright list"
  console :: "string list"

type_synonym 'a outcome = "(error \<times> state) + 'a"

definition await :: "state \<Rightarrow> error + 'a \<Rightarrow> 'a outcome" where
  "await s r = (case r of Inl e \<Rightarrow> Inl (e, s) | Inr x \<Rightarrow> Inr x)"

definition andThen :: "'a outcome \<Rightarrow> ('a \<Rightarrow> 'c outcome) \<Rightarrow> 'c outcome" where
  "andThen m f = (case m of Inl failure \<Rightarrow> Inl failure | Inr x \<Rightarrow> f x)"

subsection \<open>Directories\<close>

definition SRC_DIR :: "('b, 'p) env \<Rightarrow> path" where
  "SRC_DIR env = pathJoin (CWD env) ''.src''"

definition FILE_TEMPLATES_DIR :: "('b, 'p) env \<Rightarrow> path" where
  "FILE_TEMPLATES_DIR env = pathJoin (SRC_DIR env) ''file_templates''"

definition DIST_DIR :: "('b, 'p) env \<Rightarrow> path" where
  "DIST_DIR env = pathJoin (CWD env) ''dist''"

definition DENO_DIR :: "('b, 'p) env \<Rightarrow> path" where
  "DENO_DIR env = pathJoin (DIST_DIR env) ''deno''"

definition NODE_DIR :: "('b, 'p) env \<Rightarrow> path" where
  "NODE_DIR env = pathJoin (DIST_DIR env) ''node''"

definition SPEC_DEFS_DIR :: "('b, 'p) env \<Rightarrow> path" where
  "SPEC_DEFS_DIR env = pathJoin (DIST_DIR env) ''spec_definitions''"

definition ALL_DIST_DIRS :: "('b, 'p) env \<Rightarrow> path list" where
  "ALL_DIST_DIRS env = [DENO_DIR env, SPEC_DEFS_DIR env, NODE_DIR env]"

definition modTemplateFilename :: "('b, 'p) env \<Rightarrow> path" where
  "modTemplateFilename env = pathJoin (SRC_DIR env) ''mod_template.ts''"

subsection \<open>File system\<close>

definition readTextFile :: "path \<Rightarrow> state \<Rightarrow> string outcome" where
  "readTextFile p s = (case files s p of None \<Rightarrow> Inl (NotFound p, s) | Some text \<Rightarrow> Inr text)"

definition writeTextFile :: "('b, 'p) env \<Rightarrow> path \<Rightarrow> string \<Rightarrow> state \<Rightarrow> state outcome" where
  "writeTextFile env p text s =
     (if denied env p then Inl (PermissionDenied p, s)
      else Inr (s\<lparr>files := (files s)(p \<mapsto> text)\<rparr>))"

text \<open>
  \<^verbatim>\<open>deno fmt --quiet file\<close> rewrites the file in place; the script ignores its exit
  status.
\<close>

definition fmtCommand :: "('b, 'p) env \<Rightarrow> path \<Rightarrow> state \<Rightarrow> state" where
  "fmtCommand env p s =
     (case files s p of
        None \<Rightarrow> s
      | Some text \<Rightarrow> s\<lparr>files := (files s)(p \<mapsto> denoFmt env p text)\<rparr>)"

definition fileChecksum :: "('b, 'p) env \<Rightarrow> path \<Rightarrow> state \<Rightarrow> string outcome" where
  "fileChecksum env file s =
     andThen (readTextFile file s) (\<lambda>fileContent. Inr (hashHex (digest env fileContent)))"

section \<open>Compilation (tsc.ts)\<close>

definition diagnosticLine :: "diagnostic \<Rightarrow> string" where
  "diagnosticLine d =
     (case diagnosticFile d of
        Some f \<Rightarrow>
          (case getLineAndCharacterOfPosition f (start d) of
             (line, character) \<Rightarrow>
               fileName f @ '' ('' @ showNat (line + 1) @ '','' @ showNat (character + 1)
                 @ ''): '' @ messageText d)
      | None \<Rightarrow> messageText d)"

definition allDiagnostics :: "program \<Rightarrow> diagnostic list" where
  "allDiagnostics prog = preEmitDiagnostics prog @ diagnostics (emitResult prog)"

text \<open>
  \<^verbatim>\<open>program.emit()\<close> runs before the diagnostics are looked at; with \<^verbatim>\<open>outDir\<close> set the
  compiler places what it writes in the output directory.
\<close>

definition emit :: "program \<Rightarrow> path \<Rightarrow> state \<Rightarrow> state" where
  "emit prog outputDir s =
     s\<lparr>files := foldl (\<lambda>fs (name, text). fs(pathJoin outputDir name \<mapsto> text)) (files s)
                  (emittedFiles prog)\<rparr>"

definition compileTypeScript :: "('b, 'p) env \<Rightarrow> path \<Rightarrow> path \<Rightarrow> state \<Rightarrow> state outcome" where
  "compileTypeScript env sourceFile outputDir s =
     (let prog = createProgram env sourceFile outputDir (files s sourceFile);
          s' = emit prog outputDir s
      in if length (allDiagnostics prog) > 0 then
           Inl (Error (''TypeScript compilation failed:\<newline>''
                  @ joinWith ''\<newline>'' (map diagnosticLine (allDiagnostics prog))), s')
         else if emitSkipped (emitResult prog) then
           Inl (Error ''TypeScript compilation was skipped'', s')
         else Inr s')"

section \<open>The build script (build.ts)\<close>

subsection \<open>Processing one draft\<close>

definition draftDefFilename :: "('b, 'p) env \<Rightarrow> string \<Rightarrow> path" where
  "draftDefFilename env draftId =
     pathJoin (pathJoin (pathJoin (SRC_DIR env) ''draft'') draftId) ''definition.ts''"

text \<open>
  \<^verbatim>\<open>path.relative(CWD, draftDefFilename)\<close> with forward slashes: the key of the draft in
  the ledger.
\<close>

definition draftDefRelativeFilename :: "string \<Rightarrow> string" where
  "draftDefRelativeFilename draftId = ''.src/draft/'' @ draftId @ ''/definition.ts''"

definition outputFilename :: "('b, 'p) env \<Rightarrow> string \<Rightarrow> path" where
  "outputFilename env draftId = pathJoin (DENO_DIR env) (''draft_'' @ draftId @ ''.ts'')"

definition jsonDefFilename :: "('b, 'p) env \<Rightarrow> string \<Rightarrow> path" where
  "jsonDefFilename env draftId = pathJoin (SPEC_DEFS_DIR env) (''draft_'' @ draftId @ ''.json'')"

text \<open>The condition of lines 70 to 74: the draft is skipped.\<close>

definition unchanged :: "('b, 'p) env \<Rightarrow> string object \<Rightarrow> string \<Rightarrow> string \<Rightarrow> bool" where
  "unchanged env ledger draftDefRelative draftDefChecksum \<longleftrightarrow>
     getProperty ledger draftDefRelative = Some draftDefChecksum \<and> FORCE_REFRESH env = False"

definition generatedModule :: "string \<Rightarrow> string" where
  "generatedModule modCode =
     joinWith ''\<newline>''
       [''// @generated'',
        ''// This code is automatically generated. Manual editing is not recommended.'',
        [],
        modCode]"

text \<open>
  Lines 64 to 67: the copyright fields of the definition, spread into a new object
  together with its \<^verbatim>\<open>$draft\<close>.
\<close>

definition licenseEntry :: "'b draft_definition \<Rightarrow> license_copyright" where
  "licenseEntry rawDraftSpec =
     copyright.extend (def_copyright rawDraftSpec) \<lparr>draft = def_draft rawDraftSpec\<rparr>"

definition skipMessage :: "string \<Rightarrow> string" where
  "skipMessage draftId = ''Skipping draft-'' @ draftId @ '': no changes''"

definition completeMessage :: "string \<Rightarrow> string" where
  "completeMessage draftId = ''draft_'' @ draftId @ '': complete''"

text \<open>
  Lines 83 to 131: the pipeline of a draft that is not skipped. Every \<^verbatim>\<open>await\<close> of a
  collaborator may throw; the state at the throw is the state reached so far.
\<close>

definition regenerate ::
    "('b, 'p) env \<Rightarrow> string \<Rightarrow> string \<Rightarrow> 'b draft_definition \<Rightarrow> state \<Rightarrow> state outcome" where
  "regenerate env modTemplateCode draftId rawDraftSpec s =
     andThen (await s (formatDefinitionDescriptions env rawDraftSpec 75)) (\<lambda>formatted.
     andThen (await s (formatMarkdown env (def_license formatted) (Some 76))) (\<lambda>license.
     let draftSpec = formatted\<lparr>def_license := trim license\<rparr> in
     andThen (await s (formatDefinitionDescriptions env rawDraftSpec 100000)) (\<lambda>jsonDef.
     andThen (writeTextFile env (jsonDefFilename env draftId) (stringifyDefinition env jsonDef) s)
       (\<lambda>s.
     andThen (await s (expandSourcePlaceholders env (modTemplateFilename env) modTemplateCode
                draftSpec)) (\<lambda>modCode.
     andThen (writeTextFile env (outputFilename env draftId) (generatedModule modCode) s) (\<lambda>s.
     andThen (compileTypeScript env (outputFilename env draftId) (NODE_DIR env)
                (fmtCommand env (outputFilename env draftId) s)) (\<lambda>s.
     Inr (s\<lparr>console := console s @ [completeMessage draftId]\<rparr>))))))))"

text \<open>
  Lines 54 to 81, the body of the loop up to the pipeline: the digest and the import of
  the definition, the entry for the LICENSE, the skip check, and the assignment to
  \<^verbatim>\<open>checksums\<close>, which comes before the pipeline runs.
\<close>

definition processDraft :: "('b, 'p) env \<Rightarrow> string \<Rightarrow> string \<Rightarrow> state \<Rightarrow> state outcome" where
  "processDraft env modTemplateCode draftId s =
     andThen (fileChecksum env (draftDefFilename env draftId) s) (\<lambda>draftDefChecksum.
     andThen (await s (importDefinition env (draftDefFilename env draftId))) (\<lambda>rawDraftSpec.
     let s = s\<lparr>licenseCopyrights := licenseCopyrights s @ [licenseEntry rawDraftSpec]\<rparr>
     in if unchanged env (checksums s) (draftDefRelativeFilename draftId) draftDefChecksum then
          Inr (s\<lparr>console := console s @ [skipMessage draftId]\<rparr>)
        else
          regenerate env modTemplateCode draftId rawDraftSpec
            (s\<lparr>checksums :=
                 setProperty (checksums s) (draftDefRelativeFilename draftId) draftDefChecksum\<rparr>)))"

text \<open>The loop of line 53. It has no handler: a throw in one draft ends the loop.\<close>

fun processDrafts :: "('b, 'p) env \<Rightarrow> string \<Rightarrow> string list \<Rightarrow> state \<Rightarrow> state outcome" where
  "processDrafts env modTemplateCode [] s = Inr s"
| "processDrafts env modTemplateCode (draftId # rest) s =
     andThen (processDraft env modTemplateCode draftId s) (processDrafts env modTemplateCode rest)"

subsection \<open>The ledger on disk\<close>

definition checksumsFilename :: "('b, 'p) env \<Rightarrow> path" where
  "checksumsFilename env = pathJoin (SRC_DIR env) ''checksums.json''"

text \<open>
  The static import of \<^verbatim>\<open>checksums.json\<close>: the run cannot start without the file. The
  members of the document become the properties of the object, in document order.
\<close>

definition importChecksums :: "('b, 'p) env \<Rightarrow> state \<Rightarrow> state outcome" where
  "importChecksums env s =
     (case ledgerDoc s of
        None \<Rightarrow> Inl (NotFound (checksumsFilename env), s)
      | Some doc \<Rightarrow> Inr (s\<lparr>checksums := fromEntries doc, licenseCopyrights := [], console := []\<rparr>))"

definition compareKeys ::
    "('b, 'p) env \<Rightarrow> string \<times> string \<Rightarrow> string \<times> string \<Rightarrow> int" where
  "compareKeys env a b = localeCompare env (fst a) (fst b)"

text \<open>Lines 137 to 148: the whole object is written back, its entries sorted by key.\<close>

definition serializeChecksums :: "('b, 'p) env \<Rightarrow> string object \<Rightarrow> (string \<times> string) list" where
  "serializeChecksums env obj = entries (fromEntries (sortBy (compareKeys env) (entries obj)))"

definition writeChecksums :: "('b, 'p) env \<Rightarrow> state \<Rightarrow> state outcome" where
  "writeChecksums env s =
     (if denied env (checksumsFilename env) then Inl (PermissionDenied (checksumsFilename env), s)
      else Inr (s\<lparr>ledgerDoc := Some (serializeChecksums env (checksums s))\<rparr>))"

subsection \<open>The latest draft\<close>

definition numericPrefixed :: "string \<Rightarrow> bool" where
  "numericPrefixed draftId = numberIsInteger (parseInt10 (splitHead draftId))"

text \<open>Lines 154 to 156: \<^verbatim>\<open>pop()\<close> takes the last element, or \<^verbatim>\<open>undefined\<close>.\<close>

definition latestDraft :: "string list \<Rightarrow> string option" where
  "latestDraft drafts =
     (case filter numericPrefixed drafts of
        [] \<Rightarrow> None
      | d # ds \<Rightarrow> Some (last (d # ds)))"

definition latestFilename :: "('b, 'p) env \<Rightarrow> path" where
  "latestFilename env = pathJoin (DENO_DIR env) ''draft_latest.ts''"

definition latestModule :: "string \<Rightarrow> string" where
  "latestModule latest = ''export * from \"./draft_'' @ latest @ ''.ts\";''"

subsection \<open>README files\<close>

text \<open>Lines 171 to 203.\<close>

definition readmeFilenames :: "('b, 'p) env \<Rightarrow> (path \<times> path) list" where
  "readmeFilenames env =
     [(pathJoin (FILE_TEMPLATES_DIR env) ''README.deno.template.md'',
       pathJoin (DENO_DIR env) ''README.md''),
      (pathJoin (FILE_TEMPLATES_DIR env) ''README.node.template.md'',
       pathJoin (NODE_DIR env) ''README.md'')]"

definition readmeText :: "string list \<Rightarrow> string \<Rightarrow> string \<Rightarrow> string" where
  "readmeText drafts latest templateSource =
     replaceAll
       (replaceFn
          (replaceFn
             (replaceAll
                (replaceAll templateSource ''{DRAFT_TOTAL}'' (toLocaleString (length drafts)))
                ''{NODE_LATEST_DRAFT}'' (replaceAll latest ''_'' ''-''))
             ''{NODE_DRAFT_LIST}''
             (joinWith ''\<newline>- ''
                (map (\<lambda>draft. [CHR 0x60] @ ''draft-'' @ replaceAll draft ''_'' ''-'' @ [CHR 0x60])
                   drafts)))
          ''{DENO_DRAFT_LIST}''
          (joinWith ''\<newline>   - ''
             (map (\<lambda>draft. [CHR 0x60] @ ''draft_'' @ draft @ ''.ts'' @ [CHR 0x60]) drafts)))
       ''{LATEST_DRAFT}'' latest"

fun writeReadmes ::
    "('b, 'p) env \<Rightarrow> string list \<Rightarrow> string \<Rightarrow> (path \<times> path) list \<Rightarrow> state \<Rightarrow> state outcome" where
  "writeReadmes env drafts latest [] s = Inr s"
| "writeReadmes env drafts latest ((template, output) # rest) s =
     andThen (readTextFile template s) (\<lambda>templateSource.
     andThen (writeTextFile env output (readmeText drafts latest templateSource) s) (\<lambda>s.
     writeReadmes env drafts latest rest (fmtCommand env output s)))"

subsection \<open>LICENSE files\<close>

text \<open>Lines 209 to 243.\<close>

definition licenseFilename :: "('b, 'p) env \<Rightarrow> path" where
  "licenseFilename env = pathJoin (CWD env) ''LICENSE.md''"

definition licenseTemplateFilename :: "('b, 'p) env \<Rightarrow> path" where
  "licenseTemplateFilename env = pathJoin (FILE_TEMPLATES_DIR env) ''LICENSE.template.md''"

text \<open>The comparator of lines 220 to 225: by year, then by draft.\<close>

definition compareCopyrights ::
    "('b, 'p) env \<Rightarrow> license_copyright \<Rightarrow> license_copyright \<Rightarrow> int" where
  "compareCopyrights env a b =
     (if year a \<noteq> year b then year a - year b else localeCompare env (draft a) (draft b))"

text \<open>
  A template literal renders a Number with \<^verbatim>\<open>Number::toString\<close>. For an integer of
  magnitude up to \<^verbatim>\<open>Number.MAX_SAFE_INTEGER\<close> that is its decimal digits; beyond it the
  digits are the shortest that round to the value, in exponent form from \<^verbatim>\<open>1e21\<close> on.
\<close>

definition numberToString :: "('b, 'p) env \<Rightarrow> int \<Rightarrow> string" where
  "numberToString env n =
     (if \<bar>n\<bar> \<le> 9007199254740991 then showInt n else largeNumberToString env n)"

text \<open>
  Lines 226 to 233. \<^verbatim>\<open>credits.slice(-1)\<close> is an array of at most one element, which the
  template literal renders by joining with a comma.
\<close>

definition copyrightLine :: "('b, 'p) env \<Rightarrow> license_copyright \<Rightarrow> string" where
  "copyrightLine env c =
     (let initialCredits = butlast (credits c);
          lastCredit = drop (length (credits c) - 1) (credits c)
      in numberToString env (year c) @ '' [draft-'' @ draft c @ ''] ''
           @ joinWith '', '' initialCredits @ '', and '' @ joinWith '','' lastCredit @ ''.'')"

definition copyrightText :: "('b, 'p) env \<Rightarrow> license_copyright list \<Rightarrow> string" where
  "copyrightText env cs =
     joinWith ''\<newline>\<newline>'' (map (copyrightLine env) (sortBy (compareCopyrights env) cs))"

definition licenseSource :: "('b, 'p) env \<Rightarrow> string \<Rightarrow> license_copyright list \<Rightarrow> string" where
  "licenseSource env template cs =
     replaceStr (replaceStr template ''{YEAR}'' (showInt (getFullYear env)))
       ''{COPYRIGHT}'' (copyrightText env cs)"

definition writeLicense :: "('b, 'p) env \<Rightarrow> state \<Rightarrow> state outcome" where
  "writeLicense env s =
     andThen (readTextFile (licenseTemplateFilename env) s) (\<lambda>template.
     andThen (await s (formatMarkdown env (licenseSource env template (licenseCopyrights s)) None))
       (\<lambda>text.
     writeTextFile env (licenseFilename env) text s))"

definition copy :: "('b, 'p) env \<Rightarrow> path \<Rightarrow> path \<Rightarrow> state \<Rightarrow> state outcome" where
  "copy env src dest s = andThen (readTextFile src s) (\<lambda>text. writeTextFile env dest text s)"

fun copyLicense :: "('b, 'p) env \<Rightarrow> path list \<Rightarrow> state \<Rightarrow> state outcome" where
  "copyLicense env [] s = Inr s"
| "copyLicense env (dir # dirs) s =
     andThen (copy env (licenseFilename env) (pathJoin dir ''LICENSE.md'') s) (copyLicense env dirs)"

subsection \<open>Package metadata and version module\<close>

text \<open>
  Lines 248 to 288. In the \<^verbatim>\<open>exports\<close> object the entry for \<^verbatim>\<open>.\<close> comes first and the
  spread of the per-draft entries follows.
\<close>

definition packageExports :: "string list \<Rightarrow> string \<Rightarrow> export_target object" where
  "packageExports drafts latest =
     foldl (\<lambda>obj (k, v). setProperty obj k v)
       [(''.'', \<lparr>target_types = ''./draft_'' @ latest @ ''.d.ts'',
                 target_default = ''./draft_'' @ latest @ ''.js''\<rparr>)]
       (entries (fromEntries
          (map (\<lambda>draftId.
                  (''./draft-'' @ replaceAll draftId ''_'' ''-'',
                   \<lparr>target_types = ''./draft_'' @ draftId @ ''.d.ts'',
                    target_default = ''./draft_'' @ draftId @ ''.js''\<rparr>))
             drafts)))"

definition updatedPackageJson :: "('b, 'p) env \<Rightarrow> string list \<Rightarrow> string \<Rightarrow> 'p package_json" where
  "updatedPackageJson env drafts latest =
     (packageJson env)
       \<lparr>pkg_version := VERSION env,
        pkg_main := ''./draft_'' @ latest @ ''.js'',
        pkg_types := ''./draft_'' @ latest @ ''.d.ts'',
        pkg_exports := packageExports drafts latest\<rparr>"

definition packageFilename :: "('b, 'p) env \<Rightarrow> path" where
  "packageFilename env = pathJoin (NODE_DIR env) ''package.json''"

definition versionFilename :: "('b, 'p) env \<Rightarrow> path" where
  "versionFilename env = pathJoin (DENO_DIR env) ''version.ts''"

definition versionModule :: "('b, 'p) env \<Rightarrow> string" where
  "versionModule env = ''export const VERSION = \"'' @ VERSION env @ ''\";''"

subsection \<open>The run\<close>

text \<open>Lines 38 to 47: the glob result, sorted with \<^verbatim>\<open>localeCompare\<close>.\<close>

definition drafts :: "('b, 'p) env \<Rightarrow> string list" where
  "drafts env = sortBy (localeCompare env) (expandGlob env)"

definition writeLatest :: "('b, 'p) env \<Rightarrow> string \<Rightarrow> state \<Rightarrow> state outcome" where
  "writeLatest env latest s = writeTextFile env (latestFilename env) (latestModule latest) s"

definition writePackageJson :: "('b, 'p) env \<Rightarrow> string \<Rightarrow> state \<Rightarrow> state outcome" where
  "writePackageJson env latest s =
     writeTextFile env (packageFilename env)
       (stringifyPackage env (updatedPackageJson env (drafts env) latest) @ ''\<newline>'') s"

definition writeVersion :: "('b, 'p) env \<Rightarrow> state \<Rightarrow> state outcome" where
  "writeVersion env s = writeTextFile env (versionFilename env) (versionModule env) s"

text \<open>Lines 154 to 288: everything after the ledger is written.\<close>

definition finish :: "('b, 'p) env \<Rightarrow> state \<Rightarrow> state outcome" where
  "finish env s =
     (case latestDraft (drafts env) of
        None \<Rightarrow> Inl (Error ''TODO'', s)
      | Some latest \<Rightarrow>
          andThen (writeLatest env latest s) (\<lambda>s.
          andThen (writeReadmes env (drafts env) latest (readmeFilenames env) s) (\<lambda>s.
          andThen (writeLicense env s) (\<lambda>s.
          andThen (copyLicense env (ALL_DIST_DIRS env) s) (\<lambda>s.
          andThen (writePackageJson env latest s) (writeVersion env))))))"

text \<open>
  The script as a whole: the static import of the ledger, the template (line 32), the
  loop over the drafts, the ledger write and the rest.
\<close>

definition run :: "('b, 'p) env \<Rightarrow> state \<Rightarrow> state outcome" where
  "run env s =
     andThen (importChecksums env s) (\<lambda>s.
     andThen (readTextFile (modTemplateFilename env) s) (\<lambda>modTemplateCode.
     andThen (processDrafts env modTemplateCode (drafts env) s) (\<lambda>s.
     andThen (writeChecksums env s) (finish env))))"

text \<open>The state in which a run, or a step of it, ended.\<close>

definition afterwards :: "state outcome \<Rightarrow> state" where
  "afterwards result = (case result of Inl (e, s) \<Rightarrow> s | Inr s \<Rightarrow> s)"

text \<open>
  Two states are related by \<open>touchesOnly P\<close> when they differ at most in the files at
  the paths in \<open>P\<close>.
\<close>

definition touchesOnly :: "path set \<Rightarrow> state \<Rightarrow> state \<Rightarrow> bool" where
  "touchesOnly P s s' \<longleftrightarrow>
     ledgerDoc s' = ledgerDoc s \<and> checksums s' = checksums s \<and>
     licenseCopyrights s' = licenseCopyrights s \<and> console s' = console s \<and>
     (\<forall>p. p \<notin> P \<longrightarrow> files s' p = files s p)"

text \<open>The files lines 154 to 288 write, whatever the ledger says.\<close>

definition runOutputs :: "('b, 'p) env \<Rightarrow> path list" where
  "runOutputs env =
     latestFilename env # map snd (readmeFilenames env) @ licenseFilename env #
     map (\<lambda>dir. pathJoin dir ''LICENSE.md'') (ALL_DIST_DIRS env) @
     [packageFilename env, versionFilename env]"

text \<open>An uncaught throw ends the process with exit code 1.\<close>

definition exitCode :: "state outcome \<Rightarrow> nat" where
  "exitCode result = (case result of Inl failure \<Rightarrow> 1 | Inr s \<Rightarrow> 0)"

section \<open>A worked example\<close>

text \<open>
  Two drafts, \<^verbatim>\<open>2019-09\<close> and \<^verbatim>\<open>draft7\<close>, in a repository at \<^verbatim>\<open>/repo\<close>. The
  collaborators are the simplest ones: formatting changes nothing, expansion appends the
  draft to the template, compilation reports no diagnostic. The stand-in hash is the
  length of the content.
\<close>

definition exampleDefinition :: "string \<Rightarrow> int \<Rightarrow> unit draft_definition" where
  "exampleDefinition name y =
     \<lparr>def_draft = name,
      def_copyright = \<lparr>year = y, credits = [''A. Author'', ''B. Editor'']\<rparr>,
      def_license = ''License text'',
      def_schema = ()\<rparr>"

definition exampleProgram :: program where
  "exampleProgram =
     \<lparr>preEmitDiagnostics = [],
      emitResult = \<lparr>emitSkipped = False, diagnostics = []\<rparr>,
      emittedFiles = [(''module.js'', ''export {};''), (''module.d.ts'', ''export {};'')]\<rparr>"

definition exampleEnv :: "(unit, unit) env" where
  "exampleEnv =
     \<lparr>FORCE_REFRESH = False,
      CWD = ''/repo'',
      expandGlob = [''draft7'', ''2019-09''],
      localeCompare = codeUnitCompare,
      digest = (\<lambda>content. [of_nat (length content)]),
      importDefinition = (\<lambda>p.
        if p = ''/repo/.src/draft/2019-09/definition.ts'' then Inr (exampleDefinition ''2019-09'' 2019)
        else if p = ''/repo/.src/draft/draft7/definition.ts'' then Inr (exampleDefinition ''07'' 2018)
        else Inl (NotFound p)),
      formatDefinitionDescriptions = (\<lambda>d lineWidth. Inr d),
      formatMarkdown = (\<lambda>t options. Inr t),
      expandSourcePlaceholders = (\<lambda>filename code d. Inr (code @ def_draft d)),
      stringifyDefinition = def_draft,
      denoFmt = (\<lambda>p t. t),
      createProgram = (\<lambda>sourceFile outputDir source. exampleProgram),
      denied = (\<lambda>p. False),
      VERSION = ''1.0.1'',
      packageJson =
        \<lparr>pkg_version = ''1.0.0'', pkg_main = [], pkg_types = [], pkg_exports = [],
         pkg_other = ()\<rparr>,
      stringifyPackage = pkg_version,
      getFullYear = 2026,
      largeNumberToString = showInt\<rparr>"

text \<open>
  The disk before the run: the two definitions, the templates, a version module written
  by an earlier release, and a ledger that holds the current digest of both definitions
  (\<^verbatim>\<open>0e\<close> and \<^verbatim>\<open>0d\<close>, the lengths 14 and 13). The \<^verbatim>\<open>checksums\<close> object is the
  one the import of that ledger yields.
\<close>

definition exampleFiles :: "(path \<times> string) list" where
  "exampleFiles =
     [(''/repo/.src/mod_template.ts'', ''// draft ''),
      (''/repo/.src/draft/2019-09/definition.ts'', ''export default''),
      (''/repo/.src/draft/draft7/definition.ts'', ''export const;''),
      (''/repo/.src/file_templates/README.deno.template.md'', ''{DRAFT_TOTAL} {LATEST_DRAFT}''),
      (''/repo/.src/file_templates/README.node.template.md'', ''{NODE_DRAFT_LIST}''),
      (''/repo/.src/file_templates/LICENSE.template.md'', ''{YEAR}: {COPYRIGHT}''),
      (''/repo/dist/deno/version.ts'', ''export const VERSION = \"1.0.0\";'')]"

definition exampleState :: state where
  "exampleState =
     \<lparr>files = map_of exampleFiles,
      ledgerDoc = Some [(''.src/draft/2019-09/definition.ts'', ''0e''),
                        (''.src/draft/draft7/definition.ts'', ''0d'')],
      checksums = [(''.src/draft/2019-09/definition.ts'', ''0e''),
                   (''.src/draft/draft7/definition.ts'', ''0d'')],
      licenseCopyrights = [],
      console = []\<rparr>"

text \<open>
  A compilation whose only diagnostic is a warning, in a file, reported by the emit
  result; its output is emitted.
\<close>

definition exampleWarning :: diagnostic where
  "exampleWarning =
     \<lparr>category = CategoryWarning,
      diagnosticFile = Some
        \<lparr>fileName = ''/repo/dist/deno/draft_draft7.ts'',
         getLineAndCharacterOfPosition = (\<lambda>position. (position div 80, position mod 80))\<rparr>,
      start = 164,
      messageText = ''unused variable''\<rparr>"

definition warningProgram :: program where
  "warningProgram =
     exampleProgram\<lparr>emitResult := \<lparr>emitSkipped = False, diagnostics = [exampleWarning]\<rparr>\<rparr>"

text \<open>
  The same repository with a template that names a field the definition of \<^verbatim>\<open>2019-09\<close>
  lacks, so that its expansion fails, and with a ledger that is out of date for both
  drafts.
\<close>

definition failingEnv :: "(unit, unit) env" where
  "failingEnv =
     exampleEnv\<lparr>expandSourcePlaceholders := (\<lambda>filename code d.
       if def_draft d = ''2019-09'' then Inl (Error ''MissingPlaceholderBinding'')
       else Inr (code @ def_draft d))\<rparr>"

definition staleState :: state where
  "staleState =
     exampleState\<lparr>ledgerDoc := Some [(''.src/draft/2019-09/definition.ts'', ''00''),
                                      (''.src/draft/draft7/definition.ts'', ''00'')],
                    checksums := [(''.src/draft/2019-09/definition.ts'', ''00''),
                                  (''.src/draft/draft7/definition.ts'', ''00'')]\<rparr>"

text \<open>
  A variant of the example in which the definition of \<^verbatim>\<open>draft7\<close> credits a name that
  contains the replacement pattern \<^verbatim>\<open>$&\<close>.
\<close>

definition dollarDefinition :: "unit draft_definition" where
  "dollarDefinition =
     \<lparr>def_draft = ''07'',
      def_copyright = \<lparr>year = 2018, credits = [''A. Author'', ''B. Editor $& Sons'']\<rparr>,
      def_license = ''License text'',
      def_schema = ()\<rparr>"

definition dollarEnv :: "(unit, unit) env" where
  "dollarEnv =
     exampleEnv\<lparr>importDefinition := (\<lambda>p.
       if p = ''/repo/.src/draft/draft7/definition.ts'' then Inr dollarDefinition
       else importDefinition exampleEnv p)\<rparr>"



section \<open>Properties\<close>

subsection \<open>Sequencing\<close>

lemma andThen_Inl [simp]: "andThen (Inl failure) f = Inl failure"
  by (simp add: andThen_def)

lemma andThen_Inr [simp]: "andThen (Inr x) f = f x"
  by (simp add: andThen_def)

lemma andThen_eq_Inr: "andThen m f = Inr y \<longleftrightarrow> (\<exists>x. m = Inr x \<and> f x = Inr y)"
  by (cases m) simp_all

lemma andThen_eq_Inl: "andThen m f = Inl z \<longleftrightarrow> m = Inl z \<or> (\<exists>x. m = Inr x \<and> f x = Inl z)"
  by (cases m) simp_all

lemma await_eq_Inr [simp]: "await s r = Inr x \<longleftrightarrow> r = Inr x"
  by (cases r) (simp_all add: await_def)

lemma await_eq_Inl [simp]: "await s r = Inl (e, s') \<longleftrightarrow> r = Inl e \<and> s' = s"
  by (cases r) (auto simp: await_def)

lemma await_Inr [simp]: "await s (Inr x) = Inr x"
  by (simp add: await_def)

lemma await_Inl [simp]: "await s (Inl e) = Inl (e, s)"
  by (simp add: await_def)

subsection \<open>Sorting with a comparator\<close>

lemma set_insertBy [simp]: "set (insertBy cmp x ys) = insert x (set ys)"
  by (induction ys) auto

lemma length_insertBy [simp]: "length (insertBy cmp x ys) = Suc (length ys)"
  by (induction ys) auto

lemma set_sortBy [simp]: "set (sortBy cmp xs) = set xs"
  by (induction xs) (simp_all add: sortBy_def)

lemma length_sortBy [simp]: "length (sortBy cmp xs) = length xs"
  by (induction xs) (simp_all add: sortBy_def)

lemma sortBy_Cons: "sortBy cmp (x # xs) = insertBy cmp x (sortBy cmp xs)"
  by (simp add: sortBy_def)

lemma sortBy_Nil [simp]: "sortBy cmp [] = []"
  by (simp add: sortBy_def)

lemma map_fst_insertBy_set: "set (map f (insertBy cmp x ys)) = insert (f x) (set (map f ys))"
  by simp

lemma distinct_map_insertBy:
  "distinct (map f (insertBy cmp x ys)) \<longleftrightarrow> f x \<notin> f ` set ys \<and> distinct (map f ys)"
  by (induction ys) auto

lemma distinct_map_sortBy [simp]: "distinct (map f (sortBy cmp xs)) \<longleftrightarrow> distinct (map f xs)"
  by (induction xs) (simp_all add: sortBy_Cons distinct_map_insertBy)

lemma consistent_total: "consistentComparator cmp \<Longrightarrow> \<not> cmp a b \<le> 0 \<Longrightarrow> cmp b a \<le> 0"
  unfolding consistentComparator_def
  by (metis less_le_not_le linorder_not_le)

lemma consistent_trans:
  "consistentComparator cmp \<Longrightarrow> cmp a b \<le> 0 \<Longrightarrow> cmp b c \<le> 0 \<Longrightarrow> cmp a c \<le> 0"
  unfolding consistentComparator_def by blast

lemma sortedBy_insertBy:
  assumes "consistentComparator cmp" and "sortedBy cmp ys"
  shows "sortedBy cmp (insertBy cmp x ys)"
  using assms(2)
proof (induction ys)
  case Nil
  then show ?case by simp
next
  case (Cons y ys)
  show ?case
  proof (cases "cmp x y \<le> 0")
    case True
    with Cons.prems assms(1) show ?thesis
      by (auto intro: consistent_trans)
  next
    case False
    then have "cmp y x \<le> 0"
      using assms(1) by (rule consistent_total [rotated])
    with False Cons show ?thesis by auto
  qed
qed


lemma sortedBy_sortBy: "consistentComparator cmp \<Longrightarrow> sortedBy cmp (sortBy cmp xs)"
  by (induction xs) (simp_all add: sortBy_Cons sortedBy_insertBy)

subsection \<open>Objects\<close>

lemma set_entries [simp]: "set (entries obj) = set obj"
  by (auto simp: entries_def)


lemma keys_setProperty [simp]: "fst ` set (setProperty obj k v) = insert k (fst ` set obj)"
  by (simp add: setProperty_def AList.dom_update)

lemma distinct_setProperty:
  "distinct (map fst obj) \<Longrightarrow> distinct (map fst (setProperty obj k v))"
  by (simp add: setProperty_def AList.distinct_update)

lemma getProperty_setProperty [simp]:
  "getProperty (setProperty obj k v) k' = (if k' = k then Some v else getProperty obj k')"
  by (simp add: getProperty_def setProperty_def AList.update_conv')

lemma setProperty_fresh: "k \<notin> fst ` set obj \<Longrightarrow> setProperty obj k v = obj @ [(k, v)]"
  by (induction obj) (auto simp: setProperty_def)

lemma foldl_setProperty_keys:
  "fst ` set (foldl (\<lambda>obj (k, v). setProperty obj k v) acc kvs) = fst ` set acc \<union> fst ` set kvs"
  by (induction kvs arbitrary: acc) (auto simp: case_prod_beta)

lemma foldl_setProperty_distinct:
  "distinct (map fst acc) \<Longrightarrow>
   distinct (map fst (foldl (\<lambda>obj (k, v). setProperty obj k v) acc kvs))"
  by (induction kvs arbitrary: acc) (auto simp: case_prod_beta distinct_setProperty)

lemma foldl_setProperty_fresh:
  "distinct (map fst (acc @ kvs)) \<Longrightarrow>
   foldl (\<lambda>obj (k, v). setProperty obj k v) acc kvs = acc @ kvs"
proof (induction kvs arbitrary: acc)
  case Nil
  then show ?case by simp
next
  case (Cons kv kvs)
  obtain k v where kv: "kv = (k, v)" by (cases kv)
  from Cons.prems kv have fresh: "k \<notin> fst ` set acc" by auto
  from Cons.prems kv have "distinct (map fst ((acc @ [(k, v)]) @ kvs))" by auto
  then have "foldl (\<lambda>obj (k, v). setProperty obj k v) (acc @ [(k, v)]) kvs = (acc @ [(k, v)]) @ kvs"
    by (rule Cons.IH)
  with fresh kv show ?case by (simp add: setProperty_fresh)
qed

lemma keys_fromEntries [simp]: "fst ` set (fromEntries kvs) = fst ` set kvs"
  by (simp add: fromEntries_def foldl_setProperty_keys)

lemma distinct_fromEntries [simp]: "distinct (map fst (fromEntries kvs))"
  by (simp add: fromEntries_def foldl_setProperty_distinct)

lemma fromEntries_distinct: "distinct (map fst kvs) \<Longrightarrow> fromEntries kvs = kvs"
  using foldl_setProperty_fresh [of "[]" kvs] by (simp add: fromEntries_def)

lemma keys_serializeChecksums [simp]:
  "fst ` set (serializeChecksums env obj) = fst ` set obj"
  by (simp add: serializeChecksums_def)


lemma keys_simps [simp]:
  "keys (setProperty obj k v) = insert k (keys obj)"
  "keys (fromEntries kvs) = keys kvs"
  "keys (entries obj) = keys obj"
  "keys (sortBy cmp obj) = keys obj"
  "keys (serializeChecksums env obj) = keys obj"
  by (simp_all add: keys_def)


subsection \<open>Steps that only touch files\<close>

lemma writeTextFile_Inr:
  "writeTextFile env p t s = Inr s' \<longleftrightarrow> \<not> denied env p \<and> s' = s\<lparr>files := (files s)(p \<mapsto> t)\<rparr>"
  by (auto simp: writeTextFile_def)

lemma writeTextFile_Inl:
  "writeTextFile env p t s = Inl (e, s') \<longleftrightarrow> denied env p \<and> e = PermissionDenied p \<and> s' = s"
  by (auto simp: writeTextFile_def)

lemma readTextFile_Inr: "readTextFile p s = Inr t \<longleftrightarrow> files s p = Some t"
  by (auto simp: readTextFile_def split: option.splits)

lemma readTextFile_Inl:
  "readTextFile p s = Inl (e, s') \<longleftrightarrow> files s p = None \<and> e = NotFound p \<and> s' = s"
  by (auto simp: readTextFile_def split: option.splits)

lemma fmtCommand_memory [simp]:
  "ledgerDoc (fmtCommand env p s) = ledgerDoc s"
  "checksums (fmtCommand env p s) = checksums s"
  "licenseCopyrights (fmtCommand env p s) = licenseCopyrights s"
  "console (fmtCommand env p s) = console s"
  by (simp_all add: fmtCommand_def split: option.splits)

lemma emit_memory [simp]:
  "ledgerDoc (emit prog dir s) = ledgerDoc s"
  "checksums (emit prog dir s) = checksums s"
  "licenseCopyrights (emit prog dir s) = licenseCopyrights s"
  "console (emit prog dir s) = console s"
  by (simp_all add: emit_def)

lemma foldl_update_other:
  "\<forall>x \<in> set xs. g (fst x) \<noteq> p \<Longrightarrow>
   foldl (\<lambda>fs (name, text). fs(g name \<mapsto> text)) m xs p = m p"
  by (induction xs arbitrary: m) (auto simp: case_prod_beta)

lemma emit_files:
  "(\<And>name. pathJoin dir name \<noteq> p) \<Longrightarrow> files (emit prog dir s) p = files s p"
  by (simp add: emit_def foldl_update_other)

lemma compileTypeScript_Inr:
  "compileTypeScript env f dir s = Inr s' \<Longrightarrow>
   s' = emit (createProgram env f dir (files s f)) dir s"
  by (auto simp: compileTypeScript_def Let_def split: if_splits)

lemma compileTypeScript_Inl:
  "compileTypeScript env f dir s = Inl (e, s') \<Longrightarrow>
   s' = emit (createProgram env f dir (files s f)) dir s"
  by (auto simp: compileTypeScript_def Let_def split: if_splits)

lemma regenerate_Inl:
  assumes "regenerate env code d raw s = Inl (e, s')"
  shows "ledgerDoc s' = ledgerDoc s \<and> checksums s' = checksums s \<and>
         licenseCopyrights s' = licenseCopyrights s"
  using assms unfolding regenerate_def Let_def
  by (auto simp: andThen_eq_Inl writeTextFile_Inr writeTextFile_Inl
           dest!: compileTypeScript_Inl)

lemma regenerate_Inr:
  assumes "regenerate env code d raw s = Inr s'"
  shows "ledgerDoc s' = ledgerDoc s \<and> checksums s' = checksums s \<and>
         licenseCopyrights s' = licenseCopyrights s \<and>
         console s' = console s @ [completeMessage d]"
  using assms unfolding regenerate_def Let_def
  by (auto simp: andThen_eq_Inr writeTextFile_Inr dest!: compileTypeScript_Inr)

subsection \<open>One draft\<close>

lemma fileChecksum_Inr:
  "fileChecksum env f s = Inr h \<longleftrightarrow> (\<exists>content. files s f = Some content \<and> h = hashHex (digest env content))"
  by (auto simp: fileChecksum_def andThen_eq_Inr readTextFile_Inr)

lemma fileChecksum_Inl:
  "fileChecksum env f s = Inl (e, s') \<longleftrightarrow> files s f = None \<and> e = NotFound f \<and> s' = s"
  by (auto simp: fileChecksum_def andThen_eq_Inl readTextFile_Inl)

lemma fileChecksum_files:
  "files s' = files s \<Longrightarrow> fileChecksum env f s' = Inr h \<longleftrightarrow> fileChecksum env f s = Inr h"
  by (simp add: fileChecksum_Inr)

lemma processDraft_eq:
  assumes "fileChecksum env (draftDefFilename env d) s = Inr h"
    and "importDefinition env (draftDefFilename env d) = Inr raw"
  shows "processDraft env code d s =
           (if unchanged env (checksums s) (draftDefRelativeFilename d) h then
              Inr (s\<lparr>licenseCopyrights := licenseCopyrights s @ [licenseEntry raw],
                      console := console s @ [skipMessage d]\<rparr>)
            else
              regenerate env code d raw
                (s\<lparr>licenseCopyrights := licenseCopyrights s @ [licenseEntry raw],
                    checksums := setProperty (checksums s) (draftDefRelativeFilename d) h\<rparr>))"
  using assms by (simp add: processDraft_def Let_def)

lemma processDraft_Inl:
  assumes "processDraft env code d s = Inl (e, s')"
  shows "ledgerDoc s' = ledgerDoc s"
  using assms unfolding processDraft_def Let_def
  by (auto simp: andThen_eq_Inl fileChecksum_Inl split: if_splits dest!: regenerate_Inl)

lemma processDraft_Inr:
  assumes "processDraft env code d s = Inr s'"
  shows "\<exists>h raw.
           fileChecksum env (draftDefFilename env d) s = Inr h \<and>
           importDefinition env (draftDefFilename env d) = Inr raw \<and>
           ledgerDoc s' = ledgerDoc s \<and>
           licenseCopyrights s' = licenseCopyrights s @ [licenseEntry raw] \<and>
           (if unchanged env (checksums s) (draftDefRelativeFilename d) h
            then checksums s' = checksums s \<and> files s' = files s \<and>
                 console s' = console s @ [skipMessage d]
            else checksums s' = setProperty (checksums s) (draftDefRelativeFilename d) h \<and>
                 console s' = console s @ [completeMessage d])"
  using assms unfolding processDraft_def Let_def
  by (auto simp: andThen_eq_Inr split: if_splits dest!: regenerate_Inr)

lemma skipMessage_neq_completeMessage [simp]: "skipMessage d \<noteq> completeMessage d'"
  by (simp add: skipMessage_def completeMessage_def)

subsection \<open>The loop over the drafts\<close>

lemma processDrafts_append:
  "processDrafts env code (ds @ ds') s =
     andThen (processDrafts env code ds s) (processDrafts env code ds')"
  by (induction ds arbitrary: s) (auto simp: andThen_def split: sum.splits)


lemma processDrafts_Inr_ledgerDoc:
  "processDrafts env code ds s = Inr s' \<Longrightarrow> ledgerDoc s' = ledgerDoc s"
proof (induction ds arbitrary: s)
  case Nil
  then show ?case by simp
next
  case (Cons d ds)
  from Cons.prems obtain s1 where
    1: "processDraft env code d s = Inr s1" and 2: "processDrafts env code ds s1 = Inr s'"
    by (auto simp: andThen_eq_Inr)
  from 2 have "ledgerDoc s' = ledgerDoc s1" by (rule Cons.IH)
  moreover from 1 have "ledgerDoc s1 = ledgerDoc s" by (auto dest: processDraft_Inr)
  ultimately show ?case by simp
qed

lemma processDraft_other_key:
  assumes "processDraft env code d s = Inr s'" and "k \<noteq> draftDefRelativeFilename d"
  shows "getProperty (checksums s') k = getProperty (checksums s) k"
  using processDraft_Inr [OF assms(1)] assms(2) by (auto split: if_splits)

lemma processDraft_keys:
  assumes "processDraft env code d s = Inr s'"
  shows "keys (checksums s) \<subseteq> keys (checksums s') \<and>
         keys (checksums s') \<subseteq> insert (draftDefRelativeFilename d) (keys (checksums s)) \<and>
         (distinct (map fst (checksums s)) \<longrightarrow> distinct (map fst (checksums s')))"
proof -
  from processDraft_Inr [OF assms] consider
      "checksums s' = checksums s"
    | h where "checksums s' = setProperty (checksums s) (draftDefRelativeFilename d) h"
    by (auto split: if_splits)
  then show ?thesis
    by cases (auto simp: distinct_setProperty)
qed

lemma processDrafts_other_key:
  "processDrafts env code ds s = Inr s' \<Longrightarrow> k \<notin> draftDefRelativeFilename ` set ds \<Longrightarrow>
   getProperty (checksums s') k = getProperty (checksums s) k"
proof (induction ds arbitrary: s)
  case Nil
  then show ?case by simp
next
  case (Cons d ds)
  from Cons.prems(1) obtain s1 where
    1: "processDraft env code d s = Inr s1" and 2: "processDrafts env code ds s1 = Inr s'"
    by (auto simp: andThen_eq_Inr)
  from Cons.prems(2) have "k \<noteq> draftDefRelativeFilename d" "k \<notin> draftDefRelativeFilename ` set ds"
    by auto
  with 1 2 Cons.IH [of s1] show ?case
    by (simp add: processDraft_other_key)
qed

lemma processDrafts_keys:
  "processDrafts env code ds s = Inr s' \<Longrightarrow>
   keys (checksums s) \<subseteq> keys (checksums s') \<and>
   keys (checksums s') \<subseteq> draftDefRelativeFilename ` set ds \<union> keys (checksums s) \<and>
   (distinct (map fst (checksums s)) \<longrightarrow> distinct (map fst (checksums s')))"
proof (induction ds arbitrary: s)
  case Nil
  then show ?case by simp
next
  case (Cons d ds)
  from Cons.prems(1) obtain s1 where
    1: "processDraft env code d s = Inr s1" and 2: "processDrafts env code ds s1 = Inr s'"
    by (auto simp: andThen_eq_Inr)
  from processDraft_keys [OF 1] Cons.IH [OF 2] show ?case
    by (simp add: subset_iff) blast
qed

lemma draftDefRelativeFilename_inj [simp]:
  "draftDefRelativeFilename d = draftDefRelativeFilename d' \<longleftrightarrow> d = d'"
  by (simp add: draftDefRelativeFilename_def)


section \<open>The skip decision\<close>

text \<open>
  C2. For a draft whose definition file is read (digest \<open>h\<close>) and imported, the
  regeneration pipeline is skipped, leaving files and ledger as they are and logging the
  skip, if and only if the force flag is unset and the ledger holds \<open>h\<close> for the path
  identifier of the draft. Equivalently, the draft goes through \<open>regenerate\<close> exactly when
  the force flag is set, the ledger has no entry for the path, or its entry differs from
  \<open>h\<close>.
\<close>

theorem skip_iff_unforced_and_ledger_matches:
  assumes "fileChecksum env (draftDefFilename env d) s = Inr h"
    and "importDefinition env (draftDefFilename env d) = Inr raw"
  shows "((\<exists>s'. processDraft env code d s = Inr s' \<and> console s' = console s @ [skipMessage d] \<and>
                files s' = files s \<and> checksums s' = checksums s)
            \<longleftrightarrow> FORCE_REFRESH env = False \<and>
                getProperty (checksums s) (draftDefRelativeFilename d) = Some h) \<and>
         (processDraft env code d s =
            regenerate env code d raw
              (s\<lparr>licenseCopyrights := licenseCopyrights s @ [licenseEntry raw],
                  checksums := setProperty (checksums s) (draftDefRelativeFilename d) h\<rparr>)
            \<longleftrightarrow> FORCE_REFRESH env \<or>
                getProperty (checksums s) (draftDefRelativeFilename d) = None \<or>
                (\<exists>h'. getProperty (checksums s) (draftDefRelativeFilename d) = Some h' \<and> h' \<noteq> h))"
proof (cases "unchanged env (checksums s) (draftDefRelativeFilename d) h")
  case True
  let ?skipped = "s\<lparr>licenseCopyrights := licenseCopyrights s @ [licenseEntry raw],
                     console := console s @ [skipMessage d]\<rparr>"
  from True have eq: "processDraft env code d s = Inr ?skipped"
    by (simp add: processDraft_eq [OF assms])
  have "processDraft env code d s \<noteq>
          regenerate env code d raw
            (s\<lparr>licenseCopyrights := licenseCopyrights s @ [licenseEntry raw],
                checksums := setProperty (checksums s) (draftDefRelativeFilename d) h\<rparr>)"
  proof
    assume "processDraft env code d s =
          regenerate env code d raw
            (s\<lparr>licenseCopyrights := licenseCopyrights s @ [licenseEntry raw],
                checksums := setProperty (checksums s) (draftDefRelativeFilename d) h\<rparr>)"
    with eq have "regenerate env code d raw
            (s\<lparr>licenseCopyrights := licenseCopyrights s @ [licenseEntry raw],
                checksums := setProperty (checksums s) (draftDefRelativeFilename d) h\<rparr>) = Inr ?skipped"
      by simp
    from regenerate_Inr [OF this] show False by simp
  qed
  with True eq show ?thesis
    by (auto simp: unchanged_def)
next
  case False
  then have eq: "processDraft env code d s =
          regenerate env code d raw
            (s\<lparr>licenseCopyrights := licenseCopyrights s @ [licenseEntry raw],
                checksums := setProperty (checksums s) (draftDefRelativeFilename d) h\<rparr>)"
    by (simp add: processDraft_eq [OF assms])
  have "\<not> (\<exists>s'. processDraft env code d s = Inr s' \<and> console s' = console s @ [skipMessage d] \<and>
                files s' = files s \<and> checksums s' = checksums s)"
  proof
    assume "\<exists>s'. processDraft env code d s = Inr s' \<and> console s' = console s @ [skipMessage d] \<and>
                files s' = files s \<and> checksums s' = checksums s"
    then obtain s' where "processDraft env code d s = Inr s'"
      and c: "console s' = console s @ [skipMessage d]" by blast
    with eq have "regenerate env code d raw
            (s\<lparr>licenseCopyrights := licenseCopyrights s @ [licenseEntry raw],
                checksums := setProperty (checksums s) (draftDefRelativeFilename d) h\<rparr>) = Inr s'"
      by simp
    from regenerate_Inr [OF this] c show False by simp
  qed
  with False eq show ?thesis
    by (cases "getProperty (checksums s) (draftDefRelativeFilename d)") (auto simp: unchanged_def)
qed

lemma example_checksum_draft7:
  "fileChecksum exampleEnv (draftDefFilename exampleEnv ''draft7'') (exampleState\<lparr>checksums := cs\<rparr>) = Inr ''0d''"
  by (simp add: fileChecksum_def readTextFile_def exampleState_def exampleFiles_def
      draftDefFilename_def SRC_DIR_def pathJoin_def exampleEnv_def hashHex_def padStart_def
      toString16_def hexDigit_def)

lemma example_import_draft7:
  "importDefinition exampleEnv (draftDefFilename exampleEnv ''draft7'') = Inr (exampleDefinition ''07'' 2018)"
  by (simp add: draftDefFilename_def SRC_DIR_def pathJoin_def exampleEnv_def)

theorem skip_iff_unforced_and_ledger_matches_witness:
  "fileChecksum exampleEnv (draftDefFilename exampleEnv ''draft7'')
     (exampleState\<lparr>checksums := [(''.src/draft/draft7/definition.ts'', ''0d'')]\<rparr>) = Inr ''0d'' \<and>
   importDefinition exampleEnv (draftDefFilename exampleEnv ''draft7'') =
     Inr (exampleDefinition ''07'' 2018) \<and>
   (\<exists>s'. processDraft exampleEnv ''// draft '' ''draft7''
            (exampleState\<lparr>checksums := [(''.src/draft/draft7/definition.ts'', ''0d'')]\<rparr>) = Inr s' \<and>
         console s' = [skipMessage ''draft7''] \<and> files s' = files exampleState) \<and>
   processDraft exampleEnv ''// draft '' ''draft7''
       (exampleState\<lparr>checksums := [(''.src/draft/draft7/definition.ts'', ''0c'')]\<rparr>) =
     regenerate exampleEnv ''// draft '' ''draft7'' (exampleDefinition ''07'' 2018)
       (exampleState\<lparr>licenseCopyrights := [licenseEntry (exampleDefinition ''07'' 2018)],
          checksums := [(''.src/draft/draft7/definition.ts'', ''0d'')]\<rparr>)"
proof -
  let ?match = "exampleState\<lparr>checksums := [(''.src/draft/draft7/definition.ts'', ''0d'')]\<rparr>"
  let ?stale = "exampleState\<lparr>checksums := [(''.src/draft/draft7/definition.ts'', ''0c'')]\<rparr>"
  note a = skip_iff_unforced_and_ledger_matches
    [OF example_checksum_draft7 [of "[(''.src/draft/draft7/definition.ts'', ''0d'')]"]
        example_import_draft7, where code = "''// draft ''"]
  note b = skip_iff_unforced_and_ledger_matches
    [OF example_checksum_draft7 [of "[(''.src/draft/draft7/definition.ts'', ''0c'')]"]
        example_import_draft7, where code = "''// draft ''"]
  have m: "FORCE_REFRESH exampleEnv = False"
    "getProperty (checksums ?match) (draftDefRelativeFilename ''draft7'') = Some ''0d''"
    "getProperty (checksums ?stale) (draftDefRelativeFilename ''draft7'') = Some ''0c''"
    by (simp_all add: exampleEnv_def getProperty_def draftDefRelativeFilename_def)
  from a m have 1: "\<exists>s'. processDraft exampleEnv ''// draft '' ''draft7'' ?match = Inr s' \<and>
         console s' = console ?match @ [skipMessage ''draft7''] \<and> files s' = files ?match \<and>
         checksums s' = checksums ?match"
    by simp
  from b m have 2: "processDraft exampleEnv ''// draft '' ''draft7'' ?stale =
     regenerate exampleEnv ''// draft '' ''draft7'' (exampleDefinition ''07'' 2018)
       (?stale\<lparr>licenseCopyrights := licenseCopyrights ?stale @ [licenseEntry (exampleDefinition ''07'' 2018)],
          checksums := setProperty (checksums ?stale) (draftDefRelativeFilename ''draft7'') ''0d''\<rparr>)"
    by simp
  from 1 have skipped: "\<exists>s'. processDraft exampleEnv ''// draft '' ''draft7'' ?match = Inr s' \<and>
         console s' = [skipMessage ''draft7''] \<and> files s' = files exampleState"
    by (auto simp: exampleState_def)
  from 2 have regenerated: "processDraft exampleEnv ''// draft '' ''draft7'' ?stale =
     regenerate exampleEnv ''// draft '' ''draft7'' (exampleDefinition ''07'' 2018)
       (exampleState\<lparr>licenseCopyrights := [licenseEntry (exampleDefinition ''07'' 2018)],
          checksums := [(''.src/draft/draft7/definition.ts'', ''0d'')]\<rparr>)"
    by (simp add: exampleState_def setProperty_def draftDefRelativeFilename_def)
  from example_checksum_draft7 example_import_draft7 skipped regenerated show ?thesis
    by blast
qed

section \<open>Compilation\<close>

lemma joinWith_includes:
  "x \<in> set xs \<Longrightarrow> \<exists>before after. joinWith sep xs = before @ x @ after"
proof (induction sep xs rule: joinWith.induct)
  case (1 sep)
  then show ?case by simp
next
  case (2 sep y)
  then have "joinWith sep [y] = [] @ x @ []" by simp
  then show ?case by blast
next
  case (3 sep y z zs)
  show ?case
  proof (cases "x = y")
    case True
    then have "joinWith sep (y # z # zs) = [] @ x @ (sep @ joinWith sep (z # zs))" by simp
    then show ?thesis by blast
  next
    case False
    with 3 obtain before after where "joinWith sep (z # zs) = before @ x @ after" by auto
    then have "joinWith sep (y # z # zs) = (y @ sep @ before) @ x @ after" by simp
    then show ?thesis by blast
  qed
qed

text \<open>
  C9. \<open>compileTypeScript\<close> returns normally if and only if the compiler reported no
  diagnostic before emission, none in the emit result, and emission was not skipped. When
  the two lists together hold one or more diagnostics, of whatever category (warnings
  included), it throws an error whose message is the heading followed by one line per
  diagnostic, pre-emit ones first, so that every diagnostic of either list has its line
  in the message. With no diagnostic and emission skipped it throws the error
  \<^verbatim>\<open>TypeScript compilation was skipped\<close>. For a diagnostic with a file the line holds the
  file name, the line and column (counted from one) and the message; without a file it is
  the message alone.
\<close>

theorem compile_succeeds_iff_no_diagnostic:
  "((\<exists>s'. compileTypeScript env sourceFile outputDir s = Inr s')
      \<longleftrightarrow> preEmitDiagnostics (createProgram env sourceFile outputDir (files s sourceFile)) = [] \<and>
          diagnostics (emitResult (createProgram env sourceFile outputDir (files s sourceFile))) = [] \<and>
          \<not> emitSkipped (emitResult (createProgram env sourceFile outputDir (files s sourceFile)))) \<and>
   (preEmitDiagnostics (createProgram env sourceFile outputDir (files s sourceFile)) @
      diagnostics (emitResult (createProgram env sourceFile outputDir (files s sourceFile))) \<noteq> [] \<longrightarrow>
      (\<exists>s'. compileTypeScript env sourceFile outputDir s =
        Inl (Error (''TypeScript compilation failed:\<newline>'' @
               joinWith ''\<newline>''
                 (map diagnosticLine
                    (preEmitDiagnostics (createProgram env sourceFile outputDir (files s sourceFile)) @
                     diagnostics (emitResult (createProgram env sourceFile outputDir (files s sourceFile)))))),
             s'))) \<and>
   (\<forall>d \<in> set (preEmitDiagnostics (createProgram env sourceFile outputDir (files s sourceFile))) \<union>
          set (diagnostics (emitResult (createProgram env sourceFile outputDir (files s sourceFile)))).
      \<exists>s' before after. compileTypeScript env sourceFile outputDir s =
        Inl (Error (''TypeScript compilation failed:\<newline>'' @ before @ diagnosticLine d @ after), s')) \<and>
   (preEmitDiagnostics (createProgram env sourceFile outputDir (files s sourceFile)) = [] \<and>
    diagnostics (emitResult (createProgram env sourceFile outputDir (files s sourceFile))) = [] \<and>
    emitSkipped (emitResult (createProgram env sourceFile outputDir (files s sourceFile))) \<longrightarrow>
      (\<exists>s'. compileTypeScript env sourceFile outputDir s =
         Inl (Error ''TypeScript compilation was skipped'', s'))) \<and>
   (diagnosticFile d = Some f \<longrightarrow>
      diagnosticLine d =
        fileName f @ '' ('' @ showNat (fst (getLineAndCharacterOfPosition f (start d)) + 1) @ '',''
          @ showNat (snd (getLineAndCharacterOfPosition f (start d)) + 1) @ ''): '' @ messageText d) \<and>
   (diagnosticFile d = None \<longrightarrow> diagnosticLine d = messageText d)"
proof -
  define prog where "prog = createProgram env sourceFile outputDir (files s sourceFile)"
  define ds where "ds = preEmitDiagnostics prog @ diagnostics (emitResult prog)"
  have all: "allDiagnostics prog = ds"
    by (simp add: allDiagnostics_def ds_def)
  have empty: "ds = [] \<longleftrightarrow> preEmitDiagnostics prog = [] \<and> diagnostics (emitResult prog) = []"
    by (simp add: ds_def)
  have 1: "(\<exists>s'. compileTypeScript env sourceFile outputDir s = Inr s')
      \<longleftrightarrow> preEmitDiagnostics prog = [] \<and> diagnostics (emitResult prog) = [] \<and>
          \<not> emitSkipped (emitResult prog)"
    using empty by (auto simp: compileTypeScript_def Let_def prog_def [symmetric] all)
  have failed: "compileTypeScript env sourceFile outputDir s =
        Inl (Error (''TypeScript compilation failed:\<newline>'' @
               joinWith ''\<newline>'' (map diagnosticLine ds)), emit prog outputDir s)"
    if "ds \<noteq> []"
    using that by (simp add: compileTypeScript_def Let_def prog_def [symmetric] all)
  have 2: "ds \<noteq> [] \<longrightarrow>
      (\<exists>s'. compileTypeScript env sourceFile outputDir s =
        Inl (Error (''TypeScript compilation failed:\<newline>'' @
               joinWith ''\<newline>'' (map diagnosticLine ds)), s'))"
    using failed by blast
  have 3: "\<forall>d \<in> set (preEmitDiagnostics prog) \<union> set (diagnostics (emitResult prog)).
      \<exists>s' before after. compileTypeScript env sourceFile outputDir s =
        Inl (Error (''TypeScript compilation failed:\<newline>'' @ before @ diagnosticLine d @ after), s')"
  proof
    fix d assume "d \<in> set (preEmitDiagnostics prog) \<union> set (diagnostics (emitResult prog))"
    then have d: "d \<in> set ds" by (simp add: ds_def)
    then have "diagnosticLine d \<in> set (map diagnosticLine ds)" by simp
    from joinWith_includes [OF this] obtain before after where
      "joinWith ''\<newline>'' (map diagnosticLine ds) = before @ diagnosticLine d @ after"
      by blast
    moreover from d have "ds \<noteq> []" by auto
    ultimately show "\<exists>s' before after. compileTypeScript env sourceFile outputDir s =
        Inl (Error (''TypeScript compilation failed:\<newline>'' @ before @ diagnosticLine d @ after), s')"
      using failed by metis
  qed
  have 4: "preEmitDiagnostics prog = [] \<and> diagnostics (emitResult prog) = [] \<and>
      emitSkipped (emitResult prog) \<longrightarrow>
      (\<exists>s'. compileTypeScript env sourceFile outputDir s =
         Inl (Error ''TypeScript compilation was skipped'', s'))"
    by (simp add: compileTypeScript_def Let_def prog_def [symmetric] allDiagnostics_def)
  have 5: "diagnosticFile d = Some f \<longrightarrow>
      diagnosticLine d =
        fileName f @ '' ('' @ showNat (fst (getLineAndCharacterOfPosition f (start d)) + 1) @ '',''
          @ showNat (snd (getLineAndCharacterOfPosition f (start d)) + 1) @ ''): '' @ messageText d"
    by (simp add: diagnosticLine_def split: prod.splits)
  have 6: "diagnosticFile d = None \<longrightarrow> diagnosticLine d = messageText d"
    by (simp add: diagnosticLine_def)
  from 1 2 3 4 5 6 show ?thesis
    unfolding ds_def prog_def by (intro conjI)
qed

theorem compile_succeeds_iff_no_diagnostic_witness:
  "category exampleWarning = CategoryWarning \<and>
   preEmitDiagnostics warningProgram = [] \<and>
   diagnostics (emitResult warningProgram) = [exampleWarning] \<and>
   \<not> emitSkipped (emitResult warningProgram) \<and>
   (\<exists>s'. compileTypeScript (exampleEnv\<lparr>createProgram := (\<lambda>sourceFile outputDir source. warningProgram)\<rparr>)
       ''/repo/dist/deno/draft_draft7.ts'' ''/repo/dist/node'' exampleState =
     Inl (Error ''TypeScript compilation failed:\<newline>/repo/dist/deno/draft_draft7.ts (3,5): unused variable'',
          s'))"
proof -
  let ?env = "exampleEnv\<lparr>createProgram := (\<lambda>sourceFile outputDir source. warningProgram)\<rparr>"
  have parts: "preEmitDiagnostics warningProgram = []"
    "diagnostics (emitResult warningProgram) = [exampleWarning]"
    "\<not> emitSkipped (emitResult warningProgram)"
    by (simp_all add: warningProgram_def exampleProgram_def)
  have line: "diagnosticLine exampleWarning = ''/repo/dist/deno/draft_draft7.ts (3,5): unused variable''"
    by code_simp
  from compile_succeeds_iff_no_diagnostic
    [of ?env "''/repo/dist/deno/draft_draft7.ts''" "''/repo/dist/node''" exampleState]
  have "\<exists>s'. compileTypeScript ?env ''/repo/dist/deno/draft_draft7.ts'' ''/repo/dist/node'' exampleState =
     Inl (Error (''TypeScript compilation failed:\<newline>'' @
               joinWith ''\<newline>'' (map diagnosticLine [exampleWarning])), s')"
    by (simp add: parts)
  with parts line show ?thesis
    by (simp add: exampleWarning_def)
qed

section \<open>The latest draft\<close>

lemma latestDraft_None: "latestDraft ds = None \<longleftrightarrow> (\<forall>x \<in> set ds. \<not> numericPrefixed x)"
proof -
  have "latestDraft ds = None \<longleftrightarrow> filter numericPrefixed ds = []"
    by (simp add: latestDraft_def split: list.splits)
  then show ?thesis
    by (simp add: filter_empty_conv)
qed

lemma latestDraft_last:
  "latestDraft ds = Some d \<longleftrightarrow> filter numericPrefixed ds \<noteq> [] \<and> last (filter numericPrefixed ds) = d"
  by (auto simp: latestDraft_def split: list.splits)

lemma latestDraft_Some:
  "latestDraft ds = Some d \<longleftrightarrow>
     (\<exists>pre post. ds = pre @ d # post \<and> numericPrefixed d \<and> (\<forall>x \<in> set post. \<not> numericPrefixed x))"
proof
  assume "latestDraft ds = Some d"
  then have "filter numericPrefixed ds \<noteq> [] \<and> last (filter numericPrefixed ds) = d"
    by (simp add: latestDraft_last)
  then show "\<exists>pre post. ds = pre @ d # post \<and> numericPrefixed d \<and> (\<forall>x \<in> set post. \<not> numericPrefixed x)"
  proof (induction ds rule: rev_induct)
    case Nil
    then show ?case by simp
  next
    case (snoc x xs)
    show ?case
    proof (cases "numericPrefixed x")
      case True
      with snoc.prems have "x = d" by simp
      with True have "xs @ [x] = xs @ d # [] \<and> numericPrefixed d \<and> (\<forall>x \<in> set []. \<not> numericPrefixed x)"
        by simp
      then show ?thesis by blast
    next
      case False
      with snoc.prems have "filter numericPrefixed xs \<noteq> [] \<and> last (filter numericPrefixed xs) = d"
        by simp
      from snoc.IH [OF this] obtain pre post where
        "xs = pre @ d # post" "numericPrefixed d" "\<forall>x \<in> set post. \<not> numericPrefixed x"
        by blast
      with False have "xs @ [x] = pre @ d # (post @ [x]) \<and> numericPrefixed d \<and>
          (\<forall>y \<in> set (post @ [x]). \<not> numericPrefixed y)"
        by simp
      then show ?thesis by blast
    qed
  qed
next
  assume "\<exists>pre post. ds = pre @ d # post \<and> numericPrefixed d \<and> (\<forall>x \<in> set post. \<not> numericPrefixed x)"
  then obtain pre post where ds: "ds = pre @ d # post" and d: "numericPrefixed d"
    and post: "\<forall>x \<in> set post. \<not> numericPrefixed x"
    by blast
  from post have "filter numericPrefixed post = []"
    by (simp add: filter_empty_conv)
  with ds d show "latestDraft ds = Some d"
    by (simp add: latestDraft_last)
qed

lemma sortedBy_append:
  "sortedBy cmp (xs @ ys) \<longleftrightarrow>
     sortedBy cmp xs \<and> sortedBy cmp ys \<and> (\<forall>x \<in> set xs. \<forall>y \<in> set ys. cmp x y \<le> 0)"
  by (induction xs) auto

lemma consistent_refl: "consistentComparator cmp \<Longrightarrow> cmp a a \<le> 0"
  unfolding consistentComparator_def by (metis less_le_not_le linorder_not_le)

lemma codeUnitCompare_flip: "(codeUnitCompare a b < 0) = (0 < codeUnitCompare b a)"
  by (induction a b rule: codeUnitCompare.induct) auto

lemma codeUnitCompare_trans:
  "codeUnitCompare a b \<le> 0 \<Longrightarrow> codeUnitCompare b c \<le> 0 \<Longrightarrow> codeUnitCompare a c \<le> 0"
proof (induction a arbitrary: b c)
  case Nil
  then show ?case by (cases c) simp_all
next
  case (Cons x xs)
  from Cons.prems obtain y ys where b: "b = y # ys" by (cases b) auto
  from Cons.prems b obtain z zs where c: "c = z # zs" by (cases c) auto
  from Cons.prems Cons.IH [of ys zs] show ?case
    unfolding b c by (auto split: if_splits)
qed

lemma consistent_codeUnitCompare: "consistentComparator codeUnitCompare"
  unfolding consistentComparator_def
  using codeUnitCompare_flip codeUnitCompare_trans by blast

text \<open>
  C4, as the specification states it, fails: with the drafts \<^verbatim>\<open>7\<close> and \<^verbatim>\<open>2019-09\<close> the
  sorted enumeration is \<^verbatim>\<open>2019-09\<close>, \<^verbatim>\<open>7\<close>, and the latest draft is \<^verbatim>\<open>7\<close>, whose
  numeric prefix 7 is smaller than 2019.
\<close>

theorem latest_not_greatest_number:
  "drafts (exampleEnv\<lparr>expandGlob := [''7'', ''2019-09'']\<rparr>) = [''2019-09'', ''7''] \<and>
   latestDraft (drafts (exampleEnv\<lparr>expandGlob := [''7'', ''2019-09'']\<rparr>)) = Some ''7'' \<and>
   parseInt10 (splitHead ''7'') = Num 7 \<and>
   parseInt10 (splitHead ''2019-09'') = Num 2019"
  by code_simp

text \<open>
  C4, amended. The latest draft is the last draft of the sorted enumeration whose text
  before the first hyphen parses to an integer: every draft after it in the enumeration
  has no such prefix, and under a consistent \<^verbatim>\<open>localeCompare\<close> every draft with such a
  prefix compares less than or equal to it. The enumeration that is generated holds every
  discovered draft, with or without a numeric prefix.
\<close>

theorem latest_is_last_numeric_in_sorted_order:
  "(latestDraft (drafts env) = Some d \<longleftrightarrow>
      (\<exists>pre post. drafts env = pre @ d # post \<and> numericPrefixed d \<and>
         (\<forall>x \<in> set post. \<not> numericPrefixed x))) \<and>
   (consistentComparator (localeCompare env) \<and> latestDraft (drafts env) = Some d \<longrightarrow>
      (\<forall>x \<in> set (expandGlob env). numericPrefixed x \<longrightarrow> localeCompare env x d \<le> 0)) \<and>
   set (drafts env) = set (expandGlob env) \<and> length (drafts env) = length (expandGlob env)"
proof (intro conjI impI ballI)
  show "latestDraft (drafts env) = Some d \<longleftrightarrow>
      (\<exists>pre post. drafts env = pre @ d # post \<and> numericPrefixed d \<and>
         (\<forall>x \<in> set post. \<not> numericPrefixed x))"
    by (rule latestDraft_Some)
next
  fix x
  assume a: "consistentComparator (localeCompare env) \<and> latestDraft (drafts env) = Some d"
    and x: "x \<in> set (expandGlob env)" and nx: "numericPrefixed x"
  from a obtain pre post where ds: "drafts env = pre @ d # post"
    and post: "\<forall>x \<in> set post. \<not> numericPrefixed x"
    by (auto simp: latestDraft_Some)
  from a have "sortedBy (localeCompare env) (drafts env)"
    by (simp add: drafts_def sortedBy_sortBy)
  with ds have pre: "\<forall>y \<in> set pre. localeCompare env y d \<le> 0"
    by (simp add: sortedBy_append)
  from x have "x \<in> set (drafts env)"
    by (simp add: drafts_def)
  with ds post nx have "x \<in> set pre \<or> x = d" by auto
  with pre a show "localeCompare env x d \<le> 0"
    by (auto intro: consistent_refl)
next
  show "set (drafts env) = set (expandGlob env)"
    by (simp add: drafts_def)
next
  show "length (drafts env) = length (expandGlob env)"
    by (simp add: drafts_def)
qed

theorem latest_is_last_numeric_in_sorted_order_witness:
  "consistentComparator (localeCompare exampleEnv) \<and>
   latestDraft (drafts exampleEnv) = Some ''2019-09'' \<and>
   drafts exampleEnv = [] @ ''2019-09'' # [''draft7''] \<and>
   numericPrefixed ''2019-09'' \<and> \<not> numericPrefixed ''draft7'' \<and>
   localeCompare exampleEnv ''2019-09'' ''2019-09'' \<le> 0 \<and>
   set (drafts exampleEnv) = {''draft7'', ''2019-09''}"
proof -
  have c: "consistentComparator (localeCompare exampleEnv)"
    by (simp add: exampleEnv_def consistent_codeUnitCompare)
  have ds: "drafts exampleEnv = [] @ ''2019-09'' # [''draft7'']"
    by code_simp
  have n1: "numericPrefixed ''2019-09''"
    by code_simp
  have n2: "\<not> numericPrefixed ''draft7''"
    by code_simp
  have g1: "''2019-09'' \<in> set (expandGlob exampleEnv)"
    by (simp add: exampleEnv_def)
  have g2: "set (expandGlob exampleEnv) = {''draft7'', ''2019-09''}"
    by (simp add: exampleEnv_def)
  note t = latest_is_last_numeric_in_sorted_order [of exampleEnv "''2019-09''"]
  have "\<forall>x \<in> set [''draft7'']. \<not> numericPrefixed x"
    using n2 by simp
  with ds n1 have "\<exists>pre post. drafts exampleEnv = pre @ ''2019-09'' # post \<and>
      numericPrefixed ''2019-09'' \<and> (\<forall>x \<in> set post. \<not> numericPrefixed x)"
    by blast
  with t have l: "latestDraft (drafts exampleEnv) = Some ''2019-09''"
    by (rule_tac iffD2) (erule conjunct1)
  from t c l have "\<forall>x \<in> set (expandGlob exampleEnv). numericPrefixed x \<longrightarrow>
      localeCompare exampleEnv x ''2019-09'' \<le> 0"
    by (elim conjE) (erule mp, rule conjI)
  from this g1 have "numericPrefixed ''2019-09'' \<longrightarrow>
      localeCompare exampleEnv ''2019-09'' ''2019-09'' \<le> 0"
    by (rule bspec)
  from this n1 have le: "localeCompare exampleEnv ''2019-09'' ''2019-09'' \<le> 0"
    by (rule mp)
  from t have "set (drafts exampleEnv) = set (expandGlob exampleEnv)"
    by (elim conjE)
  from this g2 have s: "set (drafts exampleEnv) = {''draft7'', ''2019-09''}"
    by (rule trans)
  from c l ds n1 n2 le s show ?thesis
    by (intro conjI)
qed

text \<open>
  C7. When no discovered draft has a numeric prefix, every run ends with an error (exit
  code 1). Line 158 throws before the alias is written: the state at the throw is the
  state the ledger write left, and a run that gets as far as that line ends there.
\<close>

theorem no_numeric_draft_is_fatal:
  assumes "\<forall>d \<in> set (expandGlob env). \<not> numericPrefixed d"
  shows "exitCode (run env s0) = 1 \<and>
         finish env s = Inl (Error ''TODO'', s) \<and>
         (importChecksums env s0 = Inr s1 \<and>
          readTextFile (modTemplateFilename env) s1 = Inr code \<and>
          processDrafts env code (drafts env) s1 = Inr s2 \<and>
          writeChecksums env s2 = Inr s3 \<longrightarrow>
            run env s0 = Inl (Error ''TODO'', s3))"
proof -
  from assms have none: "latestDraft (drafts env) = None"
    by (simp add: latestDraft_None drafts_def)
  then have fin: "\<And>s. finish env s = Inl (Error ''TODO'', s)"
    by (simp add: finish_def)
  have "\<exists>failure. run env s0 = Inl failure"
    unfolding run_def andThen_def by (auto simp: fin split: sum.splits)
  then have "exitCode (run env s0) = 1"
    by (auto simp: exitCode_def)
  with fin show ?thesis
    by (auto simp: run_def)
qed

theorem no_numeric_draft_is_fatal_witness:
  "\<not> numericPrefixed ''draft7'' \<and>
   exitCode (run (exampleEnv\<lparr>expandGlob := [''draft7'']\<rparr>) exampleState) = 1 \<and>
   finish (exampleEnv\<lparr>expandGlob := [''draft7'']\<rparr>) exampleState = Inl (Error ''TODO'', exampleState)"
proof -
  have n: "\<not> numericPrefixed ''draft7''"
    by code_simp
  then have "\<forall>d \<in> set (expandGlob (exampleEnv\<lparr>expandGlob := [''draft7'']\<rparr>)). \<not> numericPrefixed d"
    by simp
  from no_numeric_draft_is_fatal [OF this, of exampleState exampleState] n show ?thesis
    by blast
qed

section \<open>Facts about the worked example\<close>

lemma exampleEnv_fields [simp]:
  "FORCE_REFRESH exampleEnv = False"
  "CWD exampleEnv = ''/repo''"
  "expandGlob exampleEnv = [''draft7'', ''2019-09'']"
  "localeCompare exampleEnv = codeUnitCompare"
  "digest exampleEnv content = [of_nat (length content)]"
  "formatDefinitionDescriptions exampleEnv def lineWidth = Inr def"
  "formatMarkdown exampleEnv t options = Inr t"
  "expandSourcePlaceholders exampleEnv filename code def = Inr (code @ def_draft def)"
  "stringifyDefinition exampleEnv = def_draft"
  "denoFmt exampleEnv p t = t"
  "createProgram exampleEnv sourceFile outputDir source = exampleProgram"
  "denied exampleEnv p = False"
  "VERSION exampleEnv = ''1.0.1''"
  "stringifyPackage exampleEnv = pkg_version"
  "getFullYear exampleEnv = 2026"
  by (simp_all add: exampleEnv_def)

lemma exampleEnv_import [simp]:
  "importDefinition exampleEnv ''/repo/.src/draft/2019-09/definition.ts'' =
     Inr (exampleDefinition ''2019-09'' 2019)"
  "importDefinition exampleEnv ''/repo/.src/draft/draft7/definition.ts'' =
     Inr (exampleDefinition ''07'' 2018)"
  by (simp_all add: exampleEnv_def)

lemma failingEnv_fields [simp]:
  "FORCE_REFRESH failingEnv = False"
  "CWD failingEnv = ''/repo''"
  "expandGlob failingEnv = [''draft7'', ''2019-09'']"
  "localeCompare failingEnv = codeUnitCompare"
  "digest failingEnv = digest exampleEnv"
  "importDefinition failingEnv = importDefinition exampleEnv"
  "formatDefinitionDescriptions failingEnv = formatDefinitionDescriptions exampleEnv"
  "formatMarkdown failingEnv = formatMarkdown exampleEnv"
  "expandSourcePlaceholders failingEnv filename code def =
     (if def_draft def = ''2019-09'' then Inl (Error ''MissingPlaceholderBinding'')
      else Inr (code @ def_draft def))"
  "stringifyDefinition failingEnv = def_draft"
  "denoFmt failingEnv = denoFmt exampleEnv"
  "createProgram failingEnv = createProgram exampleEnv"
  "denied failingEnv p = False"
  by (simp_all add: failingEnv_def)

lemma example_paths:
  "modTemplateFilename env = CWD env @ ''/.src/mod_template.ts''"
  "draftDefFilename env d = CWD env @ ''/.src/draft/'' @ d @ ''/definition.ts''"
  "outputFilename env d = CWD env @ ''/dist/deno/draft_'' @ d @ ''.ts''"
  "jsonDefFilename env d = CWD env @ ''/dist/spec_definitions/draft_'' @ d @ ''.json''"
  by (simp_all add: modTemplateFilename_def draftDefFilename_def outputFilename_def
      jsonDefFilename_def SRC_DIR_def DENO_DIR_def SPEC_DEFS_DIR_def DIST_DIR_def pathJoin_def)

lemma exampleState_fields [simp]:
  "files exampleState = map_of exampleFiles"
  "ledgerDoc exampleState = Some [(''.src/draft/2019-09/definition.ts'', ''0e''),
                                  (''.src/draft/draft7/definition.ts'', ''0d'')]"
  "checksums exampleState = [(''.src/draft/2019-09/definition.ts'', ''0e''),
                             (''.src/draft/draft7/definition.ts'', ''0d'')]"
  "licenseCopyrights exampleState = []"
  "console exampleState = []"
  by (simp_all add: exampleState_def)

lemma staleState_fields [simp]:
  "files staleState = map_of exampleFiles"
  "ledgerDoc staleState = Some [(''.src/draft/2019-09/definition.ts'', ''00''),
                                (''.src/draft/draft7/definition.ts'', ''00'')]"
  "checksums staleState = [(''.src/draft/2019-09/definition.ts'', ''00''),
                           (''.src/draft/draft7/definition.ts'', ''00'')]"
  "licenseCopyrights staleState = []"
  "console staleState = []"
  by (simp_all add: staleState_def)

lemma exampleFiles_lookup [simp]:
  "map_of exampleFiles ''/repo/.src/mod_template.ts'' = Some ''// draft ''"
  "map_of exampleFiles ''/repo/.src/draft/2019-09/definition.ts'' = Some ''export default''"
  "map_of exampleFiles ''/repo/.src/draft/draft7/definition.ts'' = Some ''export const;''"
  "map_of exampleFiles ''/repo/dist/deno/draft_draft7.ts'' = None"
  "map_of exampleFiles ''/repo/dist/deno/draft_2019-09.ts'' = None"
  by (simp_all add: exampleFiles_def)

lemma example_digests [simp]:
  "hashHex [14] = ''0e''"
  "hashHex [13] = ''0d''"
  by (simp_all add: hashHex_def padStart_def toString16_def hexDigit_def)

lemma import_stale: "importChecksums failingEnv staleState = Inr staleState"
  by (simp add: importChecksums_def fromEntries_def setProperty_def staleState_def)

lemma import_example: "importChecksums exampleEnv exampleState = Inr exampleState"
  by (simp add: importChecksums_def fromEntries_def setProperty_def exampleState_def)

lemma read_template_stale: "readTextFile (modTemplateFilename failingEnv) staleState = Inr ''// draft ''"
  by (simp add: readTextFile_def example_paths)

lemma drafts_example:
  "drafts exampleEnv = [''2019-09'', ''draft7'']"
  "drafts failingEnv = [''2019-09'', ''draft7'']"
  by (simp_all add: drafts_def sortBy_def)

lemma failing_draft:
  "\<exists>s. processDraft failingEnv ''// draft '' ''2019-09'' staleState =
          Inl (Error ''MissingPlaceholderBinding'', s) \<and>
        files s (outputFilename failingEnv ''draft7'') = None \<and> console s = []"
  by (simp add: processDraft_def fileChecksum_def readTextFile_def regenerate_def
      writeTextFile_def unchanged_def getProperty_def draftDefRelativeFilename_def
      exampleDefinition_def Let_def example_paths)


section \<open>Failure of a draft\<close>

lemma regenerate_Inl_console:
  assumes "regenerate env code d raw s = Inl (e, s')"
  shows "console s' = console s"
  using assms unfolding regenerate_def Let_def
  by (auto simp: andThen_eq_Inl writeTextFile_Inr writeTextFile_Inl
           dest!: compileTypeScript_Inl)

lemma processDraft_Inl_console:
  assumes "processDraft env code d s = Inl (e, s')"
  shows "console s' = console s"
  using assms unfolding processDraft_def Let_def
  by (auto simp: andThen_eq_Inl fileChecksum_Inl split: if_splits dest!: regenerate_Inl_console)

lemma processDraft_console:
  assumes "processDraft env code d s = Inr s'"
  shows "console s' = console s @ [skipMessage d] \<or> console s' = console s @ [completeMessage d]"
  using processDraft_Inr [OF assms] by (auto split: if_splits)

lemma processDrafts_console:
  "processDrafts env code ds s = Inr s' \<Longrightarrow>
   set (console s') \<subseteq> set (console s) \<union> skipMessage ` set ds \<union> completeMessage ` set ds"
proof (induction ds arbitrary: s)
  case Nil
  then show ?case by simp
next
  case (Cons d ds)
  from Cons.prems obtain s1 where
    1: "processDraft env code d s = Inr s1" and 2: "processDrafts env code ds s1 = Inr s'"
    by (auto simp: andThen_eq_Inr)
  from processDraft_console [OF 1] Cons.IH [OF 2] show ?case
    by auto
qed

lemma message_inj [simp]:
  "skipMessage d = skipMessage d' \<longleftrightarrow> d = d'"
  "completeMessage d = completeMessage d' \<longleftrightarrow> d = d'"
  "completeMessage d \<noteq> skipMessage d'"
  by (simp_all add: skipMessage_def completeMessage_def)

lemma importChecksums_Inr:
  "importChecksums env s0 = Inr s1 \<longleftrightarrow>
     (\<exists>doc. ledgerDoc s0 = Some doc \<and>
        s1 = s0\<lparr>checksums := fromEntries doc, licenseCopyrights := [], console := []\<rparr>)"
  by (auto simp: importChecksums_def split: option.splits)

lemma run_failed_draft:
  assumes "importChecksums env s0 = Inr s1"
    and "readTextFile (modTemplateFilename env) s1 = Inr code"
    and "drafts env = before @ d # later"
    and "processDrafts env code before s1 = Inr s2"
    and "processDraft env code d s2 = Inl (e, s3)"
  shows "run env s0 = Inl (e, s3)"
  using assms by (simp add: run_def processDrafts_append)

lemma failed_draft_ledgerDoc:
  assumes "importChecksums env s0 = Inr s1"
    and "processDrafts env code before s1 = Inr s2"
    and "processDraft env code d s2 = Inl (e, s3)"
  shows "ledgerDoc s3 = ledgerDoc s0"
proof -
  from assms(1) have "ledgerDoc s1 = ledgerDoc s0"
    by (auto simp: importChecksums_Inr)
  moreover from assms(2) have "ledgerDoc s2 = ledgerDoc s1"
    by (rule processDrafts_Inr_ledgerDoc)
  moreover from assms(3) have "ledgerDoc s3 = ledgerDoc s2"
    by (rule processDraft_Inl)
  ultimately show ?thesis by simp
qed

text \<open>
  C3, as the specification states it, fails. In the example the expansion of \<^verbatim>\<open>2019-09\<close>
  fails; the run ends there with exit code 1. The second draft, \<^verbatim>\<open>draft7\<close>, which
  completes when it is processed from the same state, is never reached: its module is
  not written and the console has no line for it.
\<close>

theorem failed_draft_stops_later_drafts:
  "drafts failingEnv = [''2019-09'', ''draft7''] \<and>
   exitCode (run failingEnv staleState) = 1 \<and>
   files (afterwards (run failingEnv staleState)) (outputFilename failingEnv ''draft7'') = None \<and>
   console (afterwards (run failingEnv staleState)) = [] \<and>
   \<not> isl (processDraft failingEnv ''// draft '' ''draft7'' staleState)"
proof -
  from failing_draft obtain s where
    f: "processDraft failingEnv ''// draft '' ''2019-09'' staleState =
          Inl (Error ''MissingPlaceholderBinding'', s)"
    and s: "files s (outputFilename failingEnv ''draft7'') = None" "console s = []"
    by blast
  have "drafts failingEnv = [] @ ''2019-09'' # [''draft7'']"
    by (simp add: drafts_example)
  from run_failed_draft [OF import_stale read_template_stale this _ f]
  have r: "run failingEnv staleState = Inl (Error ''MissingPlaceholderBinding'', s)"
    by simp
  have w: "\<not> isl (processDraft failingEnv ''// draft '' ''draft7'' staleState)"
    by (simp add: processDraft_def fileChecksum_def readTextFile_def regenerate_def
      writeTextFile_def unchanged_def getProperty_def draftDefRelativeFilename_def
      exampleDefinition_def Let_def compileTypeScript_def allDiagnostics_def exampleProgram_def
      example_paths)
  from r s w show ?thesis
    by (simp add: drafts_example exitCode_def afterwards_def)
qed

text \<open>
  C3, amended. The failure of one draft's pipeline ends the whole run with that error
  (exit code 1), in the state the failing draft left: no draft after it in the sorted
  enumeration is processed or reported, and the ledger on disk is the one the run found.
\<close>

theorem failed_draft_aborts_run:
  assumes "importChecksums env s0 = Inr s1"
    and "readTextFile (modTemplateFilename env) s1 = Inr code"
    and "drafts env = before @ d # later"
    and "processDrafts env code before s1 = Inr s2"
    and "processDraft env code d s2 = Inl (e, s3)"
  shows "run env s0 = Inl (e, s3) \<and> exitCode (run env s0) = 1 \<and>
         ledgerDoc s3 = ledgerDoc s0 \<and>
         (\<forall>x \<in> set later. x \<notin> set before \<longrightarrow>
            completeMessage x \<notin> set (console s3) \<and> skipMessage x \<notin> set (console s3))"
proof -
  have r: "run env s0 = Inl (e, s3)"
    using assms by (rule run_failed_draft)
  have l: "ledgerDoc s3 = ledgerDoc s0"
    using assms(1,4,5) by (rule failed_draft_ledgerDoc)
  from assms(1) have "console s1 = []"
    by (auto simp: importChecksums_Inr)
  with processDrafts_console [OF assms(4)]
  have "set (console s2) \<subseteq> skipMessage ` set before \<union> completeMessage ` set before"
    by simp
  moreover from assms(5) have "console s3 = console s2"
    by (rule processDraft_Inl_console)
  ultimately have c: "set (console s3) \<subseteq> skipMessage ` set before \<union> completeMessage ` set before"
    by simp
  have "\<forall>x \<in> set later. x \<notin> set before \<longrightarrow>
            completeMessage x \<notin> set (console s3) \<and> skipMessage x \<notin> set (console s3)"
  proof (intro ballI impI)
    fix x
    assume "x \<notin> set before"
    then have "completeMessage x \<notin> skipMessage ` set before \<union> completeMessage ` set before"
      and "skipMessage x \<notin> skipMessage ` set before \<union> completeMessage ` set before"
      by auto
    with c show "completeMessage x \<notin> set (console s3) \<and> skipMessage x \<notin> set (console s3)"
      by blast
  qed
  with r l show ?thesis
    by (simp add: exitCode_def)
qed

theorem failed_draft_aborts_run_witness:
  "\<exists>s3. importChecksums failingEnv staleState = Inr staleState \<and>
     readTextFile (modTemplateFilename failingEnv) staleState = Inr ''// draft '' \<and>
     drafts failingEnv = [] @ ''2019-09'' # [''draft7''] \<and>
     processDrafts failingEnv ''// draft '' [] staleState = Inr staleState \<and>
     processDraft failingEnv ''// draft '' ''2019-09'' staleState =
       Inl (Error ''MissingPlaceholderBinding'', s3) \<and>
     run failingEnv staleState = Inl (Error ''MissingPlaceholderBinding'', s3) \<and>
     exitCode (run failingEnv staleState) = 1 \<and>
     ledgerDoc s3 = ledgerDoc staleState \<and>
     completeMessage ''draft7'' \<notin> set (console s3) \<and>
     skipMessage ''draft7'' \<notin> set (console s3)"
proof -
  from failing_draft obtain s3 where
    f: "processDraft failingEnv ''// draft '' ''2019-09'' staleState =
          Inl (Error ''MissingPlaceholderBinding'', s3)"
    by blast
  have d: "drafts failingEnv = [] @ ''2019-09'' # [''draft7'']"
    by (simp add: drafts_example)
  have p: "processDrafts failingEnv ''// draft '' [] staleState = Inr staleState"
    by simp
  from failed_draft_aborts_run [OF import_stale read_template_stale d p f]
  have "run failingEnv staleState = Inl (Error ''MissingPlaceholderBinding'', s3) \<and>
     exitCode (run failingEnv staleState) = 1 \<and>
     ledgerDoc s3 = ledgerDoc staleState \<and>
     completeMessage ''draft7'' \<notin> set (console s3) \<and>
     skipMessage ''draft7'' \<notin> set (console s3)"
    by (simp add: exitCode_def)
  with import_stale read_template_stale d p f show ?thesis
    by blast
qed

lemma read_template_example:
  "readTextFile (modTemplateFilename exampleEnv) exampleState = Inr ''// draft ''"
  by (simp add: readTextFile_def example_paths)

section \<open>What the steps after the loop touch\<close>

lemma afterwards_simps [simp]:
  "afterwards (Inl (e, s)) = s"
  "afterwards (Inr s) = s"
  by (simp_all add: afterwards_def)

lemma touchesOnly_refl [simp]: "touchesOnly P s s"
  by (simp add: touchesOnly_def)

lemma touchesOnly_trans:
  "touchesOnly P s s' \<Longrightarrow> touchesOnly Q s' s'' \<Longrightarrow> touchesOnly (P \<union> Q) s s''"
  by (simp add: touchesOnly_def)

lemma touchesOnly_mono: "touchesOnly P s s' \<Longrightarrow> P \<subseteq> Q \<Longrightarrow> touchesOnly Q s s'"
  by (auto simp: touchesOnly_def)

lemma touchesOnly_write: "touchesOnly {p} s (afterwards (writeTextFile env p t s))"
  by (simp add: writeTextFile_def touchesOnly_def)

lemma touchesOnly_fmt: "touchesOnly {p} s (fmtCommand env p s)"
  by (simp add: fmtCommand_def touchesOnly_def split: option.splits)

lemma touchesOnly_andThen:
  assumes "touchesOnly P s (afterwards m)"
    and "\<And>s'. m = Inr s' \<Longrightarrow> touchesOnly Q s' (afterwards (f s'))"
  shows "touchesOnly (P \<union> Q) s (afterwards (andThen m f))"
proof (cases m)
  case (Inl failure)
  with assms(1) show ?thesis
    by (cases failure) (auto intro: touchesOnly_mono)
next
  case (Inr s')
  with assms have "touchesOnly P s s'" "touchesOnly Q s' (afterwards (f s'))"
    by simp_all
  then have "touchesOnly (P \<union> Q) s (afterwards (f s'))"
    by (rule touchesOnly_trans)
  with Inr show ?thesis by simp
qed

lemma touchesOnly_read:
  assumes "\<And>t. touchesOnly P s (afterwards (f t))"
  shows "touchesOnly P s (afterwards (andThen (readTextFile p s) f))"
  using assms by (simp add: readTextFile_def split: option.splits)

lemma touchesOnly_await:
  assumes "\<And>x. touchesOnly P s (afterwards (f x))"
  shows "touchesOnly P s (afterwards (andThen (await s r) f))"
  using assms by (cases r) simp_all

lemma touchesOnly_writeReadmes:
  "touchesOnly (snd ` set xs) s (afterwards (writeReadmes env ds latest xs s))"
proof (induction xs arbitrary: s)
  case Nil
  then show ?case by simp
next
  case (Cons x xs)
  obtain tpl out where x: "x = (tpl, out)" by (cases x)
  have "\<And>t. touchesOnly ({out} \<union> ({out} \<union> snd ` set xs)) s
      (afterwards (andThen (writeTextFile env out (readmeText ds latest t) s)
         (\<lambda>s. writeReadmes env ds latest xs (fmtCommand env out s))))"
  proof (rule touchesOnly_andThen)
    fix t
    show "touchesOnly {out} s (afterwards (writeTextFile env out (readmeText ds latest t) s))"
      by (rule touchesOnly_write)
  next
    fix t s'
    show "touchesOnly ({out} \<union> snd ` set xs) s'
        (afterwards (writeReadmes env ds latest xs (fmtCommand env out s')))"
      using touchesOnly_fmt Cons.IH by (rule touchesOnly_trans)
  qed
  then have "touchesOnly ({out} \<union> ({out} \<union> snd ` set xs)) s
      (afterwards (writeReadmes env ds latest (x # xs) s))"
    unfolding x by (simp add: touchesOnly_read)
  then show ?case
    by (rule touchesOnly_mono) (auto simp: x)
qed

lemma touchesOnly_writeLicense:
  "touchesOnly {licenseFilename env} s (afterwards (writeLicense env s))"
  unfolding writeLicense_def
  by (intro touchesOnly_read touchesOnly_await touchesOnly_write)

lemma touchesOnly_copy: "touchesOnly {dest} s (afterwards (copy env src dest s))"
  unfolding copy_def by (intro touchesOnly_read touchesOnly_write)

lemma touchesOnly_copyLicense:
  "touchesOnly ((\<lambda>dir. pathJoin dir ''LICENSE.md'') ` set dirs) s (afterwards (copyLicense env dirs s))"
proof (induction dirs arbitrary: s)
  case Nil
  then show ?case by simp
next
  case (Cons dir dirs)
  have "touchesOnly ({pathJoin dir ''LICENSE.md''} \<union> (\<lambda>dir. pathJoin dir ''LICENSE.md'') ` set dirs) s
      (afterwards (copyLicense env (dir # dirs) s))"
    unfolding copyLicense.simps
    by (rule touchesOnly_andThen) (rule touchesOnly_copy, rule Cons.IH)
  then show ?case by simp
qed

lemma touchesOnly_finish: "touchesOnly (set (runOutputs env)) s (afterwards (finish env s))"
proof (cases "latestDraft (drafts env)")
  case None
  then show ?thesis by (simp add: finish_def)
next
  case (Some latest)
  have "touchesOnly
      ({latestFilename env} \<union> (snd ` set (readmeFilenames env) \<union> ({licenseFilename env} \<union>
        ((\<lambda>dir. pathJoin dir ''LICENSE.md'') ` set (ALL_DIST_DIRS env) \<union>
          ({packageFilename env} \<union> {versionFilename env})))))
      s (afterwards (finish env s))"
    unfolding finish_def Some option.case writeLatest_def writePackageJson_def writeVersion_def
    by (intro touchesOnly_andThen touchesOnly_write touchesOnly_writeReadmes
        touchesOnly_writeLicense touchesOnly_copyLicense)
  then show ?thesis
    by (rule touchesOnly_mono) (auto simp: runOutputs_def)
qed

lemma writeChecksums_Inr:
  "writeChecksums env s = Inr s' \<longleftrightarrow>
     \<not> denied env (checksumsFilename env) \<and>
     s' = s\<lparr>ledgerDoc := Some (serializeChecksums env (checksums s))\<rparr>"
  by (auto simp: writeChecksums_def)

lemma writeChecksums_Inl:
  "writeChecksums env s = Inl (e, s') \<longleftrightarrow>
     denied env (checksumsFilename env) \<and> e = PermissionDenied (checksumsFilename env) \<and> s' = s"
  by (auto simp: writeChecksums_def)

section \<open>The ledger that is written\<close>

lemma distinct_map_insort_key:
  "distinct (map g (insort_key f x xs)) \<longleftrightarrow> g x \<notin> g ` set xs \<and> distinct (map g xs)"
  by (induction xs) (auto simp: set_insort_key)

lemma distinct_map_sort_key: "distinct (map g (sort_key f xs)) \<longleftrightarrow> distinct (map g xs)"
  by (induction xs) (simp_all add: distinct_map_insort_key)

lemma distinct_entries:
  assumes "distinct (map fst obj)"
  shows "distinct (map fst (entries obj))"
proof -
  have "distinct (map fst (filter (\<lambda>(k, v). isArrayIndex k) obj))"
    and "distinct (map fst (filter (\<lambda>(k, v). \<not> isArrayIndex k) obj))"
    using assms by (simp_all add: distinct_map_filter)
  moreover have "fst ` set (filter (\<lambda>(k, v). isArrayIndex k) obj) \<inter>
      fst ` set (filter (\<lambda>(k, v). \<not> isArrayIndex k) obj) = {}"
    by auto
  ultimately show ?thesis
    by (simp add: entries_def distinct_map_sort_key)
qed

lemma serializeChecksums_distinct:
  assumes "distinct (map fst obj)"
  shows "distinct (map fst (serializeChecksums env obj)) \<and> set (serializeChecksums env obj) = set obj"
proof -
  let ?sorted = "sortBy (compareKeys env) (entries obj)"
  have d: "distinct (map fst ?sorted)"
    using assms by (simp add: distinct_entries)
  then have "fromEntries ?sorted = ?sorted"
    by (rule fromEntries_distinct)
  with d show ?thesis
    by (simp add: serializeChecksums_def distinct_entries)
qed

lemma serializeChecksums_map_of:
  assumes "distinct (map fst obj)"
  shows "map_of (serializeChecksums env obj) = map_of obj"
proof -
  note d = serializeChecksums_distinct [OF assms, of env]
  from d have 1: "distinct (map fst (serializeChecksums env obj))"
    by (rule conjunct1)
  from d have 2: "set (serializeChecksums env obj) = set obj"
    by (rule conjunct2)
  from 1 assms 2 show ?thesis
    by (simp add: map_of_inject_set)
qed

lemma importChecksums_checksums:
  assumes "importChecksums env s0 = Inr s1" and "ledgerDoc s0 = Some doc"
  shows "checksums s1 = fromEntries doc \<and> ledgerDoc s1 = Some doc \<and> console s1 = [] \<and>
         licenseCopyrights s1 = [] \<and> files s1 = files s0"
  using assms by (auto simp: importChecksums_Inr)

lemma run_after_loop:
  assumes "importChecksums env s0 = Inr s1"
    and "readTextFile (modTemplateFilename env) s1 = Inr code"
    and "processDrafts env code (drafts env) s1 = Inr s2"
    and "writeChecksums env s2 = Inr s3"
  shows "run env s0 = finish env s3"
  using assms by (simp add: run_def)


section \<open>The ledger entry of a draft\<close>

text \<open>
  The pipeline of a draft changes neither the \<^verbatim>\<open>checksums\<close> object nor the ledger
  document, whether it completes or throws.
\<close>

lemma regenerate_memory:
  "checksums (afterwards (regenerate env code d raw s)) = checksums s"
  "ledgerDoc (afterwards (regenerate env code d raw s)) = ledgerDoc s"
proof -
  have "checksums (afterwards (regenerate env code d raw s)) = checksums s \<and>
      ledgerDoc (afterwards (regenerate env code d raw s)) = ledgerDoc s"
  proof (cases "regenerate env code d raw s")
    case (Inl failure)
    then obtain e s' where "regenerate env code d raw s = Inl (e, s')"
      by (cases failure) auto
    with regenerate_Inl [OF this] show ?thesis by simp
  next
    case (Inr s')
    with regenerate_Inr [OF this] show ?thesis by simp
  qed
  then show "checksums (afterwards (regenerate env code d raw s)) = checksums s"
    "ledgerDoc (afterwards (regenerate env code d raw s)) = ledgerDoc s"
    by simp_all
qed

lemma processDraft_changed:
  assumes "fileChecksum env (draftDefFilename env d) s = Inr h"
    and "importDefinition env (draftDefFilename env d) = Inr raw"
    and "\<not> unchanged env (checksums s) (draftDefRelativeFilename d) h"
  shows "checksums (afterwards (processDraft env code d s)) =
           setProperty (checksums s) (draftDefRelativeFilename d) h"
    and "ledgerDoc (afterwards (processDraft env code d s)) = ledgerDoc s"
  using assms(3) by (simp_all add: processDraft_eq [OF assms(1,2)] regenerate_memory)

lemma failing_draft_entry:
  "\<exists>s. processDraft failingEnv ''// draft '' ''2019-09'' staleState =
          Inl (Error ''MissingPlaceholderBinding'', s) \<and>
        getProperty (checksums s) (draftDefRelativeFilename ''2019-09'') = Some ''0e''"
  by (simp add: processDraft_def fileChecksum_def readTextFile_def regenerate_def
      writeTextFile_def unchanged_def getProperty_def setProperty_def draftDefRelativeFilename_def
      exampleDefinition_def Let_def example_paths)

text \<open>
  C1, as the specification states it, fails. The assignment to \<^verbatim>\<open>checksums\<close> (line 81)
  comes before the pipeline of the draft (lines 83 to 131). In the example the ledger
  holds \<^verbatim>\<open>00\<close> for \<^verbatim>\<open>2019-09\<close>, whose digest is \<^verbatim>\<open>0e\<close>, and the expansion of that draft
  fails: at the failure, which ends the run, the entry of the draft in \<^verbatim>\<open>checksums\<close> is
  \<^verbatim>\<open>0e\<close> already.
\<close>

theorem failed_draft_entry_already_updated:
  "\<exists>s3. importChecksums failingEnv staleState = Inr staleState \<and>
     getProperty (checksums staleState) (draftDefRelativeFilename ''2019-09'') = Some ''00'' \<and>
     run failingEnv staleState = Inl (Error ''MissingPlaceholderBinding'', s3) \<and>
     getProperty (checksums s3) (draftDefRelativeFilename ''2019-09'') = Some ''0e''"
proof -
  from failing_draft_entry obtain s3 where
    f: "processDraft failingEnv ''// draft '' ''2019-09'' staleState =
          Inl (Error ''MissingPlaceholderBinding'', s3)"
    and e: "getProperty (checksums s3) (draftDefRelativeFilename ''2019-09'') = Some ''0e''"
    by blast
  have "drafts failingEnv = [] @ ''2019-09'' # [''draft7'']"
    by (simp add: drafts_example)
  from run_failed_draft [OF import_stale read_template_stale this _ f]
  have r: "run failingEnv staleState = Inl (Error ''MissingPlaceholderBinding'', s3)"
    by simp
  have "getProperty (checksums staleState) (draftDefRelativeFilename ''2019-09'') = Some ''00''"
    by (simp add: getProperty_def draftDefRelativeFilename_def)
  with import_stale r e show ?thesis
    by blast
qed

text \<open>
  C1, amended. Take a run that has imported the ledger, read the template and processed
  the drafts before \<open>d\<close>. If \<open>d\<close> is skipped, neither the \<^verbatim>\<open>checksums\<close> object nor the
  ledger document changes. If \<open>d\<close> is not skipped, its entry in the \<^verbatim>\<open>checksums\<close> object is
  set to the current digest before the pipeline runs: it holds that digest whether the
  pipeline then completes or fails, the other entries are as they were, and the ledger
  document is not touched. The document is written after the loop only: if the processing
  of \<open>d\<close> fails, the run ends with that failure and with the document it found, so that a
  next run imports the same ledger, finds the same entry for \<open>d\<close> and, under the same
  force flag, takes the same decision; if \<open>d\<close> and the drafts after it complete, the
  document that is then written has for \<open>d\<close> the entry the \<^verbatim>\<open>checksums\<close> object had when
  \<open>d\<close> completed.
\<close>

theorem ledger_entry_kept_unless_draft_completes:
  assumes "importChecksums env s0 = Inr s1"
    and "readTextFile (modTemplateFilename env) s1 = Inr code"
    and "drafts env = before @ d # later"
    and "d \<notin> set before"
    and "processDrafts env code before s1 = Inr s2"
  shows "(fileChecksum env (draftDefFilename env d) s2 = Inr h \<and>
          importDefinition env (draftDefFilename env d) = Inr raw \<and>
          unchanged env (checksums s2) (draftDefRelativeFilename d) h \<longrightarrow>
            (\<exists>s3. processDraft env code d s2 = Inr s3 \<and> checksums s3 = checksums s2 \<and>
                  ledgerDoc s3 = ledgerDoc s0)) \<and>
         (fileChecksum env (draftDefFilename env d) s2 = Inr h \<and>
          importDefinition env (draftDefFilename env d) = Inr raw \<and>
          \<not> unchanged env (checksums s2) (draftDefRelativeFilename d) h \<longrightarrow>
            getProperty (checksums (afterwards (processDraft env code d s2)))
              (draftDefRelativeFilename d) = Some h \<and>
            (\<forall>k. k \<noteq> draftDefRelativeFilename d \<longrightarrow>
               getProperty (checksums (afterwards (processDraft env code d s2))) k =
               getProperty (checksums s2) k) \<and>
            ledgerDoc (afterwards (processDraft env code d s2)) = ledgerDoc s0) \<and>
         (processDraft env code d s2 = Inl (e, s3) \<longrightarrow>
            run env s0 = Inl (e, s3) \<and> ledgerDoc s3 = ledgerDoc s0 \<and>
            (\<forall>env' code' n1 n2.
               importChecksums env' s3 = Inr n1 \<and> processDrafts env' code' before n1 = Inr n2 \<longrightarrow>
                 checksums n1 = checksums s1 \<and>
                 getProperty (checksums n2) (draftDefRelativeFilename d) =
                   getProperty (checksums s2) (draftDefRelativeFilename d) \<and>
                 (FORCE_REFRESH env' = FORCE_REFRESH env \<longrightarrow>
                    unchanged env' (checksums n2) (draftDefRelativeFilename d) h' =
                    unchanged env (checksums s2) (draftDefRelativeFilename d) h'))) \<and>
         (processDraft env code d s2 = Inr t3 \<and> processDrafts env code later t3 = Inr t4 \<and>
          d \<notin> set later \<and> writeChecksums env t4 = Inr t5 \<longrightarrow>
            (\<exists>doc'. ledgerDoc t5 = Some doc' \<and>
               map_of doc' (draftDefRelativeFilename d) =
               getProperty (checksums t3) (draftDefRelativeFilename d)))"
proof (intro conjI impI allI)
  assume a: "fileChecksum env (draftDefFilename env d) s2 = Inr h \<and>
          importDefinition env (draftDefFilename env d) = Inr raw \<and>
          unchanged env (checksums s2) (draftDefRelativeFilename d) h"
  from assms(1) have "ledgerDoc s1 = ledgerDoc s0"
    by (auto simp: importChecksums_Inr)
  moreover from assms(5) have "ledgerDoc s2 = ledgerDoc s1"
    by (rule processDrafts_Inr_ledgerDoc)
  ultimately show "\<exists>s3. processDraft env code d s2 = Inr s3 \<and> checksums s3 = checksums s2 \<and>
      ledgerDoc s3 = ledgerDoc s0"
    using a by (simp add: processDraft_eq)
next
  assume a: "fileChecksum env (draftDefFilename env d) s2 = Inr h \<and>
          importDefinition env (draftDefFilename env d) = Inr raw \<and>
          \<not> unchanged env (checksums s2) (draftDefRelativeFilename d) h"
  then have c: "fileChecksum env (draftDefFilename env d) s2 = Inr h"
    and i: "importDefinition env (draftDefFilename env d) = Inr raw"
    and u: "\<not> unchanged env (checksums s2) (draftDefRelativeFilename d) h"
    by simp_all
  note p = processDraft_changed [OF c i u, of code]
  from p(1) show "getProperty (checksums (afterwards (processDraft env code d s2)))
      (draftDefRelativeFilename d) = Some h"
    by simp
  from assms(1) have "ledgerDoc s1 = ledgerDoc s0"
    by (auto simp: importChecksums_Inr)
  moreover from assms(5) have "ledgerDoc s2 = ledgerDoc s1"
    by (rule processDrafts_Inr_ledgerDoc)
  ultimately show "ledgerDoc (afterwards (processDraft env code d s2)) = ledgerDoc s0"
    using p(2) by simp
  fix k
  assume "k \<noteq> draftDefRelativeFilename d"
  with p(1) show "getProperty (checksums (afterwards (processDraft env code d s2))) k =
      getProperty (checksums s2) k"
    by simp
next
  assume f: "processDraft env code d s2 = Inl (e, s3)"
  show "run env s0 = Inl (e, s3)"
    using assms(1,2,3,5) f by (rule run_failed_draft)
  show doc: "ledgerDoc s3 = ledgerDoc s0"
    using assms(1,5) f by (rule failed_draft_ledgerDoc)
  fix env' :: "('c, 'd) env" and code' n1 n2
  assume n: "importChecksums env' s3 = Inr n1 \<and> processDrafts env' code' before n1 = Inr n2"
  from n doc assms(1) show same: "checksums n1 = checksums s1"
    by (auto simp: importChecksums_Inr)
  have k: "draftDefRelativeFilename d \<notin> draftDefRelativeFilename ` set before"
    using assms(4) by auto
  from n have "getProperty (checksums n2) (draftDefRelativeFilename d) =
      getProperty (checksums n1) (draftDefRelativeFilename d)"
    using k by (auto intro: processDrafts_other_key)
  moreover from assms(5) k have "getProperty (checksums s2) (draftDefRelativeFilename d) =
      getProperty (checksums s1) (draftDefRelativeFilename d)"
    by (rule processDrafts_other_key)
  ultimately show entry: "getProperty (checksums n2) (draftDefRelativeFilename d) =
      getProperty (checksums s2) (draftDefRelativeFilename d)"
    using same by simp
  assume "FORCE_REFRESH env' = FORCE_REFRESH env"
  with entry show "unchanged env' (checksums n2) (draftDefRelativeFilename d) h' =
      unchanged env (checksums s2) (draftDefRelativeFilename d) h'"
    by (simp add: unchanged_def)
next
  assume a: "processDraft env code d s2 = Inr t3 \<and> processDrafts env code later t3 = Inr t4 \<and>
          d \<notin> set later \<and> writeChecksums env t4 = Inr t5"
  then have p: "processDraft env code d s2 = Inr t3"
    and l: "processDrafts env code later t3 = Inr t4"
    and w: "writeChecksums env t4 = Inr t5"
    and k: "draftDefRelativeFilename d \<notin> draftDefRelativeFilename ` set later"
    by auto
  from assms(1) have "distinct (map fst (checksums s1))"
    by (auto simp: importChecksums_Inr)
  with processDrafts_keys [OF assms(5)] have "distinct (map fst (checksums s2))"
    by simp
  with processDraft_keys [OF p] have "distinct (map fst (checksums t3))"
    by simp
  with processDrafts_keys [OF l] have d4: "distinct (map fst (checksums t4))"
    by simp
  from w have "ledgerDoc t5 = Some (serializeChecksums env (checksums t4))"
    by (auto simp: writeChecksums_Inr)
  moreover have "map_of (serializeChecksums env (checksums t4)) (draftDefRelativeFilename d) =
      getProperty (checksums t4) (draftDefRelativeFilename d)"
    using d4 by (simp add: serializeChecksums_map_of getProperty_def)
  moreover from l k have "getProperty (checksums t4) (draftDefRelativeFilename d) =
      getProperty (checksums t3) (draftDefRelativeFilename d)"
    by (rule processDrafts_other_key)
  ultimately show "\<exists>doc'. ledgerDoc t5 = Some doc' \<and>
      map_of doc' (draftDefRelativeFilename d) =
      getProperty (checksums t3) (draftDefRelativeFilename d)"
    by simp
qed

theorem ledger_entry_kept_unless_draft_completes_witness:
  "(\<exists>s3. processDraft exampleEnv ''// draft '' ''2019-09'' exampleState = Inr s3 \<and>
      checksums s3 = checksums exampleState \<and> ledgerDoc s3 = ledgerDoc exampleState) \<and>
   (\<exists>s3 n1. getProperty (checksums staleState) (draftDefRelativeFilename ''2019-09'') = Some ''00'' \<and>
      fileChecksum failingEnv (draftDefFilename failingEnv ''2019-09'') staleState = Inr ''0e'' \<and>
      processDraft failingEnv ''// draft '' ''2019-09'' staleState =
        Inl (Error ''MissingPlaceholderBinding'', s3) \<and>
      getProperty (checksums s3) (draftDefRelativeFilename ''2019-09'') = Some ''0e'' \<and>
      getProperty (checksums s3) (draftDefRelativeFilename ''draft7'') = Some ''00'' \<and>
      run failingEnv staleState = Inl (Error ''MissingPlaceholderBinding'', s3) \<and>
      ledgerDoc s3 = ledgerDoc staleState \<and>
      importChecksums failingEnv s3 = Inr n1 \<and>
      processDrafts failingEnv ''// draft '' [] n1 = Inr n1 \<and>
      checksums n1 = checksums staleState \<and>
      unchanged failingEnv (checksums n1) (draftDefRelativeFilename ''2019-09'') ''0e'' = False)"
proof -
  have d1: "drafts exampleEnv = [] @ ''2019-09'' # [''draft7'']"
    by (simp add: drafts_example)
  have d2: "drafts failingEnv = [] @ ''2019-09'' # [''draft7'']"
    by (simp add: drafts_example)
  have fresh: "''2019-09'' \<notin> set []"
    by simp
  have p1: "processDrafts exampleEnv ''// draft '' [] exampleState = Inr exampleState"
    by simp
  have p2: "processDrafts failingEnv ''// draft '' [] staleState = Inr staleState"
    by simp
  have skip: "fileChecksum exampleEnv (draftDefFilename exampleEnv ''2019-09'') exampleState = Inr ''0e'' \<and>
      importDefinition exampleEnv (draftDefFilename exampleEnv ''2019-09'') =
        Inr (exampleDefinition ''2019-09'' 2019) \<and>
      unchanged exampleEnv (checksums exampleState) (draftDefRelativeFilename ''2019-09'') ''0e''"
    by (simp add: fileChecksum_def readTextFile_def unchanged_def getProperty_def
        draftDefRelativeFilename_def example_paths)
  from ledger_entry_kept_unless_draft_completes
    [OF import_example read_template_example d1 fresh p1,
     where h = "''0e''" and raw = "exampleDefinition ''2019-09'' 2019"] skip
  have first: "\<exists>s3. processDraft exampleEnv ''// draft '' ''2019-09'' exampleState = Inr s3 \<and>
      checksums s3 = checksums exampleState \<and> ledgerDoc s3 = ledgerDoc exampleState"
    by blast
  from failing_draft obtain s3 where
    f: "processDraft failingEnv ''// draft '' ''2019-09'' staleState =
          Inl (Error ''MissingPlaceholderBinding'', s3)"
    by blast
  have old: "getProperty (checksums staleState) (draftDefRelativeFilename ''2019-09'') = Some ''00''"
    "getProperty (checksums staleState) (draftDefRelativeFilename ''draft7'') = Some ''00''"
    by (simp_all add: getProperty_def draftDefRelativeFilename_def)
  have c: "fileChecksum failingEnv (draftDefFilename failingEnv ''2019-09'') staleState = Inr ''0e''"
    by (simp add: fileChecksum_def readTextFile_def example_paths)
  have changed: "fileChecksum failingEnv (draftDefFilename failingEnv ''2019-09'') staleState = Inr ''0e'' \<and>
      importDefinition failingEnv (draftDefFilename failingEnv ''2019-09'') =
        Inr (exampleDefinition ''2019-09'' 2019) \<and>
      \<not> unchanged failingEnv (checksums staleState) (draftDefRelativeFilename ''2019-09'') ''0e''"
    using c old by (simp add: unchanged_def example_paths)
  note t = ledger_entry_kept_unless_draft_completes
    [OF import_stale read_template_stale d2 fresh p2,
     where e = "Error ''MissingPlaceholderBinding''" and ?s3.0 = s3 and h' = "''0e''"
       and h = "''0e''" and raw = "exampleDefinition ''2019-09'' 2019"]
  from f have aw: "afterwards (processDraft failingEnv ''// draft '' ''2019-09'' staleState) = s3"
    by simp
  from t changed have
    "getProperty (checksums (afterwards (processDraft failingEnv ''// draft '' ''2019-09'' staleState)))
       (draftDefRelativeFilename ''2019-09'') = Some ''0e'' \<and>
     (\<forall>k. k \<noteq> draftDefRelativeFilename ''2019-09'' \<longrightarrow>
        getProperty (checksums (afterwards (processDraft failingEnv ''// draft '' ''2019-09'' staleState))) k =
        getProperty (checksums staleState) k)"
    by blast
  then have new: "getProperty (checksums s3) (draftDefRelativeFilename ''2019-09'') = Some ''0e''"
    and others: "\<forall>k. k \<noteq> draftDefRelativeFilename ''2019-09'' \<longrightarrow>
       getProperty (checksums s3) k = getProperty (checksums staleState) k"
    unfolding aw by blast+
  from others old have other: "getProperty (checksums s3) (draftDefRelativeFilename ''draft7'') = Some ''00''"
    by simp
  from t f have r: "run failingEnv staleState = Inl (Error ''MissingPlaceholderBinding'', s3)"
    and doc: "ledgerDoc s3 = ledgerDoc staleState"
    and again: "\<forall>(env' :: (unit, unit) env) code' n1 n2.
               importChecksums env' s3 = Inr n1 \<and> processDrafts env' code' [] n1 = Inr n2 \<longrightarrow>
                 checksums n1 = checksums staleState \<and>
                 getProperty (checksums n2) (draftDefRelativeFilename ''2019-09'') =
                   getProperty (checksums staleState) (draftDefRelativeFilename ''2019-09'') \<and>
                 (FORCE_REFRESH env' = FORCE_REFRESH failingEnv \<longrightarrow>
                    unchanged env' (checksums n2) (draftDefRelativeFilename ''2019-09'') ''0e'' =
                    unchanged failingEnv (checksums staleState) (draftDefRelativeFilename ''2019-09'') ''0e'')"
    by blast+
  from doc obtain n1 where i: "importChecksums failingEnv s3 = Inr n1"
    by (simp add: importChecksums_def)
  have p3: "processDrafts failingEnv ''// draft '' [] n1 = Inr n1"
    by simp
  from again i p3 have same: "checksums n1 = checksums staleState"
    and dec: "unchanged failingEnv (checksums n1) (draftDefRelativeFilename ''2019-09'') ''0e'' =
      unchanged failingEnv (checksums staleState) (draftDefRelativeFilename ''2019-09'') ''0e''"
    by blast+
  have "unchanged failingEnv (checksums staleState) (draftDefRelativeFilename ''2019-09'') ''0e'' = False"
    by (simp add: unchanged_def getProperty_def draftDefRelativeFilename_def)
  with dec have u: "unchanged failingEnv (checksums n1) (draftDefRelativeFilename ''2019-09'') ''0e'' = False"
    by simp
  from old c f new other r doc i p3 same u have second:
    "\<exists>s3 n1. getProperty (checksums staleState) (draftDefRelativeFilename ''2019-09'') = Some ''00'' \<and>
      fileChecksum failingEnv (draftDefFilename failingEnv ''2019-09'') staleState = Inr ''0e'' \<and>
      processDraft failingEnv ''// draft '' ''2019-09'' staleState =
        Inl (Error ''MissingPlaceholderBinding'', s3) \<and>
      getProperty (checksums s3) (draftDefRelativeFilename ''2019-09'') = Some ''0e'' \<and>
      getProperty (checksums s3) (draftDefRelativeFilename ''draft7'') = Some ''00'' \<and>
      run failingEnv staleState = Inl (Error ''MissingPlaceholderBinding'', s3) \<and>
      ledgerDoc s3 = ledgerDoc staleState \<and>
      importChecksums failingEnv s3 = Inr n1 \<and>
      processDrafts failingEnv ''// draft '' [] n1 = Inr n1 \<and>
      checksums n1 = checksums staleState \<and>
      unchanged failingEnv (checksums n1) (draftDefRelativeFilename ''2019-09'') ''0e'' = False"
    by blast
  from first second show ?thesis
    by (rule conjI)
qed

section \<open>A run in which no draft has changed\<close>

lemma processDrafts_all_unchanged:
  assumes "\<forall>d \<in> set ds. \<exists>h raw.
      fileChecksum env (draftDefFilename env d) s = Inr h \<and>
      importDefinition env (draftDefFilename env d) = Inr raw \<and>
      unchanged env (checksums s) (draftDefRelativeFilename d) h"
  shows "\<exists>s'. processDrafts env code ds s = Inr s' \<and> files s' = files s \<and>
      checksums s' = checksums s \<and> ledgerDoc s' = ledgerDoc s \<and>
      console s' = console s @ map skipMessage ds"
  using assms
proof (induction ds arbitrary: s)
  case Nil
  then show ?case by simp
next
  case (Cons d ds)
  from Cons.prems obtain h raw where
    c: "fileChecksum env (draftDefFilename env d) s = Inr h"
    and i: "importDefinition env (draftDefFilename env d) = Inr raw"
    and u: "unchanged env (checksums s) (draftDefRelativeFilename d) h"
    by auto
  let ?s1 = "s\<lparr>licenseCopyrights := licenseCopyrights s @ [licenseEntry raw],
                console := console s @ [skipMessage d]\<rparr>"
  from u have p: "processDraft env code d s = Inr ?s1"
    by (simp add: processDraft_eq [OF c i])
  have "\<forall>d \<in> set ds. \<exists>h raw.
      fileChecksum env (draftDefFilename env d) ?s1 = Inr h \<and>
      importDefinition env (draftDefFilename env d) = Inr raw \<and>
      unchanged env (checksums ?s1) (draftDefRelativeFilename d) h"
    using Cons.prems by (simp add: fileChecksum_Inr)
  from Cons.IH [OF this] obtain s' where
    "processDrafts env code ds ?s1 = Inr s'" "files s' = files s" "checksums s' = checksums s"
    "ledgerDoc s' = ledgerDoc s" "console s' = console s @ skipMessage d # map skipMessage ds"
    by auto
  with p show ?case by simp
qed


lemma exampleFiles_templates [simp]:
  "map_of exampleFiles ''/repo/.src/file_templates/README.deno.template.md'' =
     Some ''{DRAFT_TOTAL} {LATEST_DRAFT}''"
  "map_of exampleFiles ''/repo/.src/file_templates/README.node.template.md'' =
     Some ''{NODE_DRAFT_LIST}''"
  "map_of exampleFiles ''/repo/.src/file_templates/LICENSE.template.md'' =
     Some ''{YEAR}: {COPYRIGHT}''"
  "map_of exampleFiles ''/repo/dist/deno/version.ts'' = Some ''export const VERSION = \"1.0.0\";''"
  by (simp_all add: exampleFiles_def)

lemma run_paths:
  "latestFilename env = CWD env @ ''/dist/deno/draft_latest.ts''"
  "readmeFilenames env =
     [(CWD env @ ''/.src/file_templates/README.deno.template.md'', CWD env @ ''/dist/deno/README.md''),
      (CWD env @ ''/.src/file_templates/README.node.template.md'', CWD env @ ''/dist/node/README.md'')]"
  "licenseFilename env = CWD env @ ''/LICENSE.md''"
  "licenseTemplateFilename env = CWD env @ ''/.src/file_templates/LICENSE.template.md''"
  "map (\<lambda>dir. pathJoin dir ''LICENSE.md'') (ALL_DIST_DIRS env) =
     [CWD env @ ''/dist/deno/LICENSE.md'', CWD env @ ''/dist/spec_definitions/LICENSE.md'',
      CWD env @ ''/dist/node/LICENSE.md'']"
  "packageFilename env = CWD env @ ''/dist/node/package.json''"
  "versionFilename env = CWD env @ ''/dist/deno/version.ts''"
  by (simp_all add: latestFilename_def readmeFilenames_def licenseFilename_def
      licenseTemplateFilename_def ALL_DIST_DIRS_def packageFilename_def versionFilename_def
      FILE_TEMPLATES_DIR_def SRC_DIR_def DENO_DIR_def NODE_DIR_def SPEC_DEFS_DIR_def DIST_DIR_def
      pathJoin_def)

lemma latest_example: "latestDraft (drafts exampleEnv) = Some ''2019-09''"
  by code_simp

lemma example_finish:
  assumes "files s = map_of exampleFiles"
  shows "\<exists>s'. finish exampleEnv s = Inr s'"
  using assms
  by (simp add: finish_def latest_example writeLatest_def writePackageJson_def writeVersion_def
      writeLicense_def copy_def writeTextFile_def readTextFile_def fmtCommand_def run_paths
      ALL_DIST_DIRS_def DENO_DIR_def NODE_DIR_def SPEC_DEFS_DIR_def DIST_DIR_def pathJoin_def)

lemma example_all_unchanged:
  "\<forall>d \<in> set (expandGlob exampleEnv). \<exists>h raw.
      fileChecksum exampleEnv (draftDefFilename exampleEnv d) exampleState = Inr h \<and>
      importDefinition exampleEnv (draftDefFilename exampleEnv d) = Inr raw \<and>
      unchanged exampleEnv (fromEntries
        [(''.src/draft/2019-09/definition.ts'', ''0e''),
         (''.src/draft/draft7/definition.ts'', ''0d'')]) (draftDefRelativeFilename d) h"
  by (simp add: fileChecksum_def readTextFile_def unchanged_def getProperty_def
      draftDefRelativeFilename_def example_paths fromEntries_def setProperty_def)


lemma finish_Inr:
  "finish env s = Inr s' \<longleftrightarrow>
     (\<exists>latest a b c d e.
        latestDraft (drafts env) = Some latest \<and>
        writeLatest env latest s = Inr a \<and>
        writeReadmes env (drafts env) latest (readmeFilenames env) a = Inr b \<and>
        writeLicense env b = Inr c \<and>
        copyLicense env (ALL_DIST_DIRS env) c = Inr d \<and>
        writePackageJson env latest d = Inr e \<and>
        writeVersion env e = Inr s')"
  by (auto simp: finish_def andThen_eq_Inr split: option.splits)

lemma finish_version:
  "finish env s = Inr s' \<Longrightarrow> files s' (versionFilename env) = Some (versionModule env)"
  by (auto simp: finish_Inr writeVersion_def writeTextFile_Inr)

lemma example_fromEntries:
  "fromEntries [(''.src/draft/2019-09/definition.ts'', ''0e''),
                (''.src/draft/draft7/definition.ts'', ''0d'')] =
   [(''.src/draft/2019-09/definition.ts'', ''0e''), (''.src/draft/draft7/definition.ts'', ''0d'')]"
  by (simp add: fromEntries_def setProperty_def)

lemma example_run:
  "\<exists>s2 s3 s'. processDrafts exampleEnv ''// draft '' (drafts exampleEnv) exampleState = Inr s2 \<and>
     checksums s2 = checksums exampleState \<and>
     files s3 = map_of exampleFiles \<and> licenseCopyrights s3 = licenseCopyrights s2 \<and>
     console s3 = [skipMessage ''2019-09'', skipMessage ''draft7''] \<and>
     run exampleEnv exampleState = finish exampleEnv s3 \<and> finish exampleEnv s3 = Inr s'"
proof -
  have "\<forall>d \<in> set (drafts exampleEnv). \<exists>h raw.
      fileChecksum exampleEnv (draftDefFilename exampleEnv d) exampleState = Inr h \<and>
      importDefinition exampleEnv (draftDefFilename exampleEnv d) = Inr raw \<and>
      unchanged exampleEnv (checksums exampleState) (draftDefRelativeFilename d) h"
    using example_all_unchanged by (simp add: example_fromEntries drafts_def)
  from processDrafts_all_unchanged [OF this, of "''// draft ''"] obtain s2 where
    loop: "processDrafts exampleEnv ''// draft '' (drafts exampleEnv) exampleState = Inr s2"
    and s2: "files s2 = map_of exampleFiles"
      "console s2 = [skipMessage ''2019-09'', skipMessage ''draft7'']"
      "checksums s2 = checksums exampleState"
    by (auto simp: drafts_example)
  let ?s3 = "s2\<lparr>ledgerDoc := Some (serializeChecksums exampleEnv (checksums s2))\<rparr>"
  have w: "writeChecksums exampleEnv s2 = Inr ?s3"
    by (simp add: writeChecksums_def)
  have r: "run exampleEnv exampleState = finish exampleEnv ?s3"
    using import_example read_template_example loop w by (rule run_after_loop)
  from s2 have "files ?s3 = map_of exampleFiles"
    by simp
  from example_finish [OF this] obtain s' where "finish exampleEnv ?s3 = Inr s'"
    by blast
  with loop r s2 show ?thesis
    by (intro exI [of _ s2] exI [of _ ?s3] exI [of _ s']) simp
qed



section \<open>The order of the ledger that is written\<close>







section \<open>The generated-file banner\<close>

lemma touchesOnly_Inr:
  "touchesOnly P s (afterwards m) \<Longrightarrow> m = Inr s' \<Longrightarrow> touchesOnly P s s'"
  by simp

lemma touchesOnly_files: "touchesOnly P s s' \<Longrightarrow> p \<notin> P \<Longrightarrow> files s' p = files s p"
  by (simp add: touchesOnly_def)

lemma node_neq_output: "pathJoin (NODE_DIR env) name \<noteq> outputFilename env d"
  by (simp add: NODE_DIR_def outputFilename_def DENO_DIR_def DIST_DIR_def pathJoin_def)

lemma regenerate_module:
  assumes "regenerate env code d raw s = Inr s'"
  shows "\<exists>modCode. files s' (outputFilename env d) =
           Some (denoFmt env (outputFilename env d) (generatedModule modCode))"
  using assms unfolding regenerate_def Let_def
  by (auto simp: andThen_eq_Inr writeTextFile_Inr fmtCommand_def emit_files node_neq_output
      dest!: compileTypeScript_Inr)

lemma generatedModule_banner:
  "generatedModule modCode =
     ''// @generated\<newline>// This code is automatically generated. Manual editing is not recommended.\<newline>\<newline>''
       @ modCode"
  by (simp add: generatedModule_def)

lemma finish_tail:
  assumes "finish env s = Inr s'"
  shows "\<exists>latest.
           latestDraft (drafts env) = Some latest \<and>
           \<not> denied env (latestFilename env) \<and>
           touchesOnly (set (tl (runOutputs env)))
             (s\<lparr>files := (files s)(latestFilename env \<mapsto> latestModule latest)\<rparr>) s'"
proof -
  from assms obtain latest a b c d e where l: "latestDraft (drafts env) = Some latest"
    and a: "writeLatest env latest s = Inr a"
    and b: "writeReadmes env (drafts env) latest (readmeFilenames env) a = Inr b"
    and c: "writeLicense env b = Inr c"
    and d: "copyLicense env (ALL_DIST_DIRS env) c = Inr d"
    and e: "writePackageJson env latest d = Inr e"
    and f: "writeVersion env e = Inr s'"
    by (auto simp: finish_Inr)
  from a have a': "\<not> denied env (latestFilename env)"
    "a = s\<lparr>files := (files s)(latestFilename env \<mapsto> latestModule latest)\<rparr>"
    by (simp_all add: writeLatest_def writeTextFile_Inr)
  have 1: "touchesOnly (snd ` set (readmeFilenames env)) a b"
    using touchesOnly_writeReadmes b by (rule touchesOnly_Inr)
  have 2: "touchesOnly {licenseFilename env} b c"
    using touchesOnly_writeLicense c by (rule touchesOnly_Inr)
  have 3: "touchesOnly ((\<lambda>dir. pathJoin dir ''LICENSE.md'') ` set (ALL_DIST_DIRS env)) c d"
    using touchesOnly_copyLicense d by (rule touchesOnly_Inr)
  have 4: "touchesOnly {packageFilename env} d e"
    using touchesOnly_write e unfolding writePackageJson_def by (rule touchesOnly_Inr)
  have 5: "touchesOnly {versionFilename env} e s'"
    using touchesOnly_write f unfolding writeVersion_def by (rule touchesOnly_Inr)
  note touchesOnly_trans [OF touchesOnly_trans [OF touchesOnly_trans [OF touchesOnly_trans [OF 1 2] 3] 4] 5]
  then have "touchesOnly (set (tl (runOutputs env))) a s'"
    by (rule touchesOnly_mono) (auto simp: runOutputs_def)
  with l a' show ?thesis
    by blast
qed

lemma latest_not_rewritten: "latestFilename env \<notin> set (tl (runOutputs env))"
  by (simp add: runOutputs_def run_paths)

lemma finish_latest:
  assumes "finish env s = Inr s'"
  shows "\<exists>latest. latestDraft (drafts env) = Some latest \<and>
           files s' (latestFilename env) = Some (latestModule latest)"
proof -
  from finish_tail [OF assms] obtain latest where l: "latestDraft (drafts env) = Some latest"
    and t: "touchesOnly (set (tl (runOutputs env)))
             (s\<lparr>files := (files s)(latestFilename env \<mapsto> latestModule latest)\<rparr>) s'"
    by blast
  from touchesOnly_files [OF t latest_not_rewritten] l show ?thesis
    by simp
qed

text \<open>
  C8, as the specification states it, fails. The completed example run leaves two source
  modules, the latest alias and the version module, that consist of a single export
  statement and do not start with the marker.
\<close>

theorem alias_and_version_modules_lack_banner:
  "exitCode (run exampleEnv exampleState) = 0 \<and>
   files (afterwards (run exampleEnv exampleState)) (latestFilename exampleEnv) =
     Some ''export * from \"./draft_2019-09.ts\";'' \<and>
   \<not> startsWith ''export * from \"./draft_2019-09.ts\";'' ''// @generated'' \<and>
   files (afterwards (run exampleEnv exampleState)) (versionFilename exampleEnv) =
     Some ''export const VERSION = \"1.0.1\";'' \<and>
   \<not> startsWith ''export const VERSION = \"1.0.1\";'' ''// @generated''"
proof -
  from example_run obtain s3 s' where
    r: "run exampleEnv exampleState = finish exampleEnv s3"
    and f: "finish exampleEnv s3 = Inr s'"
    by blast
  from finish_latest [OF f] have "files s' (latestFilename exampleEnv) = Some (latestModule ''2019-09'')"
    by (simp add: latest_example)
  with r f finish_version [OF f] show ?thesis
    by (simp add: exitCode_def latestModule_def versionModule_def)
qed

text \<open>
  C8, amended. Every module that is regenerated for a draft is the formatter's output for
  a text that starts with the two-line marker (and an empty line). The latest alias and
  the version module, which a completed run also writes, are a single export statement
  each, without the marker.
\<close>

theorem draft_modules_carry_banner:
  "(regenerate env code d raw s = Inr s' \<longrightarrow>
      (\<exists>modCode. files s' (outputFilename env d) =
         Some (denoFmt env (outputFilename env d)
           (''// @generated\<newline>// This code is automatically generated. Manual editing is not recommended.\<newline>\<newline>''
              @ modCode)))) \<and>
   (finish env t = Inr t' \<longrightarrow>
      (\<exists>latest. latestDraft (drafts env) = Some latest \<and>
         files t' (latestFilename env) = Some (''export * from \"./draft_'' @ latest @ ''.ts\";'')) \<and>
      files t' (versionFilename env) = Some (''export const VERSION = \"'' @ VERSION env @ ''\";''))"
proof (intro conjI impI)
  assume "regenerate env code d raw s = Inr s'"
  from regenerate_module [OF this] show "\<exists>modCode. files s' (outputFilename env d) =
         Some (denoFmt env (outputFilename env d)
           (''// @generated\<newline>// This code is automatically generated. Manual editing is not recommended.\<newline>\<newline>''
              @ modCode))"
    by (simp add: generatedModule_banner)
next
  assume f: "finish env t = Inr t'"
  from finish_latest [OF f] show "\<exists>latest. latestDraft (drafts env) = Some latest \<and>
         files t' (latestFilename env) = Some (''export * from \"./draft_'' @ latest @ ''.ts\";'')"
    by (simp add: latestModule_def)
  from finish_version [OF f] show
    "files t' (versionFilename env) = Some (''export const VERSION = \"'' @ VERSION env @ ''\";'')"
    by (simp add: versionModule_def)
qed


lemma example_regenerate:
  "\<exists>s'. regenerate exampleEnv ''// draft '' ''draft7'' (exampleDefinition ''07'' 2018) exampleState = Inr s'"
  by (simp add: regenerate_def writeTextFile_def compileTypeScript_def allDiagnostics_def
      exampleProgram_def Let_def)

theorem draft_modules_carry_banner_witness:
  "(\<exists>s' modCode.
      regenerate exampleEnv ''// draft '' ''draft7'' (exampleDefinition ''07'' 2018) exampleState = Inr s' \<and>
      files s' (outputFilename exampleEnv ''draft7'') =
        Some (''// @generated\<newline>// This code is automatically generated. Manual editing is not recommended.\<newline>\<newline>''
                @ modCode)) \<and>
   (\<exists>t t'. finish exampleEnv t = Inr t' \<and>
      files t' (latestFilename exampleEnv) = Some ''export * from \"./draft_2019-09.ts\";'' \<and>
      files t' (versionFilename exampleEnv) = Some ''export const VERSION = \"1.0.1\";'')"
proof -
  from example_regenerate obtain s' where
    g: "regenerate exampleEnv ''// draft '' ''draft7'' (exampleDefinition ''07'' 2018) exampleState = Inr s'"
    by blast
  from example_run obtain t t' where f: "finish exampleEnv t = Inr t'"
    by blast
  note th = draft_modules_carry_banner
    [where env = exampleEnv and code = "''// draft ''" and d = "''draft7''"
       and raw = "exampleDefinition ''07'' 2018" and s = exampleState and s' = s'
       and t = t and t' = t']
  from th g obtain modCode where "files s' (outputFilename exampleEnv ''draft7'') =
        Some (''// @generated\<newline>// This code is automatically generated. Manual editing is not recommended.\<newline>\<newline>''
                @ modCode)"
    by auto
  with g have first: "\<exists>s' modCode.
      regenerate exampleEnv ''// draft '' ''draft7'' (exampleDefinition ''07'' 2018) exampleState = Inr s' \<and>
      files s' (outputFilename exampleEnv ''draft7'') =
        Some (''// @generated\<newline>// This code is automatically generated. Manual editing is not recommended.\<newline>\<newline>''
                @ modCode)"
    by blast
  from th f have "files t' (latestFilename exampleEnv) = Some ''export * from \"./draft_2019-09.ts\";''"
    and "files t' (versionFilename exampleEnv) = Some ''export const VERSION = \"1.0.1\";''"
    by (auto simp: latest_example)
  with f have second: "\<exists>t t'. finish exampleEnv t = Inr t' \<and>
      files t' (latestFilename exampleEnv) = Some ''export * from \"./draft_2019-09.ts\";'' \<and>
      files t' (versionFilename exampleEnv) = Some ''export const VERSION = \"1.0.1\";''"
    by blast
  from first second show ?thesis
    by (rule conjI)
qed

section \<open>The LICENSE text\<close>

lemma processDrafts_licenseCopyrights:
  "processDrafts env code ds s = Inr s' \<Longrightarrow>
   \<exists>defs. map (\<lambda>d. importDefinition env (draftDefFilename env d)) ds = map Inr defs \<and>
          licenseCopyrights s' = licenseCopyrights s @ map licenseEntry defs"
proof (induction ds arbitrary: s)
  case Nil
  then show ?case by simp
next
  case (Cons d ds)
  from Cons.prems obtain s1 where
    1: "processDraft env code d s = Inr s1" and 2: "processDrafts env code ds s1 = Inr s'"
    by (auto simp: andThen_eq_Inr)
  from processDraft_Inr [OF 1] obtain raw where
    i: "importDefinition env (draftDefFilename env d) = Inr raw"
    and l: "licenseCopyrights s1 = licenseCopyrights s @ [licenseEntry raw]"
    by blast
  from Cons.IH [OF 2] obtain defs where
    m: "map (\<lambda>d. importDefinition env (draftDefFilename env d)) ds = map Inr defs"
    and l': "licenseCopyrights s' = licenseCopyrights s1 @ map licenseEntry defs"
    by blast
  from i m l l' have
    "map (\<lambda>d. importDefinition env (draftDefFilename env d)) (d # ds) = map Inr (raw # defs) \<and>
     licenseCopyrights s' = licenseCopyrights s @ map licenseEntry (raw # defs)"
    by simp
  then show ?case by blast
qed






lemma licenseTemplate_not_written:
  "licenseTemplateFilename env \<noteq> latestFilename env"
  "licenseTemplateFilename env \<notin> snd ` set (readmeFilenames env)"
  by (simp_all add: run_paths)

lemma license_not_rewritten:
  "licenseFilename env \<notin> (\<lambda>dir. pathJoin dir ''LICENSE.md'') ` set (ALL_DIST_DIRS env) \<union>
     {packageFilename env} \<union> {versionFilename env}"
proof -
  have "licenseFilename env \<notin> set (map (\<lambda>dir. pathJoin dir ''LICENSE.md'') (ALL_DIST_DIRS env))"
    unfolding run_paths by simp
  then have "licenseFilename env \<notin> (\<lambda>dir. pathJoin dir ''LICENSE.md'') ` set (ALL_DIST_DIRS env)"
    by simp
  moreover have "licenseFilename env \<noteq> packageFilename env"
    "licenseFilename env \<noteq> versionFilename env"
    by (simp_all add: run_paths)
  ultimately show ?thesis
    by simp
qed

lemma writeLicense_Inr:
  "writeLicense env s = Inr s' \<longleftrightarrow>
     (\<exists>template text. files s (licenseTemplateFilename env) = Some template \<and>
        formatMarkdown env (licenseSource env template (licenseCopyrights s)) None = Inr text \<and>
        \<not> denied env (licenseFilename env) \<and>
        s' = s\<lparr>files := (files s)(licenseFilename env \<mapsto> text)\<rparr>)"
  by (auto simp: writeLicense_def andThen_eq_Inr readTextFile_Inr writeTextFile_Inr)

lemma finish_license:
  assumes "finish env s = Inr s'"
  shows "\<exists>template text.
           files s (licenseTemplateFilename env) = Some template \<and>
           formatMarkdown env (licenseSource env template (licenseCopyrights s)) None = Inr text \<and>
           files s' (licenseFilename env) = Some text"
proof -
  from assms obtain latest a b c d e where
    a: "writeLatest env latest s = Inr a"
    and b: "writeReadmes env (drafts env) latest (readmeFilenames env) a = Inr b"
    and c: "writeLicense env b = Inr c"
    and d: "copyLicense env (ALL_DIST_DIRS env) c = Inr d"
    and e: "writePackageJson env latest d = Inr e"
    and f: "writeVersion env e = Inr s'"
    by (auto simp: finish_Inr)
  from a have a': "a = s\<lparr>files := (files s)(latestFilename env \<mapsto> latestModule latest)\<rparr>"
    by (simp add: writeLatest_def writeTextFile_Inr)
  have 1: "touchesOnly (snd ` set (readmeFilenames env)) a b"
    using touchesOnly_writeReadmes b by (rule touchesOnly_Inr)
  from touchesOnly_files [OF 1 licenseTemplate_not_written(2)] a'
  have tb: "files b (licenseTemplateFilename env) = files s (licenseTemplateFilename env)"
    by (simp add: licenseTemplate_not_written(1))
  from 1 a' have lb: "licenseCopyrights b = licenseCopyrights s"
    by (simp add: touchesOnly_def)
  from c obtain tmpl body where
    t: "files b (licenseTemplateFilename env) = Some tmpl"
    and m: "formatMarkdown env (licenseSource env tmpl (licenseCopyrights b)) None = Inr body"
    and c': "c = b\<lparr>files := (files b)(licenseFilename env \<mapsto> body)\<rparr>"
    by (auto simp: writeLicense_Inr)
  have 3: "touchesOnly ((\<lambda>dir. pathJoin dir ''LICENSE.md'') ` set (ALL_DIST_DIRS env)) c d"
    using touchesOnly_copyLicense d by (rule touchesOnly_Inr)
  have 4: "touchesOnly {packageFilename env} d e"
    using touchesOnly_write e unfolding writePackageJson_def by (rule touchesOnly_Inr)
  have 5: "touchesOnly {versionFilename env} e s'"
    using touchesOnly_write f unfolding writeVersion_def by (rule touchesOnly_Inr)
  note touchesOnly_trans [OF touchesOnly_trans [OF 3 4] 5]
  from touchesOnly_files [OF this license_not_rewritten] c'
  have "files s' (licenseFilename env) = Some body"
    by simp
  with t m tb lb show ?thesis
    by auto
qed

lemma run_Inr:
  "run env s0 = Inr final \<longleftrightarrow>
     (\<exists>s1 code s2 s3. importChecksums env s0 = Inr s1 \<and>
        readTextFile (modTemplateFilename env) s1 = Inr code \<and>
        processDrafts env code (drafts env) s1 = Inr s2 \<and>
        writeChecksums env s2 = Inr s3 \<and> finish env s3 = Inr final)"
  by (auto simp: run_def andThen_eq_Inr)



subsection \<open>Replacing a placeholder by text without dollar signs\<close>








subsection \<open>The text of the LICENSE\<close>



lemma dollarEnv_fields [simp]:
  "FORCE_REFRESH dollarEnv = False"
  "CWD dollarEnv = ''/repo''"
  "expandGlob dollarEnv = [''draft7'', ''2019-09'']"
  "localeCompare dollarEnv = codeUnitCompare"
  "digest dollarEnv = digest exampleEnv"
  "formatMarkdown dollarEnv = formatMarkdown exampleEnv"
  "denoFmt dollarEnv = denoFmt exampleEnv"
  "denied dollarEnv p = False"
  "importDefinition dollarEnv ''/repo/.src/draft/2019-09/definition.ts'' =
     Inr (exampleDefinition ''2019-09'' 2019)"
  "importDefinition dollarEnv ''/repo/.src/draft/draft7/definition.ts'' = Inr dollarDefinition"
  by (simp_all add: dollarEnv_def)









lemma example_license_text:
  "licenseSource exampleEnv ''{YEAR}: {COPYRIGHT}''
     (map licenseEntry [exampleDefinition ''2019-09'' 2019, exampleDefinition ''07'' 2018]) =
   ''2026: 2018 [draft-07] A. Author, and B. Editor.\<newline>\<newline>2019 [draft-2019-09] A. Author, and B. Editor.''"
  by code_simp




section \<open>What an unchanged run rewrites\<close>

subsection \<open>What the steps after the loop write\<close>

lemma writeReadmes_files:
  "writeReadmes env ds latest xs s = Inr s' \<Longrightarrow> distinct (map snd xs) \<Longrightarrow>
   fst ` set xs \<inter> snd ` set xs = {} \<Longrightarrow>
   \<forall>(tpl, out) \<in> set xs. \<exists>src. files s tpl = Some src \<and>
      files s' out = Some (denoFmt env out (readmeText ds latest src))"
proof (induction xs arbitrary: s)
  case Nil
  then show ?case by simp
next
  case (Cons x xs)
  obtain tpl out where x: "x = (tpl, out)" by (cases x)
  from Cons.prems(1) obtain src where src: "files s tpl = Some src"
    and nd: "\<not> denied env out"
    and rest: "writeReadmes env ds latest xs
        (fmtCommand env out (s\<lparr>files := (files s)(out \<mapsto> readmeText ds latest src)\<rparr>)) = Inr s'"
    unfolding x by (auto simp: andThen_eq_Inr readTextFile_Inr writeTextFile_Inr)
  let ?s1 = "fmtCommand env out (s\<lparr>files := (files s)(out \<mapsto> readmeText ds latest src)\<rparr>)"
  have s1: "files ?s1 = (files s)(out \<mapsto> denoFmt env out (readmeText ds latest src))"
    by (simp add: fmtCommand_def)
  from Cons.prems(2) have d: "distinct (map snd xs)" and fresh: "out \<notin> snd ` set xs"
    by (simp_all add: x)
  from Cons.prems(3) have disj: "fst ` set xs \<inter> snd ` set xs = {}" and t: "out \<notin> fst ` set xs"
    by (auto simp: x)
  have "touchesOnly (snd ` set xs) ?s1 s'"
    using touchesOnly_writeReadmes rest by (rule touchesOnly_Inr)
  from touchesOnly_files [OF this fresh] s1
  have head: "files s' out = Some (denoFmt env out (readmeText ds latest src))"
    by simp
  from Cons.IH [OF rest d disj] have
    "\<forall>(tpl', out') \<in> set xs. \<exists>src'. files ?s1 tpl' = Some src' \<and>
        files s' out' = Some (denoFmt env out' (readmeText ds latest src'))" .
  moreover have "\<forall>(tpl', out') \<in> set xs. files ?s1 tpl' = files s tpl'"
    using t by (auto simp: s1 simp del: fun_upd_apply) (metis fst_conv fun_upd_other image_eqI)
  ultimately have "\<forall>(tpl', out') \<in> set xs. \<exists>src'. files s tpl' = Some src' \<and>
        files s' out' = Some (denoFmt env out' (readmeText ds latest src'))"
    by fastforce
  with src head show ?case
    by (simp add: x)
qed

lemma copyLicense_files:
  "copyLicense env dirs s = Inr s' \<Longrightarrow>
   licenseFilename env \<notin> (\<lambda>dir. pathJoin dir ''LICENSE.md'') ` set dirs \<Longrightarrow>
   \<forall>dir \<in> set dirs. files s' (pathJoin dir ''LICENSE.md'') = files s (licenseFilename env)"
proof (induction dirs arbitrary: s)
  case Nil
  then show ?case by simp
next
  case (Cons dir dirs)
  from Cons.prems(1) obtain body where body: "files s (licenseFilename env) = Some body"
    and rest: "copyLicense env dirs (s\<lparr>files := (files s)(pathJoin dir ''LICENSE.md'' \<mapsto> body)\<rparr>) = Inr s'"
    by (auto simp: andThen_eq_Inr copy_def readTextFile_Inr writeTextFile_Inr)
  let ?s1 = "s\<lparr>files := (files s)(pathJoin dir ''LICENSE.md'' \<mapsto> body)\<rparr>"
  from Cons.prems(2) have n: "licenseFilename env \<noteq> pathJoin dir ''LICENSE.md''"
    and n': "licenseFilename env \<notin> (\<lambda>dir. pathJoin dir ''LICENSE.md'') ` set dirs"
    by auto
  from n body have l1: "files ?s1 (licenseFilename env) = Some body"
    by simp
  from Cons.IH [OF rest n'] l1 have later:
    "\<forall>dir \<in> set dirs. files s' (pathJoin dir ''LICENSE.md'') = Some body"
    by simp
  have "files s' (pathJoin dir ''LICENSE.md'') = Some body"
  proof (cases "pathJoin dir ''LICENSE.md'' \<in> (\<lambda>dir. pathJoin dir ''LICENSE.md'') ` set dirs")
    case True
    with later show ?thesis by auto
  next
    case False
    have "touchesOnly ((\<lambda>dir. pathJoin dir ''LICENSE.md'') ` set dirs) ?s1 s'"
      using touchesOnly_copyLicense rest by (rule touchesOnly_Inr)
    from touchesOnly_files [OF this False] show ?thesis by simp
  qed
  with later body show ?case
    by simp
qed

lemma readme_paths:
  "distinct (map snd (readmeFilenames env))"
  "fst ` set (readmeFilenames env) \<inter> snd ` set (readmeFilenames env) = {}"
  by (simp_all add: run_paths)

lemma readme_template_not_written:
  assumes "(tpl, out) \<in> set (readmeFilenames env)"
  shows "tpl \<noteq> latestFilename env"
proof -
  from assms have "tpl = CWD env @ ''/.src/file_templates/README.deno.template.md'' \<or>
      tpl = CWD env @ ''/.src/file_templates/README.node.template.md''"
    unfolding run_paths by simp (elim disjE conjE, simp_all)
  then show ?thesis
    by (rule disjE) (simp_all add: run_paths)
qed

lemma readme_not_rewritten:
  assumes "(tpl, out) \<in> set (readmeFilenames env)"
  shows "out \<notin> {licenseFilename env} \<union>
      (\<lambda>dir. pathJoin dir ''LICENSE.md'') ` set (ALL_DIST_DIRS env) \<union>
      {packageFilename env} \<union> {versionFilename env}"
proof -
  have c: "(\<lambda>dir. pathJoin dir ''LICENSE.md'') ` set (ALL_DIST_DIRS env) =
      set (map (\<lambda>dir. pathJoin dir ''LICENSE.md'') (ALL_DIST_DIRS env))"
    by simp
  from assms have "out = CWD env @ ''/dist/deno/README.md'' \<or> out = CWD env @ ''/dist/node/README.md''"
    unfolding run_paths by simp (elim disjE conjE, simp_all)
  then show ?thesis
    unfolding c run_paths by (rule disjE) simp_all
qed

lemma copy_not_rewritten:
  assumes "dir \<in> set (ALL_DIST_DIRS env)"
  shows "pathJoin dir ''LICENSE.md'' \<notin> {packageFilename env} \<union> {versionFilename env}"
proof -
  from assms have "pathJoin dir ''LICENSE.md'' \<in>
      set (map (\<lambda>dir. pathJoin dir ''LICENSE.md'') (ALL_DIST_DIRS env))"
    by simp
  then have "pathJoin dir ''LICENSE.md'' = CWD env @ ''/dist/deno/LICENSE.md'' \<or>
      pathJoin dir ''LICENSE.md'' = CWD env @ ''/dist/spec_definitions/LICENSE.md'' \<or>
      pathJoin dir ''LICENSE.md'' = CWD env @ ''/dist/node/LICENSE.md''"
    unfolding run_paths by simp
  then show ?thesis
    unfolding run_paths by (elim disjE) simp_all
qed

lemma package_not_rewritten: "packageFilename env \<notin> {versionFilename env}"
  by (simp add: run_paths)

lemma finish_outputs:
  assumes "finish env s = Inr s'"
  shows "\<exists>latest tmpl body.
      latestDraft (drafts env) = Some latest \<and>
      files s' (latestFilename env) = Some (latestModule latest) \<and>
      (\<forall>(tpl, out) \<in> set (readmeFilenames env). \<exists>src. files s tpl = Some src \<and>
         files s' out = Some (denoFmt env out (readmeText (drafts env) latest src))) \<and>
      files s (licenseTemplateFilename env) = Some tmpl \<and>
      formatMarkdown env (licenseSource env tmpl (licenseCopyrights s)) None = Inr body \<and>
      files s' (licenseFilename env) = Some body \<and>
      (\<forall>dir \<in> set (ALL_DIST_DIRS env). files s' (pathJoin dir ''LICENSE.md'') = Some body) \<and>
      files s' (packageFilename env) =
        Some (stringifyPackage env (updatedPackageJson env (drafts env) latest) @ ''\<newline>'') \<and>
      files s' (versionFilename env) = Some (versionModule env)"
proof -
  from assms obtain latest a b c d e where l: "latestDraft (drafts env) = Some latest"
    and a: "writeLatest env latest s = Inr a"
    and b: "writeReadmes env (drafts env) latest (readmeFilenames env) a = Inr b"
    and c: "writeLicense env b = Inr c"
    and d: "copyLicense env (ALL_DIST_DIRS env) c = Inr d"
    and e: "writePackageJson env latest d = Inr e"
    and f: "writeVersion env e = Inr s'"
    by (auto simp: finish_Inr)
  from a have a': "a = s\<lparr>files := (files s)(latestFilename env \<mapsto> latestModule latest)\<rparr>"
    by (simp add: writeLatest_def writeTextFile_Inr)
  have 3: "touchesOnly ((\<lambda>dir. pathJoin dir ''LICENSE.md'') ` set (ALL_DIST_DIRS env)) c d"
    using touchesOnly_copyLicense d by (rule touchesOnly_Inr)
  have 4: "touchesOnly {packageFilename env} d e"
    using touchesOnly_write e unfolding writePackageJson_def by (rule touchesOnly_Inr)
  have 5: "touchesOnly {versionFilename env} e s'"
    using touchesOnly_write f unfolding writeVersion_def by (rule touchesOnly_Inr)
  have 2: "touchesOnly {licenseFilename env} b c"
    using touchesOnly_writeLicense c by (rule touchesOnly_Inr)
  note after_readmes = touchesOnly_trans [OF touchesOnly_trans [OF touchesOnly_trans [OF 2 3] 4] 5]
  note after_copies = touchesOnly_trans [OF 4 5]
  from finish_latest [OF assms] l have latest: "files s' (latestFilename env) = Some (latestModule latest)"
    by simp
  from writeReadmes_files [OF b readme_paths(1,2)] have
    rb: "\<forall>(tpl, out) \<in> set (readmeFilenames env). \<exists>src. files a tpl = Some src \<and>
         files b out = Some (denoFmt env out (readmeText (drafts env) latest src))" .
  have readmes: "\<forall>(tpl, out) \<in> set (readmeFilenames env). \<exists>src. files s tpl = Some src \<and>
         files s' out = Some (denoFmt env out (readmeText (drafts env) latest src))"
  proof (intro ballI, clarify)
    fix tpl out assume m: "(tpl, out) \<in> set (readmeFilenames env)"
    with rb obtain src where src: "files a tpl = Some src"
      and out: "files b out = Some (denoFmt env out (readmeText (drafts env) latest src))"
      by blast
    from m have "tpl \<noteq> latestFilename env"
      by (rule readme_template_not_written)
    with src a' have 1: "files s tpl = Some src"
      by simp
    from touchesOnly_files [OF after_readmes readme_not_rewritten [OF m]] out
    have "files s' out = Some (denoFmt env out (readmeText (drafts env) latest src))"
      by simp
    with 1 show "\<exists>src. files s tpl = Some src \<and>
        files s' out = Some (denoFmt env out (readmeText (drafts env) latest src))"
      by blast
  qed
  from finish_license [OF assms] obtain tmpl body where
    t: "files s (licenseTemplateFilename env) = Some tmpl"
    and m: "formatMarkdown env (licenseSource env tmpl (licenseCopyrights s)) None = Inr body"
    and lic: "files s' (licenseFilename env) = Some body"
    by blast
  have lc: "files c (licenseFilename env) = files s' (licenseFilename env)"
    using touchesOnly_files [OF touchesOnly_trans [OF touchesOnly_trans [OF 3 4] 5] license_not_rewritten]
    by simp
  have ln: "licenseFilename env \<notin> (\<lambda>dir. pathJoin dir ''LICENSE.md'') ` set (ALL_DIST_DIRS env)"
    using license_not_rewritten [of env] by simp
  have copies: "\<forall>dir \<in> set (ALL_DIST_DIRS env). files s' (pathJoin dir ''LICENSE.md'') = Some body"
  proof
    fix dir assume m: "dir \<in> set (ALL_DIST_DIRS env)"
    with copyLicense_files [OF d ln] lc lic have "files d (pathJoin dir ''LICENSE.md'') = Some body"
      by simp
    moreover from touchesOnly_files [OF after_copies copy_not_rewritten [OF m]]
    have "files s' (pathJoin dir ''LICENSE.md'') = files d (pathJoin dir ''LICENSE.md'')" .
    ultimately show "files s' (pathJoin dir ''LICENSE.md'') = Some body"
      by simp
  qed
  from e have "files e (packageFilename env) =
      Some (stringifyPackage env (updatedPackageJson env (drafts env) latest) @ ''\<newline>'')"
    by (auto simp: writePackageJson_def writeTextFile_Inr)
  moreover from touchesOnly_files [OF 5 package_not_rewritten]
  have "files s' (packageFilename env) = files e (packageFilename env)" .
  ultimately have pkg: "files s' (packageFilename env) =
      Some (stringifyPackage env (updatedPackageJson env (drafts env) latest) @ ''\<newline>'')"
    by simp
  from l latest readmes t m lic copies pkg finish_version [OF assms] show ?thesis
    by blast
qed

subsection \<open>A run that skips every draft\<close>

lemma node_path: "pathJoin (NODE_DIR env) name = CWD env @ ''/dist/node/'' @ name"
  by (simp add: NODE_DIR_def DIST_DIR_def pathJoin_def)

lemma draft_outputs_not_rewritten:
  "jsonDefFilename env d \<notin> set (runOutputs env)"
  "name \<notin> {''README.md'', ''LICENSE.md'', ''package.json''} \<Longrightarrow>
     pathJoin (NODE_DIR env) name \<notin> set (runOutputs env)"
  "d \<noteq> ''latest'' \<Longrightarrow> outputFilename env d \<notin> set (runOutputs env)"
  unfolding runOutputs_def run_paths example_paths node_path by simp_all

lemma unchanged_run_outcome:
  assumes "ledgerDoc s0 = Some doc"
    and "\<forall>d \<in> set (expandGlob env). \<exists>h raw.
      fileChecksum env (draftDefFilename env d) s0 = Inr h \<and>
      importDefinition env (draftDefFilename env d) = Inr raw \<and>
      unchanged env (fromEntries doc) (draftDefRelativeFilename d) h"
  shows "(\<forall>p. p \<notin> set (runOutputs env) \<longrightarrow> files (afterwards (run env s0)) p = files s0 p) \<and>
         (console (afterwards (run env s0)) = [] \<or>
          console (afterwards (run env s0)) = map skipMessage (drafts env)) \<and>
         checksums (afterwards (run env s0)) = fromEntries doc \<and>
         (ledgerDoc (afterwards (run env s0)) = Some doc \<or>
          ledgerDoc (afterwards (run env s0)) = Some (serializeChecksums env (fromEntries doc)))"
proof -
  let ?s1 = "s0\<lparr>checksums := fromEntries doc, licenseCopyrights := [], console := []\<rparr>"
  from assms(1) have i: "importChecksums env s0 = Inr ?s1"
    by (simp add: importChecksums_def)
  show ?thesis
  proof (cases "readTextFile (modTemplateFilename env) ?s1")
    case (Inl failure)
    then obtain e s' where f: "readTextFile (modTemplateFilename env) ?s1 = Inl (e, s')"
      by (cases failure) auto
    then have "s' = ?s1"
      by (simp add: readTextFile_Inl)
    with i f assms(1) show ?thesis
      by (simp add: run_def)
  next
    case (Inr code)
    have "\<forall>d \<in> set (drafts env). \<exists>h raw.
        fileChecksum env (draftDefFilename env d) ?s1 = Inr h \<and>
        importDefinition env (draftDefFilename env d) = Inr raw \<and>
        unchanged env (checksums ?s1) (draftDefRelativeFilename d) h"
      using assms(2) by (simp add: fileChecksum_Inr drafts_def)
    from processDrafts_all_unchanged [OF this, of code] obtain s2 where
      loop: "processDrafts env code (drafts env) ?s1 = Inr s2"
      and s2: "files s2 = files s0" "checksums s2 = fromEntries doc" "ledgerDoc s2 = Some doc"
        "console s2 = map skipMessage (drafts env)"
      using assms(1) by auto
    show ?thesis
    proof (cases "denied env (checksumsFilename env)")
      case True
      with i Inr loop s2 show ?thesis
        by (simp add: run_def writeChecksums_def)
    next
      case False
      let ?s3 = "s2\<lparr>ledgerDoc := Some (serializeChecksums env (checksums s2))\<rparr>"
      from False have w: "writeChecksums env s2 = Inr ?s3"
        by (simp add: writeChecksums_def)
      from run_after_loop [OF i Inr loop w] have r: "run env s0 = finish env ?s3" .
      have t: "touchesOnly (set (runOutputs env)) ?s3 (afterwards (finish env ?s3))"
        by (rule touchesOnly_finish)
      then have "(\<forall>p. p \<notin> set (runOutputs env) \<longrightarrow> files (afterwards (finish env ?s3)) p = files s0 p)"
        "console (afterwards (finish env ?s3)) = map skipMessage (drafts env)"
        "checksums (afterwards (finish env ?s3)) = fromEntries doc"
        "ledgerDoc (afterwards (finish env ?s3)) = Some (serializeChecksums env (fromEntries doc))"
        using s2 by (simp_all add: touchesOnly_def)
      then show ?thesis
        unfolding r by (intro conjI disjI2)
    qed
  qed
qed

lemma unchanged_run_completed:
  assumes "ledgerDoc s0 = Some doc"
    and "\<forall>d \<in> set (expandGlob env). \<exists>h raw.
      fileChecksum env (draftDefFilename env d) s0 = Inr h \<and>
      importDefinition env (draftDefFilename env d) = Inr raw \<and>
      unchanged env (fromEntries doc) (draftDefRelativeFilename d) h"
    and "run env s0 = Inr final"
  shows "console final = map skipMessage (drafts env) \<and>
         ledgerDoc final = Some (serializeChecksums env (fromEntries doc)) \<and>
         (\<exists>latest defs tmpl body.
            latestDraft (drafts env) = Some latest \<and>
            map (\<lambda>d. importDefinition env (draftDefFilename env d)) (drafts env) = map Inr defs \<and>
            files final (latestFilename env) = Some (latestModule latest) \<and>
            (\<forall>(tpl, out) \<in> set (readmeFilenames env). \<exists>src. files s0 tpl = Some src \<and>
               files final out = Some (denoFmt env out (readmeText (drafts env) latest src))) \<and>
            files s0 (licenseTemplateFilename env) = Some tmpl \<and>
            formatMarkdown env (licenseSource env tmpl (map licenseEntry defs)) None = Inr body \<and>
            files final (licenseFilename env) = Some body \<and>
            (\<forall>dir \<in> set (ALL_DIST_DIRS env). files final (pathJoin dir ''LICENSE.md'') = Some body) \<and>
            files final (packageFilename env) =
              Some (stringifyPackage env (updatedPackageJson env (drafts env) latest) @ ''\<newline>'') \<and>
            files final (versionFilename env) = Some (versionModule env))"
proof -
  from assms(3) obtain s1 code s2 s3 where i: "importChecksums env s0 = Inr s1"
    and loop: "processDrafts env code (drafts env) s1 = Inr s2"
    and w: "writeChecksums env s2 = Inr s3" and f: "finish env s3 = Inr final"
    by (auto simp: run_Inr)
  from importChecksums_checksums [OF i assms(1)] have s1: "checksums s1 = fromEntries doc"
    "console s1 = []" "licenseCopyrights s1 = []" "files s1 = files s0"
    by simp_all
  have "\<forall>d \<in> set (drafts env). \<exists>h raw.
      fileChecksum env (draftDefFilename env d) s1 = Inr h \<and>
      importDefinition env (draftDefFilename env d) = Inr raw \<and>
      unchanged env (checksums s1) (draftDefRelativeFilename d) h"
    using assms(2) s1 by (simp add: fileChecksum_Inr drafts_def)
  from processDrafts_all_unchanged [OF this, of code] loop s1
  have s2: "files s2 = files s0" "checksums s2 = fromEntries doc"
    "console s2 = map skipMessage (drafts env)"
    by auto
  from processDrafts_licenseCopyrights [OF loop] s1 obtain defs where
    m: "map (\<lambda>d. importDefinition env (draftDefFilename env d)) (drafts env) = map Inr defs"
    and l2: "licenseCopyrights s2 = map licenseEntry defs"
    by auto
  from w have s3: "s3 = s2\<lparr>ledgerDoc := Some (serializeChecksums env (checksums s2))\<rparr>"
    by (simp add: writeChecksums_Inr)
  from touchesOnly_finish [of env s3] f s2 s3
  have mem: "console final = map skipMessage (drafts env)"
    "ledgerDoc final = Some (serializeChecksums env (fromEntries doc))"
    by (simp_all add: touchesOnly_def)
  from s3 s2 l2 have at3: "files s3 = files s0" "licenseCopyrights s3 = map licenseEntry defs"
    by simp_all
  from finish_outputs [OF f] obtain latest tmpl body where
    "latestDraft (drafts env) = Some latest"
    "files final (latestFilename env) = Some (latestModule latest)"
    "\<forall>(tpl, out) \<in> set (readmeFilenames env). \<exists>src. files s3 tpl = Some src \<and>
       files final out = Some (denoFmt env out (readmeText (drafts env) latest src))"
    "files s3 (licenseTemplateFilename env) = Some tmpl"
    "formatMarkdown env (licenseSource env tmpl (licenseCopyrights s3)) None = Inr body"
    "files final (licenseFilename env) = Some body"
    "\<forall>dir \<in> set (ALL_DIST_DIRS env). files final (pathJoin dir ''LICENSE.md'') = Some body"
    "files final (packageFilename env) =
       Some (stringifyPackage env (updatedPackageJson env (drafts env) latest) @ ''\<newline>'')"
    "files final (versionFilename env) = Some (versionModule env)"
    by blast
  with m have "\<exists>latest defs tmpl body.
         latestDraft (drafts env) = Some latest \<and>
         map (\<lambda>d. importDefinition env (draftDefFilename env d)) (drafts env) = map Inr defs \<and>
         files final (latestFilename env) = Some (latestModule latest) \<and>
         (\<forall>(tpl, out) \<in> set (readmeFilenames env). \<exists>src. files s0 tpl = Some src \<and>
            files final out = Some (denoFmt env out (readmeText (drafts env) latest src))) \<and>
         files s0 (licenseTemplateFilename env) = Some tmpl \<and>
         formatMarkdown env (licenseSource env tmpl (map licenseEntry defs)) None = Inr body \<and>
         files final (licenseFilename env) = Some body \<and>
         (\<forall>dir \<in> set (ALL_DIST_DIRS env). files final (pathJoin dir ''LICENSE.md'') = Some body) \<and>
         files final (packageFilename env) =
           Some (stringifyPackage env (updatedPackageJson env (drafts env) latest) @ ''\<newline>'') \<and>
         files final (versionFilename env) = Some (versionModule env)"
    unfolding at3 by (intro exI [of _ latest] exI [of _ defs] exI [of _ tmpl] exI [of _ body]) simp
  with mem show ?thesis
    by (intro conjI)
qed

text \<open>
  C5, as the specification states it, fails. In the example both drafts are skipped: the
  ledger holds their digests and the force flag is unset. The run still rewrites the
  files of lines 154 to 288; the version module on disk, written by release 1.0.0, is
  replaced by that of 1.0.1.
\<close>

theorem unchanged_run_rewrites_version_module:
  "FORCE_REFRESH exampleEnv = False \<and>
   console (afterwards (run exampleEnv exampleState)) =
     [skipMessage ''2019-09'', skipMessage ''draft7''] \<and>
   files exampleState (versionFilename exampleEnv) = Some ''export const VERSION = \"1.0.0\";'' \<and>
   files (afterwards (run exampleEnv exampleState)) (versionFilename exampleEnv) =
     Some ''export const VERSION = \"1.0.1\";''"
proof -
  from example_run obtain s3 s' where
    c: "console s3 = [skipMessage ''2019-09'', skipMessage ''draft7'']"
    and r: "run exampleEnv exampleState = finish exampleEnv s3"
    and f: "finish exampleEnv s3 = Inr s'"
    by blast
  from touchesOnly_finish [of exampleEnv s3] f have "console s' = console s3"
    by (simp add: touchesOnly_def)
  with c r f finish_version [OF f] show ?thesis
    by (simp add: versionModule_def run_paths)
qed

text \<open>
  C5, amended. When the ledger holds the current digest of every discovered draft and the
  force flag is unset, the run regenerates no draft. The console of a run that gets past
  the loop is one skip line per draft, in order, and nothing else; the \<^verbatim>\<open>checksums\<close>
  object is the imported one; every file other than those lines 154 to 288 write is as it
  was: the definition of every draft in \<^verbatim>\<open>dist/spec_definitions\<close>, every file in
  \<^verbatim>\<open>dist/node\<close> other than \<^verbatim>\<open>README.md\<close>, \<^verbatim>\<open>LICENSE.md\<close> and \<^verbatim>\<open>package.json\<close> (so every
  compiled file), and the module of every draft, except that a draft named \<^verbatim>\<open>latest\<close>
  has its module at the path of the latest alias. The ledger document is left alone or
  rewritten from the unchanged object. A run that completes has rewritten the ledger from
  the unchanged object, and has written the latest alias, both READMEs, the LICENSE file
  and its three copies, the package metadata and the version module from the current
  drafts, templates, definitions, version and year.
\<close>

theorem unchanged_run_regenerates_nothing:
  assumes "ledgerDoc s0 = Some doc"
    and "\<forall>d \<in> set (expandGlob env). \<exists>h raw.
      fileChecksum env (draftDefFilename env d) s0 = Inr h \<and>
      importDefinition env (draftDefFilename env d) = Inr raw \<and>
      unchanged env (fromEntries doc) (draftDefRelativeFilename d) h"
  shows "(\<forall>p. p \<notin> set (runOutputs env) \<longrightarrow> files (afterwards (run env s0)) p = files s0 p) \<and>
         (\<forall>d. files (afterwards (run env s0)) (jsonDefFilename env d) =
                files s0 (jsonDefFilename env d) \<and>
              (d \<noteq> ''latest'' \<longrightarrow>
                 files (afterwards (run env s0)) (outputFilename env d) =
                 files s0 (outputFilename env d))) \<and>
         (\<forall>name. name \<notin> {''README.md'', ''LICENSE.md'', ''package.json''} \<longrightarrow>
            files (afterwards (run env s0)) (pathJoin (NODE_DIR env) name) =
            files s0 (pathJoin (NODE_DIR env) name)) \<and>
         (console (afterwards (run env s0)) = [] \<or>
          console (afterwards (run env s0)) = map skipMessage (drafts env)) \<and>
         checksums (afterwards (run env s0)) = fromEntries doc \<and>
         (ledgerDoc (afterwards (run env s0)) = Some doc \<or>
          ledgerDoc (afterwards (run env s0)) = Some (serializeChecksums env (fromEntries doc))) \<and>
         (run env s0 = Inr final \<longrightarrow>
            console final = map skipMessage (drafts env) \<and>
            ledgerDoc final = Some (serializeChecksums env (fromEntries doc)) \<and>
            (\<exists>latest defs tmpl body.
               latestDraft (drafts env) = Some latest \<and>
               map (\<lambda>d. importDefinition env (draftDefFilename env d)) (drafts env) = map Inr defs \<and>
               files final (latestFilename env) = Some (latestModule latest) \<and>
               (\<forall>(tpl, out) \<in> set (readmeFilenames env). \<exists>src. files s0 tpl = Some src \<and>
                  files final out = Some (denoFmt env out (readmeText (drafts env) latest src))) \<and>
               files s0 (licenseTemplateFilename env) = Some tmpl \<and>
               formatMarkdown env (licenseSource env tmpl (map licenseEntry defs)) None = Inr body \<and>
               files final (licenseFilename env) = Some body \<and>
               (\<forall>dir \<in> set (ALL_DIST_DIRS env). files final (pathJoin dir ''LICENSE.md'') = Some body) \<and>
               files final (packageFilename env) =
                 Some (stringifyPackage env (updatedPackageJson env (drafts env) latest) @ ''\<newline>'') \<and>
               files final (versionFilename env) = Some (versionModule env)))"
proof -
  note outcome = unchanged_run_outcome [OF assms]
  from outcome have untouched:
    "\<forall>p. p \<notin> set (runOutputs env) \<longrightarrow> files (afterwards (run env s0)) p = files s0 p"
    by (rule conjunct1)
  from outcome have memory:
    "(console (afterwards (run env s0)) = [] \<or>
      console (afterwards (run env s0)) = map skipMessage (drafts env)) \<and>
     checksums (afterwards (run env s0)) = fromEntries doc \<and>
     (ledgerDoc (afterwards (run env s0)) = Some doc \<or>
      ledgerDoc (afterwards (run env s0)) = Some (serializeChecksums env (fromEntries doc)))"
    by (rule conjunct2)
  have drafts: "\<forall>d. files (afterwards (run env s0)) (jsonDefFilename env d) =
                files s0 (jsonDefFilename env d) \<and>
              (d \<noteq> ''latest'' \<longrightarrow>
                 files (afterwards (run env s0)) (outputFilename env d) =
                 files s0 (outputFilename env d))"
    using untouched by (simp add: draft_outputs_not_rewritten)
  have node: "\<forall>name. name \<notin> {''README.md'', ''LICENSE.md'', ''package.json''} \<longrightarrow>
            files (afterwards (run env s0)) (pathJoin (NODE_DIR env) name) =
            files s0 (pathJoin (NODE_DIR env) name)"
    using untouched draft_outputs_not_rewritten(2) [of _ env] by blast
  have completed: "run env s0 = Inr final \<longrightarrow>
            console final = map skipMessage (drafts env) \<and>
            ledgerDoc final = Some (serializeChecksums env (fromEntries doc)) \<and>
            (\<exists>latest defs tmpl body.
               latestDraft (drafts env) = Some latest \<and>
               map (\<lambda>d. importDefinition env (draftDefFilename env d)) (drafts env) = map Inr defs \<and>
               files final (latestFilename env) = Some (latestModule latest) \<and>
               (\<forall>(tpl, out) \<in> set (readmeFilenames env). \<exists>src. files s0 tpl = Some src \<and>
                  files final out = Some (denoFmt env out (readmeText (drafts env) latest src))) \<and>
               files s0 (licenseTemplateFilename env) = Some tmpl \<and>
               formatMarkdown env (licenseSource env tmpl (map licenseEntry defs)) None = Inr body \<and>
               files final (licenseFilename env) = Some body \<and>
               (\<forall>dir \<in> set (ALL_DIST_DIRS env). files final (pathJoin dir ''LICENSE.md'') = Some body) \<and>
               files final (packageFilename env) =
                 Some (stringifyPackage env (updatedPackageJson env (drafts env) latest) @ ''\<newline>'') \<and>
               files final (versionFilename env) = Some (versionModule env))"
    by (rule impI) (rule unchanged_run_completed [OF assms])
  from untouched drafts node memory completed show ?thesis
    by (intro conjI) (elim conjE, assumption)+
qed

lemma example_readme:
  "readmeText [''2019-09'', ''draft7''] ''2019-09'' ''{DRAFT_TOTAL} {LATEST_DRAFT}'' = ''2 2019-09''"
  by code_simp

lemma example_package:
  "pkg_version (updatedPackageJson exampleEnv ds latest) = ''1.0.1''"
  by (simp add: updatedPackageJson_def)

theorem unchanged_run_regenerates_nothing_witness:
  "ledgerDoc exampleState = Some [(''.src/draft/2019-09/definition.ts'', ''0e''),
                                  (''.src/draft/draft7/definition.ts'', ''0d'')] \<and>
   fileChecksum exampleEnv (draftDefFilename exampleEnv ''draft7'') exampleState = Inr ''0d'' \<and>
   fileChecksum exampleEnv (draftDefFilename exampleEnv ''2019-09'') exampleState = Inr ''0e'' \<and>
   (\<exists>final. run exampleEnv exampleState = Inr final \<and>
      console final = [skipMessage ''2019-09'', skipMessage ''draft7''] \<and>
      checksums final = checksums exampleState \<and>
      files final (outputFilename exampleEnv ''draft7'') = files exampleState (outputFilename exampleEnv ''draft7'') \<and>
      files final (jsonDefFilename exampleEnv ''draft7'') = files exampleState (jsonDefFilename exampleEnv ''draft7'') \<and>
      files final (pathJoin (NODE_DIR exampleEnv) ''module.js'') =
        files exampleState (pathJoin (NODE_DIR exampleEnv) ''module.js'') \<and>
      files final (latestFilename exampleEnv) = Some ''export * from \"./draft_2019-09.ts\";'' \<and>
      files final ''/repo/dist/deno/README.md'' = Some ''2 2019-09'' \<and>
      files final (licenseFilename exampleEnv) =
        Some ''2026: 2018 [draft-07] A. Author, and B. Editor.\<newline>\<newline>2019 [draft-2019-09] A. Author, and B. Editor.'' \<and>
      files final ''/repo/dist/node/LICENSE.md'' =
        Some ''2026: 2018 [draft-07] A. Author, and B. Editor.\<newline>\<newline>2019 [draft-2019-09] A. Author, and B. Editor.'' \<and>
      files final (packageFilename exampleEnv) = Some ''1.0.1\<newline>'' \<and>
      files final (versionFilename exampleEnv) = Some ''export const VERSION = \"1.0.1\";'')"
proof -
  have d: "ledgerDoc exampleState = Some [(''.src/draft/2019-09/definition.ts'', ''0e''),
                                  (''.src/draft/draft7/definition.ts'', ''0d'')]"
    by simp
  have c: "fileChecksum exampleEnv (draftDefFilename exampleEnv ''draft7'') exampleState = Inr ''0d''"
    "fileChecksum exampleEnv (draftDefFilename exampleEnv ''2019-09'') exampleState = Inr ''0e''"
    by (simp_all add: fileChecksum_def readTextFile_def example_paths)
  from example_run obtain final where run: "run exampleEnv exampleState = Inr final"
    by auto
  then have aw: "afterwards (run exampleEnv exampleState) = final"
    by simp
  note t = unchanged_run_regenerates_nothing [OF d example_all_unchanged, of final]
  from t have cs': "checksums (afterwards (run exampleEnv exampleState)) =
      fromEntries [(''.src/draft/2019-09/definition.ts'', ''0e''),
                   (''.src/draft/draft7/definition.ts'', ''0d'')]"
    by (elim conjE)
  then have cs: "checksums final = checksums exampleState"
    unfolding aw by (simp add: example_fromEntries)
  from t have "\<forall>d. files (afterwards (run exampleEnv exampleState)) (jsonDefFilename exampleEnv d) =
                files exampleState (jsonDefFilename exampleEnv d) \<and>
              (d \<noteq> ''latest'' \<longrightarrow>
                 files (afterwards (run exampleEnv exampleState)) (outputFilename exampleEnv d) =
                 files exampleState (outputFilename exampleEnv d))"
    by (elim conjE)
  then have dr: "files final (outputFilename exampleEnv ''draft7'') =
      files exampleState (outputFilename exampleEnv ''draft7'')"
    "files final (jsonDefFilename exampleEnv ''draft7'') =
      files exampleState (jsonDefFilename exampleEnv ''draft7'')"
    unfolding aw by simp_all
  from t have "\<forall>name. name \<notin> {''README.md'', ''LICENSE.md'', ''package.json''} \<longrightarrow>
            files (afterwards (run exampleEnv exampleState)) (pathJoin (NODE_DIR exampleEnv) name) =
            files exampleState (pathJoin (NODE_DIR exampleEnv) name)"
    by (elim conjE)
  then have nd: "files final (pathJoin (NODE_DIR exampleEnv) ''module.js'') =
        files exampleState (pathJoin (NODE_DIR exampleEnv) ''module.js'')"
    unfolding aw by simp
  from t have "run exampleEnv exampleState = Inr final \<longrightarrow>
      console final = map skipMessage (drafts exampleEnv) \<and>
      ledgerDoc final = Some (serializeChecksums exampleEnv (fromEntries
        [(''.src/draft/2019-09/definition.ts'', ''0e''),
         (''.src/draft/draft7/definition.ts'', ''0d'')])) \<and>
      (\<exists>latest defs tmpl body.
         latestDraft (drafts exampleEnv) = Some latest \<and>
         map (\<lambda>d. importDefinition exampleEnv (draftDefFilename exampleEnv d)) (drafts exampleEnv) =
           map Inr defs \<and>
         files final (latestFilename exampleEnv) = Some (latestModule latest) \<and>
         (\<forall>(tpl, out) \<in> set (readmeFilenames exampleEnv). \<exists>src. files exampleState tpl = Some src \<and>
            files final out = Some (denoFmt exampleEnv out (readmeText (drafts exampleEnv) latest src))) \<and>
         files exampleState (licenseTemplateFilename exampleEnv) = Some tmpl \<and>
         formatMarkdown exampleEnv (licenseSource exampleEnv tmpl (map licenseEntry defs)) None = Inr body \<and>
         files final (licenseFilename exampleEnv) = Some body \<and>
         (\<forall>dir \<in> set (ALL_DIST_DIRS exampleEnv). files final (pathJoin dir ''LICENSE.md'') = Some body) \<and>
         files final (packageFilename exampleEnv) =
           Some (stringifyPackage exampleEnv (updatedPackageJson exampleEnv (drafts exampleEnv) latest) @ ''\<newline>'') \<and>
         files final (versionFilename exampleEnv) = Some (versionModule exampleEnv))"
    by (elim conjE)
  from this [THEN mp, OF run] obtain latest defs tmpl body where
    con: "console final = map skipMessage (drafts exampleEnv)"
    and l: "latestDraft (drafts exampleEnv) = Some latest"
    and m: "map (\<lambda>d. importDefinition exampleEnv (draftDefFilename exampleEnv d)) (drafts exampleEnv) =
          map Inr defs"
    and la: "files final (latestFilename exampleEnv) = Some (latestModule latest)"
    and rm: "\<forall>(tpl, out) \<in> set (readmeFilenames exampleEnv). \<exists>src. files exampleState tpl = Some src \<and>
         files final out = Some (denoFmt exampleEnv out (readmeText (drafts exampleEnv) latest src))"
    and tm: "files exampleState (licenseTemplateFilename exampleEnv) = Some tmpl"
    and fm: "formatMarkdown exampleEnv (licenseSource exampleEnv tmpl (map licenseEntry defs)) None =
          Inr body"
    and li: "files final (licenseFilename exampleEnv) = Some body"
    and cp: "\<forall>dir \<in> set (ALL_DIST_DIRS exampleEnv). files final (pathJoin dir ''LICENSE.md'') = Some body"
    and pk: "files final (packageFilename exampleEnv) =
         Some (stringifyPackage exampleEnv (updatedPackageJson exampleEnv (drafts exampleEnv) latest) @ ''\<newline>'')"
    and ve: "files final (versionFilename exampleEnv) = Some (versionModule exampleEnv)"
    by (elim conjE exE)
  from l have latest: "latest = ''2019-09''"
    by (simp add: latest_example)
  from m have "map Inr defs =
      [Inr (exampleDefinition ''2019-09'' 2019), Inr (exampleDefinition ''07'' 2018) :: error + unit draft_definition]"
    by (simp add: drafts_example example_paths)
  then have defs: "defs = [exampleDefinition ''2019-09'' 2019, exampleDefinition ''07'' 2018]"
    by (auto simp: map_eq_Cons_conv)
  from tm have tmpl: "tmpl = ''{YEAR}: {COPYRIGHT}''"
    by (simp add: run_paths)
  from fm have "body = licenseSource exampleEnv tmpl (map licenseEntry defs)"
    by simp
  then have body: "body =
      ''2026: 2018 [draft-07] A. Author, and B. Editor.\<newline>\<newline>2019 [draft-2019-09] A. Author, and B. Editor.''"
    unfolding defs tmpl by (simp only: example_license_text)
  have "(''/repo/.src/file_templates/README.deno.template.md'', ''/repo/dist/deno/README.md'')
      \<in> set (readmeFilenames exampleEnv)"
    by (simp add: run_paths)
  from bspec [OF rm this]
  have "\<exists>src. files exampleState ''/repo/.src/file_templates/README.deno.template.md'' = Some src \<and>
      files final ''/repo/dist/deno/README.md'' =
        Some (denoFmt exampleEnv ''/repo/dist/deno/README.md'' (readmeText (drafts exampleEnv) latest src))"
    by simp
  then obtain src where "files exampleState ''/repo/.src/file_templates/README.deno.template.md'' = Some src"
    and out: "files final ''/repo/dist/deno/README.md'' =
        Some (denoFmt exampleEnv ''/repo/dist/deno/README.md'' (readmeText (drafts exampleEnv) latest src))"
    by (elim exE conjE)
  then have "src = ''{DRAFT_TOTAL} {LATEST_DRAFT}''"
    by simp
  with out have readme: "files final ''/repo/dist/deno/README.md'' = Some ''2 2019-09''"
    by (simp add: latest drafts_example example_readme)
  have "NODE_DIR exampleEnv \<in> set (ALL_DIST_DIRS exampleEnv)"
    by (simp add: ALL_DIST_DIRS_def)
  with cp have "files final (pathJoin (NODE_DIR exampleEnv) ''LICENSE.md'') = Some body"
    by (rule bspec)
  then have copy: "files final ''/repo/dist/node/LICENSE.md'' = Some body"
    by (simp add: node_path)
  from con have con': "console final = [skipMessage ''2019-09'', skipMessage ''draft7'']"
    by (simp add: drafts_example)
  from la have la': "files final (latestFilename exampleEnv) = Some ''export * from \"./draft_2019-09.ts\";''"
    by (simp add: latest latestModule_def)
  from pk have pk': "files final (packageFilename exampleEnv) = Some ''1.0.1\<newline>''"
    by (simp add: example_package)
  from ve have ve': "files final (versionFilename exampleEnv) = Some ''export const VERSION = \"1.0.1\";''"
    by (simp add: versionModule_def)
  from li copy have li': "files final (licenseFilename exampleEnv) =
        Some ''2026: 2018 [draft-07] A. Author, and B. Editor.\<newline>\<newline>2019 [draft-2019-09] A. Author, and B. Editor.''"
    and copy': "files final ''/repo/dist/node/LICENSE.md'' =
        Some ''2026: 2018 [draft-07] A. Author, and B. Editor.\<newline>\<newline>2019 [draft-2019-09] A. Author, and B. Editor.''"
    unfolding body by simp_all
  from run con' cs dr nd la' readme li' copy' pk' ve' d c show ?thesis
    by (intro conjI exI [of _ final])
qed

end
